theory Spec2Isabelle
  imports Complex_Main "HOL-Library.Stream" "HOL-Library.Log_Nat"
begin

section \<open>JavaScript numbers\<close>

text \<open>
  A JavaScript number is modelled as a real or one of the three special values of
  IEEE 754. The operators \<open>+ - * /\<close> of the type are the exact operations, with the
  special values following the IEEE rules that \<^verbatim>\<open>+ - * /\<close>, \<^verbatim>\<open>Math.max\<close>,
  \<^verbatim>\<open>Math.min\<close> and the comparisons implement; there is one zero, read as \<^verbatim>\<open>+0\<close>.
  The operations of the machine, which round every result to a double, are
  \<open>add64\<close>, \<open>mul64\<close> and \<open>div64\<close> below. The sequencer is modelled with them: it
  accumulates its clock over any number of steps and compares it with the time of the
  audio context, so the rounding decides how many steps a wake runs and whether the
  clock advances at all. The effect and gesture formulas are evaluated once per frame
  and are given over the exact operations and the exact decimal literals.
\<close>

datatype jsnum = Fin real | PInf | NInf | NaN

instantiation jsnum :: "{zero, one, plus, minus, uminus, times, inverse, ord}"
begin

definition zero_jsnum :: jsnum where
  "zero_jsnum = Fin 0"

definition one_jsnum :: jsnum where
  "one_jsnum = Fin 1"

fun plus_jsnum :: "jsnum \<Rightarrow> jsnum \<Rightarrow> jsnum" where
  "plus_jsnum NaN _ = NaN"
| "plus_jsnum _ NaN = NaN"
| "plus_jsnum (Fin a) (Fin b) = Fin (a + b)"
| "plus_jsnum PInf NInf = NaN"
| "plus_jsnum NInf PInf = NaN"
| "plus_jsnum PInf _ = PInf"
| "plus_jsnum _ PInf = PInf"
| "plus_jsnum NInf _ = NInf"
| "plus_jsnum _ NInf = NInf"

fun uminus_jsnum :: "jsnum \<Rightarrow> jsnum" where
  "uminus_jsnum (Fin a) = Fin (- a)"
| "uminus_jsnum PInf = NInf"
| "uminus_jsnum NInf = PInf"
| "uminus_jsnum NaN = NaN"

definition minus_jsnum :: "jsnum \<Rightarrow> jsnum \<Rightarrow> jsnum" where
  "minus_jsnum (a::jsnum) (b::jsnum) = a + (- b)"

fun times_jsnum :: "jsnum \<Rightarrow> jsnum \<Rightarrow> jsnum" where
  "times_jsnum NaN _ = NaN"
| "times_jsnum _ NaN = NaN"
| "times_jsnum (Fin a) (Fin b) = Fin (a * b)"
| "times_jsnum PInf (Fin b) = (if b = 0 then NaN else if 0 < b then PInf else NInf)"
| "times_jsnum NInf (Fin b) = (if b = 0 then NaN else if 0 < b then NInf else PInf)"
| "times_jsnum (Fin a) PInf = (if a = 0 then NaN else if 0 < a then PInf else NInf)"
| "times_jsnum (Fin a) NInf = (if a = 0 then NaN else if 0 < a then NInf else PInf)"
| "times_jsnum PInf PInf = PInf"
| "times_jsnum NInf NInf = PInf"
| "times_jsnum PInf NInf = NInf"
| "times_jsnum NInf PInf = NInf"

fun divide_jsnum :: "jsnum \<Rightarrow> jsnum \<Rightarrow> jsnum" where
  "divide_jsnum NaN _ = NaN"
| "divide_jsnum _ NaN = NaN"
| "divide_jsnum (Fin a) (Fin b) =
     (if b = 0 then (if a = 0 then NaN else if 0 < a then PInf else NInf) else Fin (a / b))"
| "divide_jsnum (Fin a) PInf = Fin 0"
| "divide_jsnum (Fin a) NInf = Fin 0"
| "divide_jsnum PInf (Fin b) = (if b < 0 then NInf else PInf)"
| "divide_jsnum NInf (Fin b) = (if b < 0 then PInf else NInf)"
| "divide_jsnum PInf PInf = NaN"
| "divide_jsnum PInf NInf = NaN"
| "divide_jsnum NInf PInf = NaN"
| "divide_jsnum NInf NInf = NaN"

fun inverse_jsnum :: "jsnum \<Rightarrow> jsnum" where
  "inverse_jsnum (Fin b) = (if b = 0 then PInf else Fin (1 / b))"
| "inverse_jsnum PInf = Fin 0"
| "inverse_jsnum NInf = Fin 0"
| "inverse_jsnum NaN = NaN"

fun less_jsnum :: "jsnum \<Rightarrow> jsnum \<Rightarrow> bool" where
  "less_jsnum NaN _ = False"
| "less_jsnum _ NaN = False"
| "less_jsnum (Fin a) (Fin b) = (a < b)"
| "less_jsnum _ NInf = False"
| "less_jsnum PInf _ = False"
| "less_jsnum NInf _ = True"
| "less_jsnum _ PInf = True"

fun less_eq_jsnum :: "jsnum \<Rightarrow> jsnum \<Rightarrow> bool" where
  "less_eq_jsnum NaN _ = False"
| "less_eq_jsnum _ NaN = False"
| "less_eq_jsnum (Fin a) (Fin b) = (a \<le> b)"
| "less_eq_jsnum NInf _ = True"
| "less_eq_jsnum _ PInf = True"
| "less_eq_jsnum _ NInf = False"
| "less_eq_jsnum PInf _ = False"

instance ..

end

instance jsnum :: semigroup_add
proof
  fix a b c :: jsnum
  show "a + b + c = a + (b + c)"
    by (cases a; cases b; cases c) simp_all
qed

instance jsnum :: numeral ..

instance jsnum :: power ..

text \<open>\<^verbatim>\<open>Math.max\<close> and \<^verbatim>\<open>Math.min\<close> return \<^verbatim>\<open>NaN\<close> as soon as one argument is.\<close>

definition Math_max :: "jsnum \<Rightarrow> jsnum \<Rightarrow> jsnum" where
  "Math_max a b = (if a = NaN \<or> b = NaN then NaN else if a < b then b else a)"

definition Math_min :: "jsnum \<Rightarrow> jsnum \<Rightarrow> jsnum" where
  "Math_min a b = (if a = NaN \<or> b = NaN then NaN else if b < a then b else a)"

text \<open>\<^verbatim>\<open>Math.pow\<close> at a non-negative integer exponent, the only use the engine makes.\<close>

definition Math_pow :: "jsnum \<Rightarrow> nat \<Rightarrow> jsnum" where
  "Math_pow x n = x ^ n"

subsection \<open>Doubles\<close>

text \<open>
  Rounding to the nearest integer, ties to the even one; and rounding of a real to the
  nearest binary64 value, ties to the even significand: 53 significant bits down to
  the exponent \<open>-1022\<close>, the multiples of \<open>1 / 2 ^ 1074\<close> below, and the infinities
  from \<open>2 ^ 1024\<close> on. With \<open>s = r \<sqdot> 2 ^ 1074\<close>, the doubles around \<open>r\<close> are
  \<open>2 ^ k / 2 ^ 1074\<close> apart, where \<open>k\<close> is the number of bits that the integer part of
  \<open>\<bar>s\<bar>\<close> has beyond 53.
\<close>

definition round_half_even :: "real \<Rightarrow> int" where
  "round_half_even x =
    (let f = \<lfloor>x\<rfloor>; r = x - of_int f
     in if r < 1 / 2 then f else if 1 / 2 < r then f + 1 else if even f then f else f + 1)"

definition binary64 :: "real \<Rightarrow> jsnum" where
  "binary64 r =
    (let s = r * 2 ^ 1074;
         k = nat (bitlen \<lfloor>\<bar>s\<bar>\<rfloor> - 53);
         m = round_half_even (s / 2 ^ k);
         y = of_int m * 2 ^ k / 2 ^ 1074
     in if 2 ^ 1024 \<le> \<bar>y\<bar> then (if 0 < r then PInf else NInf) else Fin y)"

fun round64 :: "jsnum \<Rightarrow> jsnum" where
  "round64 (Fin r) = binary64 r"
| "round64 v = v"

text \<open>
  The machine's \<^verbatim>\<open>+\<close>, \<^verbatim>\<open>*\<close> and \<^verbatim>\<open>/\<close>: the exact result, rounded. Where
  they are used, a decimal literal of the source that is not a double itself, such as
  \<^verbatim>\<open>0.1\<close>, is written \<open>round64 0.1\<close>.
\<close>

definition add64 :: "jsnum \<Rightarrow> jsnum \<Rightarrow> jsnum" where
  "add64 a b = round64 (a + b)"

definition mul64 :: "jsnum \<Rightarrow> jsnum \<Rightarrow> jsnum" where
  "mul64 a b = round64 (a * b)"

definition div64 :: "jsnum \<Rightarrow> jsnum \<Rightarrow> jsnum" where
  "div64 a b = round64 (a / b)"

section \<open>types.ts\<close>

datatype EffectType = NONE | VOLUME | LPF | HPF | REVERB | DELAY | FLANGER

datatype LoopCategory = DRUMS | SYNTH | AMBIENT | PERC

record LoopDefinition =
  loop_id :: string
  loop_name :: string
  loop_category :: LoopCategory
  loop_bpm :: jsnum

definition AVAILABLE_LOOPS :: "LoopDefinition list" where
  "AVAILABLE_LOOPS =
    [\<lparr>loop_id = ''drum_house'', loop_name = ''House Beat'', loop_category = DRUMS, loop_bpm = 128\<rparr>,
     \<lparr>loop_id = ''drum_break'', loop_name = ''Breakbeat'', loop_category = DRUMS, loop_bpm = 128\<rparr>,
     \<lparr>loop_id = ''synth_neon'', loop_name = ''Neon Arp'', loop_category = SYNTH, loop_bpm = 128\<rparr>,
     \<lparr>loop_id = ''synth_bass'', loop_name = ''Wobble Bass'', loop_category = SYNTH, loop_bpm = 128\<rparr>,
     \<lparr>loop_id = ''amb_space'', loop_name = ''Deep Space'', loop_category = AMBIENT, loop_bpm = 128\<rparr>,
     \<lparr>loop_id = ''amb_pads'', loop_name = ''Ethereal Pads'', loop_category = AMBIENT, loop_bpm = 128\<rparr>,
     \<lparr>loop_id = ''perc_glitch'', loop_name = ''Glitch Click'', loop_category = PERC, loop_bpm = 128\<rparr>,
     \<lparr>loop_id = ''perc_shaker'', loop_name = ''Shakers'', loop_category = PERC, loop_bpm = 128\<rparr>]"

section \<open>The audio graph of a channel\<close>

text \<open>
  The Web Audio nodes are the platform's. An \<^verbatim>\<open>AudioParam\<close> is modelled by the value
  assigned to it directly (\<^verbatim>\<open>.value = c\<close>) and by the last \<^verbatim>\<open>setTargetAtTime\<close> call
  issued on it: the target, the start time and the time constant of the exponential
  approach. What the audio thread renders from these calls is outside the model.
\<close>

record SetTarget =
  target :: jsnum
  startTime :: jsnum
  timeConstant :: jsnum

record AudioParam =
  pvalue :: jsnum
  automation :: "SetTarget option"

definition setTargetAtTime :: "jsnum \<Rightarrow> jsnum \<Rightarrow> jsnum \<Rightarrow> AudioParam \<Rightarrow> AudioParam" where
  "setTargetAtTime v t c p = p\<lparr>automation := Some \<lparr>target = v, startTime = t, timeConstant = c\<rparr>\<rparr>"

definition param :: "jsnum \<Rightarrow> AudioParam" where
  "param v = \<lparr>pvalue = v, automation = None\<rparr>"

datatype BiquadFilterType = lowpass | highpass

record BiquadFilterNode =
  ftype :: BiquadFilterType
  frequency :: AudioParam
  Q :: AudioParam

text \<open>
  The nodes of one channel and the \<^verbatim>\<open>connect\<close> calls between them: those of the
  constructor, those of \<^verbatim>\<open>getInputNode\<close> (the input gain, created at the first voice),
  and the engine's master gain, which is the \<^verbatim>\<open>destination\<close> the constructor receives.
\<close>

datatype node = MasterOutput | PresenceGain | GainNode | RotationFilterNode
  | ReverbNode | ReverbGain | DelayNode | DelayFeedback | FilterNode
  | FlangerDelay | FlangerFeedback | FlangerLFO | FlangerLFOGain | FlangerWet
  | InputGain | Destination

definition connections :: "(node \<times> node) list" where
  "connections =
    [(MasterOutput, Destination),
     (PresenceGain, MasterOutput),
     (GainNode, PresenceGain),
     (RotationFilterNode, GainNode),
     (ReverbNode, ReverbGain),
     (ReverbGain, RotationFilterNode),
     (DelayNode, DelayFeedback),
     (DelayFeedback, DelayNode),
     (DelayNode, RotationFilterNode),
     (DelayNode, ReverbNode),
     (FilterNode, DelayNode),
     (FilterNode, ReverbNode),
     (FilterNode, RotationFilterNode),
     (FlangerLFO, FlangerLFOGain),
     (FlangerLFOGain, FlangerDelay),
     (FlangerDelay, FlangerFeedback),
     (FlangerFeedback, FlangerDelay),
     (FlangerDelay, FlangerWet),
     (FlangerWet, FilterNode),
     (InputGain, FilterNode),
     (InputGain, FlangerDelay)]"

text \<open>\<open>feeds a b\<close>: audio leaving node \<open>a\<close> reaches node \<open>b\<close> along the connections.\<close>

inductive feeds :: "node \<Rightarrow> node \<Rightarrow> bool" where
  feeds_refl: "feeds a a"
| feeds_step: "(a, b) \<in> set connections \<Longrightarrow> feeds b c \<Longrightarrow> feeds a c"

text \<open>
  A voice is the short-lived sub-graph one generator call builds: which generator, its
  start time, and the node its output is connected to.
\<close>

datatype generator = Kick | Snare | HiHat | SynthTone jsnum | AmbientPad jsnum | Perc
  | Distorted808 jsnum

record voice =
  gen :: generator
  vtime :: jsnum
  dest :: node

section \<open>LoopChannel\<close>

text \<open>
  The class's fields. A gain node is represented by its \<^verbatim>\<open>gain\<close> parameter, a biquad
  filter by its type and its two parameters; \<open>voices\<close> lists the voices the generators
  have built, in the order of the calls.
\<close>

record LoopChannel =
  bpm :: jsnum
  presenceGain :: AudioParam
  gainNode :: AudioParam
  filterNode :: BiquadFilterNode
  rotationFilterNode :: BiquadFilterNode
  delayFeedback :: AudioParam
  reverbGain :: AudioParam
  flangerWet :: AudioParam
  voices :: "voice list"
  isPlaying :: bool
  currentLoop :: "LoopDefinition option"
  nextNoteTime :: jsnum
  currentStep :: nat
  timerID :: "nat option"
  isDogMode :: bool
  xEffect :: EffectType
  yEffect :: EffectType
  zEffect :: EffectType
  spreadEffect :: EffectType

text \<open>The constructor: field initialisers and the values it assigns to the nodes.\<close>

definition new_LoopChannel :: LoopChannel where
  "new_LoopChannel =
    \<lparr>bpm = 128,
     presenceGain = param 0,
     gainNode = param 0.8,
     filterNode = \<lparr>ftype = lowpass, frequency = param 20000, Q = param 1\<rparr>,
     rotationFilterNode = \<lparr>ftype = lowpass, frequency = param 22000, Q = param 1\<rparr>,
     delayFeedback = param 0,
     reverbGain = param 0,
     flangerWet = param 0,
     voices = [],
     isPlaying = False,
     currentLoop = None,
     nextNoteTime = 0,
     currentStep = 0,
     timerID = None,
     isDogMode = False,
     xEffect = NONE, yEffect = NONE, zEffect = NONE, spreadEffect = NONE\<rparr>"

definition setPresence :: "bool \<Rightarrow> jsnum \<Rightarrow> LoopChannel \<Rightarrow> LoopChannel" where
  "setPresence isPresent t ch =
    (if isDogMode ch
     then ch\<lparr>presenceGain := setTargetAtTime 1 t 0.1 (presenceGain ch)\<rparr>
     else ch\<lparr>presenceGain := setTargetAtTime (if isPresent then 1 else 0) t 0.1 (presenceGain ch)\<rparr>)"

text \<open>
  \<^verbatim>\<open>applyEffect(type, value, isMuted)\<close>; \<open>t\<close> is \<^verbatim>\<open>ctx.currentTime\<close> at the call.
\<close>

definition applyEffect :: "EffectType \<Rightarrow> jsnum \<Rightarrow> bool \<Rightarrow> jsnum \<Rightarrow> LoopChannel \<Rightarrow> LoopChannel" where
  "applyEffect type value isMuted t ch =
    (let v = Math_max 0 (Math_min 1 value);
         v = (if type = VOLUME \<and> isMuted then 0 else v)
     in case type of
          VOLUME \<Rightarrow> ch\<lparr>gainNode := setTargetAtTime v t 0.1 (gainNode ch)\<rparr>
        | LPF \<Rightarrow>
            (let lpfFreq = 100 + (Math_pow v 2 * 19900)
             in ch\<lparr>filterNode := (filterNode ch)\<lparr>ftype := lowpass,
                   frequency := setTargetAtTime lpfFreq t 0.1 (frequency (filterNode ch)),
                   Q := (Q (filterNode ch))\<lparr>pvalue := 1\<rparr>\<rparr>\<rparr>)
        | HPF \<Rightarrow>
            (let hpfFreq = v * 10000
             in ch\<lparr>filterNode := (filterNode ch)\<lparr>ftype := highpass,
                   frequency := setTargetAtTime hpfFreq t 0.1 (frequency (filterNode ch)),
                   Q := (Q (filterNode ch))\<lparr>pvalue := 1\<rparr>\<rparr>\<rparr>)
        | REVERB \<Rightarrow> ch\<lparr>reverbGain := setTargetAtTime (v * 2) t 0.1 (reverbGain ch)\<rparr>
        | DELAY \<Rightarrow> ch\<lparr>delayFeedback := setTargetAtTime (v * 0.8) t 0.1 (delayFeedback ch)\<rparr>
        | FLANGER \<Rightarrow> ch\<lparr>flangerWet := setTargetAtTime v t 0.1 (flangerWet ch)\<rparr>
        | NONE \<Rightarrow> ch)"

definition update :: "jsnum \<Rightarrow> jsnum \<Rightarrow> jsnum \<Rightarrow> jsnum \<Rightarrow> jsnum \<Rightarrow> bool \<Rightarrow> jsnum \<Rightarrow> LoopChannel \<Rightarrow> LoopChannel" where
  "update x y spread z rotation isRotActive t ch =
    (let isFist = spread < 0.15;
         ch = applyEffect (xEffect ch) x isFist t ch;
         ch = applyEffect (yEffect ch) y isFist t ch;
         ch = applyEffect (zEffect ch) z isFist t ch;
         ch = applyEffect (spreadEffect ch) spread isFist t ch
     in if isRotActive \<and> \<not> isFist then
          (if rotation < - 0.1 then
             (let norm = (rotation + 1) / 0.9;
                  freq = 40 + (Math_pow norm 3 * 19960)
              in ch\<lparr>rotationFilterNode := (rotationFilterNode ch)\<lparr>ftype := lowpass,
                    frequency := setTargetAtTime freq t 0.1 (frequency (rotationFilterNode ch)),
                    Q := (Q (rotationFilterNode ch))\<lparr>pvalue := 1\<rparr>\<rparr>\<rparr>)
           else if 0.1 < rotation then
             (let norm = (rotation - 0.1) / 0.9;
                  freq = 10 + (norm * 3990)
              in ch\<lparr>rotationFilterNode := (rotationFilterNode ch)\<lparr>ftype := highpass,
                    frequency := setTargetAtTime freq t 0.1 (frequency (rotationFilterNode ch)),
                    Q := (Q (rotationFilterNode ch))\<lparr>pvalue := 1\<rparr>\<rparr>\<rparr>)
           else
             ch\<lparr>rotationFilterNode := (rotationFilterNode ch)\<lparr>ftype := lowpass,
                   frequency := setTargetAtTime 22000 t 0.1 (frequency (rotationFilterNode ch))\<rparr>\<rparr>)
        else
          ch\<lparr>rotationFilterNode := (rotationFilterNode ch)\<lparr>ftype := lowpass,
                frequency := setTargetAtTime 22000 t 0.1 (frequency (rotationFilterNode ch))\<rparr>\<rparr>)"

datatype axis = X | Y | Z | Spread

definition resetUnmappedEffects :: "jsnum \<Rightarrow> LoopChannel \<Rightarrow> LoopChannel" where
  "resetUnmappedEffects t ch =
    (let mapped = [xEffect ch, yEffect ch, zEffect ch, spreadEffect ch];
         ch = (if VOLUME \<notin> set mapped
               then ch\<lparr>gainNode := setTargetAtTime 0.8 t 0.5 (gainNode ch)\<rparr> else ch);
         ch = (if LPF \<notin> set mapped \<and> HPF \<notin> set mapped
               then ch\<lparr>filterNode := (filterNode ch)\<lparr>
                      frequency := setTargetAtTime 20000 t 0.5 (frequency (filterNode ch)),
                      ftype := lowpass\<rparr>\<rparr>
               else ch);
         ch = (if REVERB \<notin> set mapped
               then ch\<lparr>reverbGain := setTargetAtTime 0 t 0.5 (reverbGain ch)\<rparr> else ch);
         ch = (if DELAY \<notin> set mapped
               then ch\<lparr>delayFeedback := setTargetAtTime 0 t 0.5 (delayFeedback ch)\<rparr> else ch);
         ch = (if FLANGER \<notin> set mapped
               then ch\<lparr>flangerWet := setTargetAtTime 0 t 0.5 (flangerWet ch)\<rparr> else ch)
     in ch)"

definition setMapping :: "axis \<Rightarrow> EffectType \<Rightarrow> jsnum \<Rightarrow> LoopChannel \<Rightarrow> LoopChannel" where
  "setMapping ax effect t ch =
    (let ch = (if ax = X then ch\<lparr>xEffect := effect\<rparr> else ch);
         ch = (if ax = Y then ch\<lparr>yEffect := effect\<rparr> else ch);
         ch = (if ax = Z then ch\<lparr>zEffect := effect\<rparr> else ch);
         ch = (if ax = Spread then ch\<lparr>spreadEffect := effect\<rparr> else ch)
     in resetUnmappedEffects t ch)"

subsection \<open>Generators\<close>

text \<open>
  Each generator builds its voice and connects it to \<^verbatim>\<open>getInputNode(time)\<close>, the input
  gain; \<^verbatim>\<open>playDistorted808\<close> connects its voice to \<^verbatim>\<open>masterOutput\<close> instead.
\<close>

definition getInputNode :: "jsnum \<Rightarrow> node" where
  "getInputNode time = InputGain"

definition playKick :: "jsnum \<Rightarrow> LoopChannel \<Rightarrow> LoopChannel" where
  "playKick time ch = ch\<lparr>voices := voices ch @ [\<lparr>gen = Kick, vtime = time, dest = getInputNode time\<rparr>]\<rparr>"

definition playSnare :: "jsnum \<Rightarrow> LoopChannel \<Rightarrow> LoopChannel" where
  "playSnare time ch = ch\<lparr>voices := voices ch @ [\<lparr>gen = Snare, vtime = time, dest = getInputNode time\<rparr>]\<rparr>"

definition playHiHat :: "jsnum \<Rightarrow> LoopChannel \<Rightarrow> LoopChannel" where
  "playHiHat time ch = ch\<lparr>voices := voices ch @ [\<lparr>gen = HiHat, vtime = time, dest = getInputNode time\<rparr>]\<rparr>"

definition playSynthTone :: "jsnum \<Rightarrow> jsnum \<Rightarrow> LoopChannel \<Rightarrow> LoopChannel" where
  "playSynthTone time freq ch =
     ch\<lparr>voices := voices ch @ [\<lparr>gen = SynthTone freq, vtime = time, dest = getInputNode time\<rparr>]\<rparr>"

definition playAmbientPad :: "jsnum \<Rightarrow> jsnum \<Rightarrow> LoopChannel \<Rightarrow> LoopChannel" where
  "playAmbientPad time freq ch =
     ch\<lparr>voices := voices ch @ [\<lparr>gen = AmbientPad freq, vtime = time, dest = getInputNode time\<rparr>]\<rparr>"

definition playPerc :: "jsnum \<Rightarrow> LoopChannel \<Rightarrow> LoopChannel" where
  "playPerc time ch = ch\<lparr>voices := voices ch @ [\<lparr>gen = Perc, vtime = time, dest = getInputNode time\<rparr>]\<rparr>"

definition playDistorted808 :: "jsnum \<Rightarrow> jsnum \<Rightarrow> LoopChannel \<Rightarrow> LoopChannel" where
  "playDistorted808 time freq ch =
     ch\<lparr>voices := voices ch @ [\<lparr>gen = Distorted808 freq, vtime = time, dest = MasterOutput\<rparr>]\<rparr>"

subsection \<open>Sequencer\<close>

text \<open>
  What the sequencer uses of the platform: the draws \<^verbatim>\<open>Math.random()\<close> will return, each
  in \<open>[0, 1)\<close>, and the timeouts of \<^verbatim>\<open>window\<close>: the last handle handed out and the
  pending timeouts, each with its delay in milliseconds.
\<close>

record window =
  random :: "real stream"
  lastHandle :: nat
  pending :: "(nat \<times> nat) list"

definition setTimeout :: "nat \<Rightarrow> window \<Rightarrow> nat \<times> window" where
  "setTimeout delay w =
    (let h = Suc (lastHandle w) in (h, w\<lparr>lastHandle := h, pending := pending w @ [(h, delay)]\<rparr>))"

definition clearTimeout :: "nat \<Rightarrow> window \<Rightarrow> window" where
  "clearTimeout h w = w\<lparr>pending := filter (\<lambda>p. fst p \<noteq> h) (pending w)\<rparr>"

definition startsWith :: "string \<Rightarrow> string \<Rightarrow> bool" where
  "startsWith s p = (take (length p) s = p)"

text \<open>
  \<^verbatim>\<open>schedule(beat, time)\<close>. The step counter is a natural number: it starts at 0 and is
  only incremented. In the \<^verbatim>\<open>synth_neon\<close> branch \<^verbatim>\<open>step / 2\<close> is taken at even steps
  only, where it is the integer quotient.
\<close>

definition schedule :: "nat \<Rightarrow> jsnum \<Rightarrow> LoopChannel \<times> window \<Rightarrow> LoopChannel \<times> window" where
  "schedule beat time s =
    (let (ch, w) = s in
     if isDogMode ch then
       (let step = beat mod 16;
            ch = (if step = 0 then playDistorted808 time 45 ch else ch);
            ch = (if step = 3 then playDistorted808 time 45 ch else ch);
            ch = (if step = 7 then playDistorted808 time 45 ch else ch);
            ch = (if step = 10 then playDistorted808 time 55 ch else ch);
            ch = (if step = 12 then playDistorted808 time 35 ch else ch);
            ch = (if step = 14 then playDistorted808 time 35 ch else ch)
        in (ch, w))
     else case currentLoop ch of
       None \<Rightarrow> (ch, w)
     | Some loop \<Rightarrow>
       (let id = loop_id loop; step = beat mod 16 in
        if id = ''drum_house'' then
          (let ch = (if step mod 4 = 0 then playKick time ch else ch);
               ch = (if step mod 8 = 4 then playSnare time ch else ch);
               ch = (if step mod 2 \<noteq> 0 then playHiHat time ch else ch)
           in (ch, w))
        else if id = ''drum_break'' then
          (let ch = (if step = 0 \<or> step = 10 then playKick time ch else ch);
               ch = (if step = 4 \<or> step = 12 then playSnare time ch else ch);
               ch = (if step mod 2 = 0 then playHiHat time ch else ch)
           in (ch, w))
        else if id = ''synth_neon'' then
          (let notes = [220, 330, 440, 660]
           in if step mod 2 = 0 then (playSynthTone time (notes ! ((step div 2) mod 4)) ch, w)
              else (ch, w))
        else if id = ''synth_bass'' then
          (let ch = (if step = 0 \<or> step = 8 then playSynthTone time 55 ch else ch);
               ch = (if step = 3 \<or> step = 11 then playSynthTone time 110 ch else ch)
           in (ch, w))
        else if startsWith id ''amb'' then
          (if step = 0 then (playAmbientPad time (if id = ''amb_space'' then 110 else 164.8) ch, w)
           else (ch, w))
        else if startsWith id ''perc'' then
          (let r = shd (random w); w = w\<lparr>random := stl (random w)\<rparr>
           in if 0.5 < r then (playPerc time ch, w) else (ch, w))
        else (ch, w)))"

text \<open>
  \<^verbatim>\<open>nextNote()\<close>, in the arithmetic of doubles; \<^verbatim>\<open>60.0\<close> and \<^verbatim>\<open>0.25\<close> are doubles.
\<close>

definition nextNote :: "LoopChannel \<Rightarrow> LoopChannel" where
  "nextNote ch =
    (let secondsPerBeat = div64 60 (bpm ch);
         secondsPer16th = mul64 secondsPerBeat 0.25
     in ch\<lparr>nextNoteTime := add64 (nextNoteTime ch) secondsPer16th,
           currentStep := currentStep ch + 1\<rparr>)"

text \<open>
  The body of the \<^verbatim>\<open>while\<close> loop of \<^verbatim>\<open>scheduler()\<close>, and the loop itself; \<open>now\<close> is
  \<^verbatim>\<open>ctx.currentTime\<close> during the call. The loop need not end, so its result is optional:
  \<open>None\<close> is a call that never returns.
\<close>

definition scheduler_body :: "LoopChannel \<times> window \<Rightarrow> LoopChannel \<times> window" where
  "scheduler_body s =
    (let (ch, w) = schedule (currentStep (fst s)) (nextNoteTime (fst s)) s in (nextNote ch, w))"

partial_function (option) scheduler_loop ::
  "jsnum \<Rightarrow> LoopChannel \<times> window \<Rightarrow> (LoopChannel \<times> window) option" where
  "scheduler_loop now s =
    (if nextNoteTime (fst s) < add64 now (round64 0.1) then scheduler_loop now (scheduler_body s)
     else Some s)"

definition scheduler :: "jsnum \<Rightarrow> LoopChannel \<times> window \<Rightarrow> (LoopChannel \<times> window) option" where
  "scheduler now s =
    (case scheduler_loop now s of
       None \<Rightarrow> None
     | Some (ch, w) \<Rightarrow>
         if isPlaying ch
         then (let (h, w) = setTimeout 25 w in Some (ch\<lparr>timerID := Some h\<rparr>, w))
         else Some (ch, w))"

definition start :: "jsnum \<Rightarrow> LoopChannel \<times> window \<Rightarrow> (LoopChannel \<times> window) option" where
  "start now s =
    (let (ch, w) = s in
     if isPlaying ch then Some (ch, w)
     else scheduler now
            (ch\<lparr>isPlaying := True, nextNoteTime := add64 now (round64 0.1), currentStep := 0\<rparr>, w))"

text \<open>A handle is truthy when it is not 0.\<close>

definition stop :: "LoopChannel \<times> window \<Rightarrow> LoopChannel \<times> window" where
  "stop s =
    (let (ch, w) = s; ch = ch\<lparr>isPlaying := False\<rparr>
     in case timerID ch of
          Some h \<Rightarrow> if h \<noteq> 0 then (ch, clearTimeout h w) else (ch, w)
        | None \<Rightarrow> (ch, w))"

text \<open>\<^verbatim>\<open>setLoop(loopId)\<close>: \<open>None\<close> is \<^verbatim>\<open>null\<close>; the empty string is falsy as well.\<close>

definition setLoop ::
  "string option \<Rightarrow> jsnum \<Rightarrow> LoopChannel \<times> window \<Rightarrow> (LoopChannel \<times> window) option" where
  "setLoop loopId now s =
    (let (ch, w) = s in
     case loopId of
       None \<Rightarrow> Some (ch\<lparr>currentLoop := None\<rparr>, w)
     | Some lid \<Rightarrow>
         if lid = [] then Some (ch\<lparr>currentLoop := None\<rparr>, w)
         else
           (let ch = ch\<lparr>currentLoop := find (\<lambda>l. loop_id l = lid) AVAILABLE_LOOPS\<rparr>
            in if \<not> isPlaying ch \<and> currentLoop ch \<noteq> None then start now (ch, w)
               else Some (ch, w)))"

text \<open>
  The platform's side of \<^verbatim>\<open>setTimeout\<close>: a pending timeout runs its callback, the
  channel's \<^verbatim>\<open>scheduler\<close>, once; a handle that is not pending runs nothing.
\<close>

definition timeout_fires ::
  "nat \<Rightarrow> jsnum \<Rightarrow> LoopChannel \<times> window \<Rightarrow> (LoopChannel \<times> window) option" where
  "timeout_fires h now s =
    (let (ch, w) = s in
     if h \<in> fst ` set (pending w) then scheduler now (ch, clearTimeout h w) else Some (ch, w))"

section \<open>SynthEngine\<close>

datatype hand = left | right

record SynthEngine =
  leftChannel :: LoopChannel
  rightChannel :: LoopChannel
  engine_isDogMode :: bool

definition new_SynthEngine :: SynthEngine where
  "new_SynthEngine =
    \<lparr>leftChannel = new_LoopChannel, rightChannel = new_LoopChannel, engine_isDogMode = False\<rparr>"

definition setBpm :: "jsnum \<Rightarrow> SynthEngine \<Rightarrow> SynthEngine" where
  "setBpm b eng =
    eng\<lparr>leftChannel := (leftChannel eng)\<lparr>bpm := b\<rparr>, rightChannel := (rightChannel eng)\<lparr>bpm := b\<rparr>\<rparr>"

definition updateHand ::
  "hand \<Rightarrow> jsnum \<Rightarrow> jsnum \<Rightarrow> jsnum \<Rightarrow> jsnum \<Rightarrow> jsnum \<Rightarrow> bool \<Rightarrow> jsnum \<Rightarrow> SynthEngine \<Rightarrow> SynthEngine" where
  "updateHand h x y spread z rotation isRotActive t eng =
    (if h = left
     then eng\<lparr>leftChannel := update x y spread z rotation isRotActive t (leftChannel eng)\<rparr>
     else eng\<lparr>rightChannel := update x y spread z rotation isRotActive t (rightChannel eng)\<rparr>)"

definition updateMapping :: "hand \<Rightarrow> axis \<Rightarrow> EffectType \<Rightarrow> jsnum \<Rightarrow> SynthEngine \<Rightarrow> SynthEngine" where
  "updateMapping h ax effect t eng =
    (if h = left
     then eng\<lparr>leftChannel := setMapping ax effect t (leftChannel eng)\<rparr>
     else eng\<lparr>rightChannel := setMapping ax effect t (rightChannel eng)\<rparr>)"

definition setDogMode :: "bool \<Rightarrow> jsnum \<Rightarrow> SynthEngine \<Rightarrow> SynthEngine" where
  "setDogMode active t eng =
    (if engine_isDogMode eng = active then eng
     else
       (let eng = eng\<lparr>engine_isDogMode := active,
                      leftChannel := (leftChannel eng)\<lparr>isDogMode := active\<rparr>,
                      rightChannel := (rightChannel eng)\<lparr>isDogMode := active\<rparr>\<rparr>
        in if active
           then eng\<lparr>leftChannel := setPresence True t (leftChannel eng),
                    rightChannel := setPresence True t (rightChannel eng)\<rparr>
           else eng))"

section \<open>App.tsx and DJDeck\<close>

text \<open>
  Of the component's state, the engine reference, the tempo and the two rotation switches.
\<close>

record App =
  synthRef :: "SynthEngine option"
  appState_bpm :: jsnum
  leftHand_isRotationActive :: bool
  rightHand_isRotationActive :: bool

definition handleBpmChange :: "jsnum \<Rightarrow> App \<Rightarrow> App" where
  "handleBpmChange newBpm app =
    (let clamped = Math_max 40 (Math_min 300 newBpm)
     in app\<lparr>synthRef := map_option (setBpm clamped) (synthRef app), appState_bpm := clamped\<rparr>)"

text \<open>
  The tempo field of the deck calls \<^verbatim>\<open>onBpmChange(parseInt(e.target.value) || 128)\<close>;
  \<open>parsed\<close> is what \<^verbatim>\<open>parseInt\<close> returned. Of the numbers, 0 and \<^verbatim>\<open>NaN\<close> are falsy.
\<close>

definition bpm_onChange :: "jsnum \<Rightarrow> App \<Rightarrow> App" where
  "bpm_onChange parsed app = handleBpmChange (if parsed = 0 \<or> parsed = NaN then 128 else parsed) app"

subsection \<open>Hand metrics\<close>

text \<open>
  A landmark of the detector carries finite image coordinates, so they are reals, and so
  is every quantity that is finite whenever they are; \<^verbatim>\<open>avgDist / handScale\<close> is the
  JavaScript division, whose divisor can be 0. \<^verbatim>\<open>Math.atan2\<close> is the platform's, given
  here on finite arguments.
\<close>

record landmark =
  lx :: real
  ly :: real

datatype error = TypeError

record metrics =
  m_spread :: jsnum
  m_z :: jsnum
  m_rotation :: jsnum

definition Math_atan2 :: "real \<Rightarrow> real \<Rightarrow> real" where
  "Math_atan2 y x =
    (if 0 < x then arctan (y / x)
     else if x < 0 then (if 0 \<le> y then arctan (y / x) + pi else arctan (y / x) - pi)
     else if 0 < y then pi / 2 else if y < 0 then - (pi / 2) else 0)"

text \<open>
  Reading a landmark the array does not hold gives \<^verbatim>\<open>undefined\<close>, and reading \<^verbatim>\<open>.x\<close> of
  it throws; the indices read are 0, 9, 4, 8, 12, 16 and 20.
\<close>

definition calculateHandMetrics :: "landmark list \<Rightarrow> bool \<Rightarrow> error + metrics" where
  "calculateHandMetrics landmarks isRightHand =
    (if length landmarks < 21 then Inl TypeError
     else
       (let wrist = landmarks ! 0;
            middleMCP = landmarks ! 9;
            dx = lx wrist - lx middleMCP;
            dy = ly wrist - ly middleMCP;
            handScale = sqrt (dx * dx + dy * dy);
            fingertips = [4, 8, 12, 16, 20];
            totalDist = foldl (\<lambda>totalDist idx.
                let tip = landmarks ! idx;
                    tdx = lx tip - lx wrist;
                    tdy = ly tip - ly wrist
                in totalDist + sqrt (tdx * tdx + tdy * tdy)) 0 fingertips;
            avgDist = totalDist / 5;
            ratio = Fin avgDist / Fin handScale;
            minRatio = 0.8;
            maxRatio = 1.7;
            spread = Math_max 0 (Math_min 1 ((ratio - minRatio) / (maxRatio - minRatio)));
            minScale = 0.05;
            maxScale = 0.3;
            z = max 0 (min 1 ((handScale - minScale) / (maxScale - minScale)));
            rad = Math_atan2 (ly middleMCP - ly wrist) (lx middleMCP - lx wrist);
            deg = rad * (180 / pi);
            rotation = (if isRightHand then - (deg + 90) / 90 else (deg + 90) / 90);
            rotation = max (- 1) (min 1 rotation)
        in Inr \<lparr>m_spread = spread, m_z = Fin z, m_rotation = Fin rotation\<rparr>))"

text \<open>
  The body of the loop over the detected hands in \<^verbatim>\<open>predictWebcam\<close>: the control values
  of one hand, and the call of \<^verbatim>\<open>updateHand\<close> with them when the engine exists.
\<close>

datatype label = Left | Right

record control =
  c_x :: jsnum
  c_y :: jsnum
  c_spread :: jsnum
  c_z :: jsnum
  c_rotation :: jsnum

definition controlValues :: "landmark list \<Rightarrow> bool \<Rightarrow> error + control" where
  "controlValues landmarks isRightHand =
    (if length landmarks \<le> 8 then Inl TypeError
     else
       (let indexTip = landmarks ! 8;
            x = max 0 (min 1 (lx indexTip));
            y = max 0 (min 1 (1 - ly indexTip))
        in case calculateHandMetrics landmarks isRightHand of
             Inl e \<Rightarrow> Inl e
           | Inr m \<Rightarrow> Inr \<lparr>c_x = Fin x, c_y = Fin y, c_spread = m_spread m, c_z = m_z m,
                            c_rotation = m_rotation m\<rparr>))"

definition predictWebcam_hand :: "landmark list \<Rightarrow> label \<Rightarrow> jsnum \<Rightarrow> App \<Rightarrow> error + App" where
  "predictWebcam_hand landmarks lab t app =
    (let isRightHand = (lab = Right) in
     case controlValues landmarks isRightHand of
       Inl e \<Rightarrow> Inl e
     | Inr c \<Rightarrow>
         (case synthRef app of
            None \<Rightarrow> Inr app
          | Some eng \<Rightarrow>
              (let isActive = (if isRightHand then rightHand_isRotationActive app
                               else leftHand_isRotationActive app)
               in Inr (app\<lparr>synthRef := Some (updateHand (if lab = Left then left else right)
                         (c_x c) (c_y c) (c_spread c) (c_z c) (c_rotation c) isActive t eng)\<rparr>))))"

section \<open>The specification's terms\<close>

text \<open>\<open>clamp(v, lo, hi)\<close> of the specification.\<close>

definition clamp :: "jsnum \<Rightarrow> jsnum \<Rightarrow> jsnum \<Rightarrow> jsnum" where
  "clamp v lo hi = (if v < lo then lo else if hi < v then hi else v)"

text \<open>The effect types the four axes of a channel refer to.\<close>

definition mapped :: "LoopChannel \<Rightarrow> EffectType set" where
  "mapped ch = {xEffect ch, yEffect ch, zEffect ch, spreadEffect ch}"

text \<open>
  The trigger rules of the specification's table, as the generators fired at a step of
  the bar, for the loops whose rule has no random part; and the override pattern, as
  the frequencies of the low-tone voices fired at a step.
\<close>

definition spec_pattern :: "string \<Rightarrow> nat \<Rightarrow> generator list" where
  "spec_pattern loopId step =
    (if loopId = ''drum_house'' then
       (if step mod 4 = 0 then [Kick] else []) @ (if step mod 8 = 4 then [Snare] else [])
       @ (if odd step then [HiHat] else [])
     else if loopId = ''drum_break'' then
       (if step \<in> {0, 10} then [Kick] else []) @ (if step \<in> {4, 12} then [Snare] else [])
       @ (if even step then [HiHat] else [])
     else if loopId = ''synth_neon'' then
       (if even step then [SynthTone ([220, 330, 440, 660] ! ((step div 2) mod 4))] else [])
     else if loopId = ''synth_bass'' then
       (if step \<in> {0, 8} then [SynthTone 55] else []) @ (if step \<in> {3, 11} then [SynthTone 110] else [])
     else if loopId = ''amb_space'' then (if step = 0 then [AmbientPad 110] else [])
     else if loopId = ''amb_pads'' then (if step = 0 then [AmbientPad 164.8] else [])
     else [])"

definition spec_override :: "nat \<Rightarrow> jsnum list" where
  "spec_override step =
    (if step \<in> {0, 3, 7} then [45] else if step = 10 then [55]
     else if step \<in> {12, 14} then [35] else [])"

text \<open>
  At most one wake is pending, the one the channel holds the handle of, and only while
  the channel is playing.
\<close>

definition wake_inv :: "LoopChannel \<times> window \<Rightarrow> bool" where
  "wake_inv s =
    (let (ch, w) = s in
     distinct (map fst (pending w))
     \<and> (\<forall>h \<in> fst ` set (pending w). timerID ch = Some h \<and> h \<noteq> 0 \<and> isPlaying ch))"

text \<open>
  The gesture mapping in the specification's words: the distance of two landmarks, the
  hand scale from the wrist (landmark 0) to the base of the middle finger (landmark 9),
  the mean distance of the five fingertips (landmarks 4, 8, 12, 16, 20) from the wrist
  over the hand scale, the angle of the vector from the wrist to the base of the middle
  finger in degrees, and the five control values.
\<close>

definition spec_distance :: "landmark \<Rightarrow> landmark \<Rightarrow> real" where
  "spec_distance p q = sqrt ((lx p - lx q)\<^sup>2 + (ly p - ly q)\<^sup>2)"

definition spec_handScale :: "landmark list \<Rightarrow> real" where
  "spec_handScale lms = spec_distance (lms ! 0) (lms ! 9)"

definition spec_meanTipDistance :: "landmark list \<Rightarrow> real" where
  "spec_meanTipDistance lms =
     (\<Sum>i\<leftarrow>[4, 8, 12, 16, 20]. spec_distance (lms ! i) (lms ! 0)) / 5"

definition spec_spreadRatio :: "landmark list \<Rightarrow> jsnum" where
  "spec_spreadRatio lms = Fin (spec_meanTipDistance lms) / Fin (spec_handScale lms)"

definition spec_angleDeg :: "landmark list \<Rightarrow> real" where
  "spec_angleDeg lms =
     Math_atan2 (ly (lms ! 9) - ly (lms ! 0)) (lx (lms ! 9) - lx (lms ! 0)) * 180 / pi"

definition spec_rotation :: "bool \<Rightarrow> real \<Rightarrow> jsnum" where
  "spec_rotation isRightHand angleDeg =
     (if isRightHand then clamp (Fin (- (angleDeg + 90) / 90)) (- 1) 1
      else clamp (Fin ((angleDeg + 90) / 90)) (- 1) 1)"

definition spec_control :: "landmark list \<Rightarrow> bool \<Rightarrow> control" where
  "spec_control lms isRightHand =
     \<lparr>c_x = clamp (Fin (lx (lms ! 8))) 0 1,
      c_y = clamp (Fin (1 - ly (lms ! 8))) 0 1,
      c_spread = clamp ((spec_spreadRatio lms - 0.8) / (1.7 - 0.8)) 0 1,
      c_z = clamp (Fin ((spec_handScale lms - 0.05) / (0.3 - 0.05))) 0 1,
      c_rotation = spec_rotation isRightHand (spec_angleDeg lms)\<rparr>"

section \<open>Facts about the numbers\<close>

lemma numeral_jsnum: "(numeral n :: jsnum) = Fin (numeral n)"
proof (induction n)
  case One
  show ?case by (simp add: one_jsnum_def)
next
  case (Bit0 n)
  have "(numeral (num.Bit0 n) :: jsnum) = numeral n + numeral n"
    by (rule numeral_Bit0)
  also have "\<dots> = Fin (numeral n + numeral n)"
    by (simp add: Bit0.IH)
  also have "\<dots> = Fin (numeral (num.Bit0 n))"
    by (simp only: numeral_Bit0)
  finally show ?case .
next
  case (Bit1 n)
  have "(numeral (num.Bit1 n) :: jsnum) = numeral n + numeral n + 1"
    by (rule numeral_Bit1)
  also have "\<dots> = Fin (numeral n + numeral n + 1)"
    by (simp add: Bit1.IH one_jsnum_def)
  also have "\<dots> = Fin (numeral (num.Bit1 n))"
    by (simp only: numeral_Bit1)
  finally show ?case .
qed

lemma Fin_power: "Fin a ^ n = Fin (a ^ n)"
  by (induction n) (simp_all add: one_jsnum_def)

lemmas js = numeral_jsnum zero_jsnum_def one_jsnum_def minus_jsnum_def
  Math_max_def Math_min_def Math_pow_def Fin_power

subsection \<open>Rounding to a double\<close>

lemma round_half_even_error: "\<bar>of_int (round_half_even x) - x\<bar> \<le> 1 / 2"
  unfolding round_half_even_def Let_def by (auto; linarith)

lemma bitlen_eqI:
  assumes "2 ^ n \<le> a" "a < 2 ^ Suc n"
  shows "bitlen a = int n + 1"
proof -
  have "bitlen a \<le> int (Suc n)"
    using assms(2) by (simp add: bitlen_le_iff_power nat_add_distrib)
  moreover have "int (Suc n) \<le> bitlen a"
    using assms(1) by (simp add: bitlen_ge_iff_power nat_add_distrib)
  ultimately show ?thesis by simp
qed

lemma floor_bitlen:
  fixes s :: real
  assumes "2 ^ n \<le> \<bar>s\<bar>" "\<bar>s\<bar> < 2 ^ Suc n"
  shows "bitlen \<lfloor>\<bar>s\<bar>\<rfloor> = int n + 1"
proof (rule bitlen_eqI)
  have "of_int (2 ^ n) \<le> \<bar>s\<bar>"
    using assms(1) by simp
  then show "2 ^ n \<le> \<lfloor>\<bar>s\<bar>\<rfloor>"
    by (simp only: le_floor_iff)
  have "of_int \<lfloor>\<bar>s\<bar>\<rfloor> \<le> \<bar>s\<bar>"
    by (rule of_int_floor_le)
  also have "\<dots> < of_int (2 ^ Suc n)"
    using assms(2) by simp
  finally show "\<lfloor>\<bar>s\<bar>\<rfloor> < 2 ^ Suc n"
    by (simp only: of_int_less_iff)
qed

text \<open>
  The double of a real whose binade is known: scaled by \<open>2 ^ j\<close> into
  \<open>[2 ^ 52, 2 ^ 53)\<close>, it is rounded to an integer there.
\<close>

lemma binary64_eval:
  assumes "2 ^ 52 \<le> \<bar>r\<bar> * 2 ^ j" "\<bar>r\<bar> * 2 ^ j < 2 ^ 53" "j \<le> 1074"
  shows "binary64 r = Fin (of_int (round_half_even (r * 2 ^ j)) / 2 ^ j)"
proof -
  define P :: real where "P = 2 ^ 1074"
  define i where "i = 1074 - j"
  define u where "u = r * 2 ^ j"
  define s where "s = r * P"
  define m where "m = round_half_even u"
  have p: "P = 2 ^ j * 2 ^ i"
    unfolding i_def P_def using assms(3) by (simp flip: power_add)
  have su: "s = u * 2 ^ i"
    unfolding s_def u_def p by simp
  have "(2 :: real) ^ (52 + i) \<le> \<bar>s\<bar>"
    using assms(1) unfolding su u_def power_add abs_mult by (simp add: mult_right_mono)
  moreover have "\<bar>s\<bar> < 2 ^ Suc (52 + i)"
    using assms(2) unfolding su u_def abs_mult by (simp add: power_add)
  ultimately have "bitlen \<lfloor>\<bar>s\<bar>\<rfloor> = int (52 + i) + 1"
    by (rule floor_bitlen)
  then have k: "nat (bitlen \<lfloor>\<bar>s\<bar>\<rfloor> - 53) = i"
    by simp
  have q: "s / 2 ^ i = u"
    unfolding su by simp
  have y: "of_int m * 2 ^ i / P = of_int m / (2 :: real) ^ j"
    unfolding p by simp
  have "\<bar>of_int m - u\<bar> \<le> 1 / 2"
    unfolding m_def by (rule round_half_even_error)
  then have "\<bar>real_of_int m\<bar> \<le> \<bar>u\<bar> + 1 / 2"
    by linarith
  also have "\<dots> < 2 ^ 53 + 1 / 2"
    using assms(2) unfolding u_def abs_mult by simp
  finally have "\<bar>real_of_int m\<bar> < 2 ^ 54"
    by simp
  moreover have "\<bar>real_of_int m / 2 ^ j\<bar> \<le> \<bar>real_of_int m\<bar>"
  proof -
    have "(1 :: real) \<le> 2 ^ j"
      by simp
    then have "\<bar>real_of_int m\<bar> * 1 \<le> \<bar>real_of_int m\<bar> * 2 ^ j"
      by (intro mult_left_mono) simp_all
    then show ?thesis
      by (simp add: field_simps)
  qed
  ultimately have "\<bar>real_of_int m / 2 ^ j\<bar> < 2 ^ 54"
    by linarith
  also have "\<dots> \<le> (2 :: real) ^ 1024"
    by (rule power_increasing) simp_all
  finally have o: "\<not> (2 :: real) ^ 1024 \<le> \<bar>real_of_int m / 2 ^ j\<bar>"
    by simp
  have "binary64 r = Fin (of_int m / 2 ^ j)"
    unfolding binary64_def Let_def P_def [symmetric] s_def [symmetric] k q m_def [symmetric] y
    using o by (simp only: if_False)
  then show ?thesis
    unfolding m_def u_def .
qed

text \<open>
  A real in the range of the normal doubles is rounded to a finite double, with a
  relative error of at most \<open>1 / 2 ^ 53\<close>.
\<close>

lemma binary64_error:
  assumes "1 / 2 ^ 1022 \<le> \<bar>r\<bar>" "\<bar>r\<bar> \<le> 2 ^ 1023"
  shows "\<exists>y. binary64 r = Fin y \<and> \<bar>y - r\<bar> \<le> \<bar>r\<bar> / 2 ^ 53"
proof -
  define P :: real where "P = 2 ^ 1074"
  define s where "s = r * P"
  define a where "a = \<lfloor>\<bar>s\<bar>\<rfloor>"
  define k where "k = nat (bitlen a - 53)"
  define m where "m = round_half_even (s / 2 ^ k)"
  define y where "y = real_of_int m * 2 ^ k / P"
  have P: "0 < P"
    unfolding P_def by simp
  have r: "r = s / P"
    unfolding s_def using P by simp
  have "(2 :: real) ^ 52 = 1 / 2 ^ 1022 * P"
    unfolding P_def by simp
  also have "\<dots> \<le> \<bar>r\<bar> * P"
    using assms(1) P by (intro mult_right_mono) simp_all
  finally have s52: "2 ^ 52 \<le> \<bar>s\<bar>"
    unfolding s_def abs_mult using P by simp
  then have "of_int (2 ^ 52) \<le> \<bar>s\<bar>"
    by simp
  then have a52: "2 ^ 52 \<le> a"
    unfolding a_def by (simp only: le_floor_iff)
  then have a0: "0 < a"
    by (rule less_le_trans [rotated]) simp
  have "53 \<le> bitlen a"
    using a52 by (simp add: bitlen_ge_iff_power)
  then have b: "nat (bitlen a - 1) = k + 52" "nat (bitlen a) = Suc (k + 52)"
    unfolding k_def by simp_all
  from bitlen_bounds [OF a0] have lo: "2 ^ (k + 52) \<le> a"
    unfolding b by simp
  have "real_of_int (2 ^ (k + 52)) \<le> of_int a"
    using lo by (simp only: of_int_le_iff)
  also have "\<dots> \<le> \<bar>s\<bar>"
    unfolding a_def by (rule of_int_floor_le)
  finally have slo: "2 ^ (k + 52) \<le> \<bar>s\<bar>"
    by simp
  have e: "\<bar>of_int m - s / 2 ^ k\<bar> \<le> 1 / 2"
    unfolding m_def by (rule round_half_even_error)
  have "(of_int m - s / 2 ^ k) * (2 ^ k / P) = of_int m * (2 ^ k / P) - s / 2 ^ k * (2 ^ k / P)"
    by (rule left_diff_distrib)
  then have "y - r = (of_int m - s / 2 ^ k) * (2 ^ k / P)"
    unfolding y_def r by simp
  then have "\<bar>y - r\<bar> = \<bar>of_int m - s / 2 ^ k\<bar> * (2 ^ k / P)"
    using P by (simp add: abs_mult)
  also have "\<dots> \<le> 1 / 2 * (2 ^ k / P)"
    using e P by (intro mult_right_mono) simp_all
  also have "\<dots> = 2 ^ (k + 52) / P / 2 ^ 53"
    by (simp add: power_add)
  also have "\<dots> \<le> \<bar>s\<bar> / P / 2 ^ 53"
    using slo P by (intro divide_right_mono) simp_all
  also have "\<dots> = \<bar>r\<bar> / 2 ^ 53"
    unfolding r using P by simp
  finally have err: "\<bar>y - r\<bar> \<le> \<bar>r\<bar> / 2 ^ 53" .
  then have "\<bar>y\<bar> \<le> \<bar>r\<bar> + \<bar>r\<bar> / 2 ^ 53"
    by linarith
  also have "\<dots> \<le> 2 ^ 1023 + 2 ^ 1023 / 2 ^ 53"
    using assms(2) by (intro add_mono divide_right_mono) simp_all
  also have "\<dots> < 2 ^ 1024"
    by simp
  finally have o: "\<not> 2 ^ 1024 \<le> \<bar>y\<bar>"
    by simp
  have "binary64 r = Fin y"
    unfolding binary64_def Let_def P_def [symmetric] s_def [symmetric] a_def [symmetric]
      k_def [symmetric] m_def [symmetric] y_def [symmetric]
    using o by (simp only: if_False)
  with err show ?thesis
    by blast
qed

lemma Math_clamp: "Math_max 0 (Math_min 1 v) = clamp v 0 1"
  by (cases v) (simp_all add: js clamp_def)

lemma clamp_range: "v \<noteq> NaN \<Longrightarrow> 0 \<le> clamp v 0 1 \<and> clamp v 0 1 \<le> 1"
  by (cases v) (simp_all add: js clamp_def)

lemma clamp_Fin: "clamp (Fin r) 0 1 = Fin (max 0 (min 1 r))"
  by (simp add: js clamp_def)

lemma setTargetAtTime_automation [simp]:
  "automation (setTargetAtTime v t c p) = Some \<lparr>target = v, startTime = t, timeConstant = c\<rparr>"
  by (simp add: setTargetAtTime_def)

lemma setTargetAtTime_pvalue [simp]: "pvalue (setTargetAtTime v t c p) = pvalue p"
  by (simp add: setTargetAtTime_def)

section \<open>Effects of the mapped axes\<close>

lemma applyEffect_VOLUME:
  "applyEffect VOLUME v m t ch =
     ch\<lparr>gainNode := setTargetAtTime (if m then 0 else clamp v 0 1) t 0.1 (gainNode ch)\<rparr>"
  by (simp add: applyEffect_def Math_clamp Let_def)

lemma applyEffect_LPF:
  "applyEffect LPF v m t ch =
     ch\<lparr>filterNode := (filterNode ch)\<lparr>ftype := lowpass,
        frequency := setTargetAtTime (100 + Math_pow (clamp v 0 1) 2 * 19900) t 0.1
                       (frequency (filterNode ch)),
        Q := (Q (filterNode ch))\<lparr>pvalue := 1\<rparr>\<rparr>\<rparr>"
  by (simp add: applyEffect_def Math_clamp Let_def)

lemma applyEffect_HPF:
  "applyEffect HPF v m t ch =
     ch\<lparr>filterNode := (filterNode ch)\<lparr>ftype := highpass,
        frequency := setTargetAtTime (clamp v 0 1 * 10000) t 0.1 (frequency (filterNode ch)),
        Q := (Q (filterNode ch))\<lparr>pvalue := 1\<rparr>\<rparr>\<rparr>"
  by (simp add: applyEffect_def Math_clamp Let_def)

lemma applyEffect_REVERB:
  "applyEffect REVERB v m t ch =
     ch\<lparr>reverbGain := setTargetAtTime (clamp v 0 1 * 2) t 0.1 (reverbGain ch)\<rparr>"
  by (simp add: applyEffect_def Math_clamp Let_def)

lemma applyEffect_DELAY:
  "applyEffect DELAY v m t ch =
     ch\<lparr>delayFeedback := setTargetAtTime (clamp v 0 1 * 0.8) t 0.1 (delayFeedback ch)\<rparr>"
  by (simp add: applyEffect_def Math_clamp Let_def)

lemma applyEffect_FLANGER:
  "applyEffect FLANGER v m t ch =
     ch\<lparr>flangerWet := setTargetAtTime (clamp v 0 1) t 0.1 (flangerWet ch)\<rparr>"
  by (simp add: applyEffect_def Math_clamp Let_def)

lemma applyEffect_NONE: "applyEffect NONE v m t ch = ch"
  by (simp add: applyEffect_def Let_def)

lemmas applyEffect_cases = applyEffect_VOLUME applyEffect_LPF applyEffect_HPF
  applyEffect_REVERB applyEffect_DELAY applyEffect_FLANGER applyEffect_NONE

lemma applyEffect_mapping [simp]:
  "xEffect (applyEffect e v m t ch) = xEffect ch"
  "yEffect (applyEffect e v m t ch) = yEffect ch"
  "zEffect (applyEffect e v m t ch) = zEffect ch"
  "spreadEffect (applyEffect e v m t ch) = spreadEffect ch"
  by (cases e; simp add: applyEffect_cases)+

lemma applyEffect_gainNode:
  "gainNode (applyEffect e v m t ch) =
     (if e = VOLUME then setTargetAtTime (if m then 0 else clamp v 0 1) t 0.1 (gainNode ch)
      else gainNode ch)"
  by (cases e; simp add: applyEffect_cases)

lemma applyEffect_rotationFilterNode [simp]:
  "rotationFilterNode (applyEffect e v m t ch) = rotationFilterNode ch"
  by (cases e; simp add: applyEffect_cases)

lemma update_gainNode_fist:
  assumes "spread < 0.15"
    and "VOLUME \<in> {xEffect ch, yEffect ch, zEffect ch, spreadEffect ch}"
  shows "automation (gainNode (update x y spread z rotation isRotActive t ch))
         = Some \<lparr>target = 0, startTime = t, timeConstant = 0.1\<rparr>"
  using assms by (auto simp add: update_def Let_def applyEffect_gainNode)

text \<open>
  The writes of \<^verbatim>\<open>applyEffect\<close>: it clamps the value to \<open>[0, 1]\<close> and issues one
  smoothed write with time constant 0.1 on the parameter of the effect, leaving the rest
  of the channel as it is: VOLUME writes 0 when muted and the clamped value \<open>v\<close> otherwise to the
  gain; LPF makes the mappable filter a low-pass with cutoff \<open>100 + v\<^sup>2 \<sqdot> 19900\<close>; HPF
  makes it a high-pass with cutoff \<open>v \<sqdot> 10000\<close>; REVERB writes \<open>v \<sqdot> 2\<close> to the wet send;
  DELAY writes \<open>v \<sqdot> 0.8\<close> to the feedback gain; FLANGER writes \<open>v\<close> to the flanger's wet
  gain; NONE changes nothing. The clamped value lies in \<open>[0, 1]\<close> for every number
  (\<^verbatim>\<open>Math.max\<close> and \<^verbatim>\<open>Math.min\<close> hand \<^verbatim>\<open>NaN\<close>, which is not a number, through, as
  \<open>clamp\<close> does). In \<^verbatim>\<open>update\<close>, a spread below 0.15 writes 0 to the gain as soon as
  one axis is mapped to VOLUME, whatever the value of that axis.
\<close>

theorem applyEffect_sets_targets:
  "applyEffect VOLUME v m t ch =
     ch\<lparr>gainNode := setTargetAtTime (if m then 0 else clamp v 0 1) t 0.1 (gainNode ch)\<rparr>
   \<and> applyEffect LPF v m t ch =
     ch\<lparr>filterNode := (filterNode ch)\<lparr>ftype := lowpass,
        frequency := setTargetAtTime (100 + Math_pow (clamp v 0 1) 2 * 19900) t 0.1
                       (frequency (filterNode ch)),
        Q := (Q (filterNode ch))\<lparr>pvalue := 1\<rparr>\<rparr>\<rparr>
   \<and> applyEffect HPF v m t ch =
     ch\<lparr>filterNode := (filterNode ch)\<lparr>ftype := highpass,
        frequency := setTargetAtTime (clamp v 0 1 * 10000) t 0.1 (frequency (filterNode ch)),
        Q := (Q (filterNode ch))\<lparr>pvalue := 1\<rparr>\<rparr>\<rparr>
   \<and> applyEffect REVERB v m t ch =
     ch\<lparr>reverbGain := setTargetAtTime (clamp v 0 1 * 2) t 0.1 (reverbGain ch)\<rparr>
   \<and> applyEffect DELAY v m t ch =
     ch\<lparr>delayFeedback := setTargetAtTime (clamp v 0 1 * 0.8) t 0.1 (delayFeedback ch)\<rparr>
   \<and> applyEffect FLANGER v m t ch =
     ch\<lparr>flangerWet := setTargetAtTime (clamp v 0 1) t 0.1 (flangerWet ch)\<rparr>
   \<and> applyEffect NONE v m t ch = ch
   \<and> (v \<noteq> NaN \<longrightarrow> 0 \<le> clamp v 0 1 \<and> clamp v 0 1 \<le> 1)
   \<and> (spread < 0.15 \<and> VOLUME \<in> {xEffect ch, yEffect ch, zEffect ch, spreadEffect ch} \<longrightarrow>
        automation (gainNode (update x y spread z rotation isRotActive t ch))
          = Some \<lparr>target = 0, startTime = t, timeConstant = 0.1\<rparr>)"
  using applyEffect_VOLUME [of v m t ch] applyEffect_LPF [of v m t ch]
    applyEffect_HPF [of v m t ch] applyEffect_REVERB [of v m t ch]
    applyEffect_DELAY [of v m t ch] applyEffect_FLANGER [of v m t ch]
    applyEffect_NONE [of v m t ch] clamp_range [of v]
    update_gainNode_fist [of spread ch x y z rotation isRotActive t]
  by blast

theorem applyEffect_sets_targets_witness:
  "automation (frequency (filterNode (applyEffect LPF 0.5 False 0 new_LoopChannel)))
     = Some \<lparr>target = 5075, startTime = 0, timeConstant = 0.1\<rparr>
   \<and> (0.5 :: jsnum) \<noteq> NaN \<and> (0 :: jsnum) \<le> clamp 0.5 0 1 \<and> clamp 0.5 0 1 \<le> (1 :: jsnum)
   \<and> (0.1 :: jsnum) < 0.15
   \<and> VOLUME \<in> {xEffect (new_LoopChannel\<lparr>yEffect := VOLUME\<rparr>),
                 yEffect (new_LoopChannel\<lparr>yEffect := VOLUME\<rparr>),
                 zEffect (new_LoopChannel\<lparr>yEffect := VOLUME\<rparr>),
                 spreadEffect (new_LoopChannel\<lparr>yEffect := VOLUME\<rparr>)}
   \<and> automation (gainNode (update 0.3 0.9 0.1 0.2 0 False 0 (new_LoopChannel\<lparr>yEffect := VOLUME\<rparr>)))
       = Some \<lparr>target = 0, startTime = 0, timeConstant = 0.1\<rparr>"
proof -
  have a: "(0.5 :: jsnum) \<noteq> NaN" "(0.1 :: jsnum) < 0.15"
    by (simp_all add: js)
  have b: "VOLUME \<in> {xEffect (new_LoopChannel\<lparr>yEffect := VOLUME\<rparr>),
                 yEffect (new_LoopChannel\<lparr>yEffect := VOLUME\<rparr>),
                 zEffect (new_LoopChannel\<lparr>yEffect := VOLUME\<rparr>),
                 spreadEffect (new_LoopChannel\<lparr>yEffect := VOLUME\<rparr>)}"
    by simp
  have c: "clamp 0.5 0 1 = Fin (1 / 2)"
    by (simp add: js clamp_def)
  have d: "(100 :: jsnum) + Math_pow (Fin (1 / 2)) 2 * 19900 = 5075"
    by (simp add: js power2_eq_square)
  note w1 = applyEffect_sets_targets [where v = "0.5" and m = False and t = 0
      and ch = new_LoopChannel and spread = "0.1" and x = "0.3" and y = "0.9" and z = "0.2"
      and rotation = 0 and isRotActive = False]
  note w2 = applyEffect_sets_targets [where v = "0.5" and m = False and t = 0
      and ch = "new_LoopChannel\<lparr>yEffect := VOLUME\<rparr>" and spread = "0.1" and x = "0.3"
      and y = "0.9" and z = "0.2" and rotation = 0 and isRotActive = False]
  show ?thesis
    using a b w1 w2 by (simp add: c d)
qed

section \<open>Rotation filter\<close>

lemma jsnum_le_not_less: "(a :: jsnum) \<le> b \<Longrightarrow> \<not> b < a"
  by (cases a; cases b) simp_all

lemma rotation_sides_exclusive: "(0.1 :: jsnum) < r \<Longrightarrow> \<not> r < - 0.1"
  by (cases r) (simp_all add: js)

lemma update_rotation_bypass:
  assumes "\<not> isRotActive \<or> spread < 0.15"
  shows "rotationFilterNode (update x y spread z rotation isRotActive t ch) =
     (rotationFilterNode ch)\<lparr>ftype := lowpass,
        frequency := setTargetAtTime 22000 t 0.1 (frequency (rotationFilterNode ch))\<rparr>"
  using assms by (auto simp add: update_def Let_def)

lemma update_rotation_lowpass:
  assumes "isRotActive" "\<not> spread < 0.15" "rotation < - 0.1"
  shows "rotationFilterNode (update x y spread z rotation isRotActive t ch) =
     (rotationFilterNode ch)\<lparr>ftype := lowpass,
        frequency := setTargetAtTime (40 + Math_pow ((rotation + 1) / 0.9) 3 * 19960) t 0.1
           (frequency (rotationFilterNode ch)),
        Q := (Q (rotationFilterNode ch))\<lparr>pvalue := 1\<rparr>\<rparr>"
  using assms by (simp add: update_def Let_def)

lemma update_rotation_highpass:
  assumes "isRotActive" "\<not> spread < 0.15" "0.1 < rotation"
  shows "rotationFilterNode (update x y spread z rotation isRotActive t ch) =
     (rotationFilterNode ch)\<lparr>ftype := highpass,
        frequency := setTargetAtTime (10 + (rotation - 0.1) / 0.9 * 3990) t 0.1
           (frequency (rotationFilterNode ch)),
        Q := (Q (rotationFilterNode ch))\<lparr>pvalue := 1\<rparr>\<rparr>"
  using assms rotation_sides_exclusive [of rotation] by (simp add: update_def Let_def)

lemma update_rotation_deadzone:
  assumes "- 0.1 \<le> rotation" "rotation \<le> 0.1"
  shows "rotationFilterNode (update x y spread z rotation isRotActive t ch) =
     (rotationFilterNode ch)\<lparr>ftype := lowpass,
        frequency := setTargetAtTime 22000 t 0.1 (frequency (rotationFilterNode ch))\<rparr>"
  using assms jsnum_le_not_less [of "- 0.1" rotation] jsnum_le_not_less [of rotation "0.1"]
  by (simp add: update_def Let_def)

text \<open>
  Claim C2. After \<^verbatim>\<open>update\<close>, the rotation filter is a low-pass with cutoff target
  22000 when the rotation switch is off or the spread is below 0.15; otherwise, with
  rotation below \<open>-0.1\<close> it is a low-pass with cutoff target \<open>40 + n\<^sup>3 \<sqdot> 19960\<close> for
  \<open>n = (rotation + 1) / 0.9\<close>, with rotation above 0.1 a high-pass with cutoff target
  \<open>10 + n \<sqdot> 3990\<close> for \<open>n = (rotation - 0.1) / 0.9\<close>; and with rotation in
  \<open>[-0.1, 0.1]\<close> it is a low-pass with cutoff target 22000 again. Every write has time
  constant 0.1.
\<close>

theorem update_rotation_filter:
  "(\<not> isRotActive \<or> spread < 0.15 \<longrightarrow>
      rotationFilterNode (update x y spread z rotation isRotActive t ch) =
        (rotationFilterNode ch)\<lparr>ftype := lowpass,
           frequency := setTargetAtTime 22000 t 0.1 (frequency (rotationFilterNode ch))\<rparr>)
   \<and> (isRotActive \<and> \<not> spread < 0.15 \<and> rotation < - 0.1 \<longrightarrow>
      rotationFilterNode (update x y spread z rotation isRotActive t ch) =
        (rotationFilterNode ch)\<lparr>ftype := lowpass,
           frequency := setTargetAtTime (40 + Math_pow ((rotation + 1) / 0.9) 3 * 19960) t 0.1
              (frequency (rotationFilterNode ch)),
           Q := (Q (rotationFilterNode ch))\<lparr>pvalue := 1\<rparr>\<rparr>)
   \<and> (isRotActive \<and> \<not> spread < 0.15 \<and> 0.1 < rotation \<longrightarrow>
      rotationFilterNode (update x y spread z rotation isRotActive t ch) =
        (rotationFilterNode ch)\<lparr>ftype := highpass,
           frequency := setTargetAtTime (10 + (rotation - 0.1) / 0.9 * 3990) t 0.1
              (frequency (rotationFilterNode ch)),
           Q := (Q (rotationFilterNode ch))\<lparr>pvalue := 1\<rparr>\<rparr>)
   \<and> (- 0.1 \<le> rotation \<and> rotation \<le> 0.1 \<longrightarrow>
      rotationFilterNode (update x y spread z rotation isRotActive t ch) =
        (rotationFilterNode ch)\<lparr>ftype := lowpass,
           frequency := setTargetAtTime 22000 t 0.1 (frequency (rotationFilterNode ch))\<rparr>)"
  using update_rotation_bypass [of isRotActive spread x y z rotation t ch]
    update_rotation_lowpass [of isRotActive spread rotation x y z t ch]
    update_rotation_highpass [of isRotActive spread rotation x y z t ch]
    update_rotation_deadzone [of rotation x y spread z isRotActive t ch]
  by blast

theorem update_rotation_filter_witness:
  "((0.1 :: jsnum) < 0.15
    \<and> automation (frequency (rotationFilterNode (update 0.5 0.5 0.1 0.5 0.55 True 0 new_LoopChannel)))
        = Some \<lparr>target = 22000, startTime = 0, timeConstant = 0.1\<rparr>)
   \<and> (\<not> (0.5 :: jsnum) < 0.15 \<and> (- 0.55 :: jsnum) < - 0.1
    \<and> ftype (rotationFilterNode (update 0.5 0.5 0.5 0.5 (- 0.55) True 0 new_LoopChannel)) = lowpass
    \<and> automation (frequency (rotationFilterNode (update 0.5 0.5 0.5 0.5 (- 0.55) True 0 new_LoopChannel)))
        = Some \<lparr>target = 2535, startTime = 0, timeConstant = 0.1\<rparr>)
   \<and> ((0.1 :: jsnum) < 0.55
    \<and> ftype (rotationFilterNode (update 0.5 0.5 0.5 0.5 0.55 True 0 new_LoopChannel)) = highpass
    \<and> automation (frequency (rotationFilterNode (update 0.5 0.5 0.5 0.5 0.55 True 0 new_LoopChannel)))
        = Some \<lparr>target = 2005, startTime = 0, timeConstant = 0.1\<rparr>)
   \<and> ((- 0.1 :: jsnum) \<le> 0.05 \<and> (0.05 :: jsnum) \<le> 0.1
    \<and> ftype (rotationFilterNode (update 0.5 0.5 0.5 0.5 0.05 True 0 new_LoopChannel)) = lowpass
    \<and> automation (frequency (rotationFilterNode (update 0.5 0.5 0.5 0.5 0.05 True 0 new_LoopChannel)))
        = Some \<lparr>target = 22000, startTime = 0, timeConstant = 0.1\<rparr>)"
proof -
  have h: "(0.1 :: jsnum) < 0.15" "\<not> (0.5 :: jsnum) < 0.15" "(- 0.55 :: jsnum) < - 0.1"
    "(0.1 :: jsnum) < 0.55" "(- 0.1 :: jsnum) \<le> 0.05" "(0.05 :: jsnum) \<le> 0.1"
    by (simp_all add: js)
  have f: "(40 :: jsnum) + Math_pow ((- 0.55 + 1) / 0.9) 3 * 19960 = 2535"
    "(10 :: jsnum) + (0.55 - 0.1) / 0.9 * 3990 = 2005"
    by (simp_all add: js power3_eq_cube)
  note w1 = update_rotation_filter [where isRotActive = True and spread = "0.1" and x = "0.5"
      and y = "0.5" and z = "0.5" and rotation = "0.55" and t = 0 and ch = new_LoopChannel]
  note w2 = update_rotation_filter [where isRotActive = True and spread = "0.5" and x = "0.5"
      and y = "0.5" and z = "0.5" and rotation = "- 0.55" and t = 0 and ch = new_LoopChannel]
  note w3 = update_rotation_filter [where isRotActive = True and spread = "0.5" and x = "0.5"
      and y = "0.5" and z = "0.5" and rotation = "0.55" and t = 0 and ch = new_LoopChannel]
  note w4 = update_rotation_filter [where isRotActive = True and spread = "0.5" and x = "0.5"
      and y = "0.5" and z = "0.5" and rotation = "0.05" and t = 0 and ch = new_LoopChannel]
  show ?thesis
    using h w1 w2 w3 w4 by (simp add: f)
qed

section \<open>Mapping changes\<close>

lemma resetUnmappedEffects_fields:
  "gainNode (resetUnmappedEffects t ch) =
     (if VOLUME \<notin> mapped ch then setTargetAtTime 0.8 t 0.5 (gainNode ch) else gainNode ch)"
  "filterNode (resetUnmappedEffects t ch) =
     (if LPF \<notin> mapped ch \<and> HPF \<notin> mapped ch
      then (filterNode ch)\<lparr>frequency := setTargetAtTime 20000 t 0.5 (frequency (filterNode ch)),
             ftype := lowpass\<rparr>
      else filterNode ch)"
  "reverbGain (resetUnmappedEffects t ch) =
     (if REVERB \<notin> mapped ch then setTargetAtTime 0 t 0.5 (reverbGain ch) else reverbGain ch)"
  "delayFeedback (resetUnmappedEffects t ch) =
     (if DELAY \<notin> mapped ch then setTargetAtTime 0 t 0.5 (delayFeedback ch) else delayFeedback ch)"
  "flangerWet (resetUnmappedEffects t ch) =
     (if FLANGER \<notin> mapped ch then setTargetAtTime 0 t 0.5 (flangerWet ch) else flangerWet ch)"
  "mapped (resetUnmappedEffects t ch) = mapped ch"
  "xEffect (resetUnmappedEffects t ch) = xEffect ch"
  "yEffect (resetUnmappedEffects t ch) = yEffect ch"
  "zEffect (resetUnmappedEffects t ch) = zEffect ch"
  "spreadEffect (resetUnmappedEffects t ch) = spreadEffect ch"
proof -
  define m where "m = [xEffect ch, yEffect ch, zEffect ch, spreadEffect ch]"
  define c1 where "c1 = (if VOLUME \<notin> set m
      then ch\<lparr>gainNode := setTargetAtTime 0.8 t 0.5 (gainNode ch)\<rparr> else ch)"
  define c2 where "c2 = (if LPF \<notin> set m \<and> HPF \<notin> set m
      then c1\<lparr>filterNode := (filterNode c1)\<lparr>
             frequency := setTargetAtTime 20000 t 0.5 (frequency (filterNode c1)),
             ftype := lowpass\<rparr>\<rparr>
      else c1)"
  define c3 where "c3 = (if REVERB \<notin> set m
      then c2\<lparr>reverbGain := setTargetAtTime 0 t 0.5 (reverbGain c2)\<rparr> else c2)"
  define c4 where "c4 = (if DELAY \<notin> set m
      then c3\<lparr>delayFeedback := setTargetAtTime 0 t 0.5 (delayFeedback c3)\<rparr> else c3)"
  define c5 where "c5 = (if FLANGER \<notin> set m
      then c4\<lparr>flangerWet := setTargetAtTime 0 t 0.5 (flangerWet c4)\<rparr> else c4)"
  have r: "resetUnmappedEffects t ch = c5"
    by (simp only: resetUnmappedEffects_def Let_def c5_def c4_def c3_def c2_def c1_def m_def)
  have m: "set m = mapped ch"
    by (simp add: m_def mapped_def)
  have s1: "filterNode c1 = filterNode ch" "reverbGain c1 = reverbGain ch"
    "delayFeedback c1 = delayFeedback ch" "flangerWet c1 = flangerWet ch" "mapped c1 = mapped ch"
    "xEffect c1 = xEffect ch" "yEffect c1 = yEffect ch" "zEffect c1 = zEffect ch"
    "spreadEffect c1 = spreadEffect ch"
    by (simp_all add: c1_def mapped_def)
  have s2: "gainNode c2 = gainNode c1" "reverbGain c2 = reverbGain c1"
    "delayFeedback c2 = delayFeedback c1" "flangerWet c2 = flangerWet c1" "mapped c2 = mapped c1"
    "xEffect c2 = xEffect c1" "yEffect c2 = yEffect c1" "zEffect c2 = zEffect c1"
    "spreadEffect c2 = spreadEffect c1"
    by (simp_all add: c2_def mapped_def)
  have s3: "gainNode c3 = gainNode c2" "filterNode c3 = filterNode c2"
    "delayFeedback c3 = delayFeedback c2" "flangerWet c3 = flangerWet c2" "mapped c3 = mapped c2"
    "xEffect c3 = xEffect c2" "yEffect c3 = yEffect c2" "zEffect c3 = zEffect c2"
    "spreadEffect c3 = spreadEffect c2"
    by (simp_all add: c3_def mapped_def)
  have s4: "gainNode c4 = gainNode c3" "filterNode c4 = filterNode c3"
    "reverbGain c4 = reverbGain c3" "flangerWet c4 = flangerWet c3" "mapped c4 = mapped c3"
    "xEffect c4 = xEffect c3" "yEffect c4 = yEffect c3" "zEffect c4 = zEffect c3"
    "spreadEffect c4 = spreadEffect c3"
    by (simp_all add: c4_def mapped_def)
  have s5: "gainNode c5 = gainNode c4" "filterNode c5 = filterNode c4"
    "reverbGain c5 = reverbGain c4" "delayFeedback c5 = delayFeedback c4" "mapped c5 = mapped c4"
    "xEffect c5 = xEffect c4" "yEffect c5 = yEffect c4" "zEffect c5 = zEffect c4"
    "spreadEffect c5 = spreadEffect c4"
    by (simp_all add: c5_def mapped_def)
  show "gainNode (resetUnmappedEffects t ch) =
     (if VOLUME \<notin> mapped ch then setTargetAtTime 0.8 t 0.5 (gainNode ch) else gainNode ch)"
    unfolding r s5 s4 s3 s2 by (simp add: c1_def m)
  show "filterNode (resetUnmappedEffects t ch) =
     (if LPF \<notin> mapped ch \<and> HPF \<notin> mapped ch
      then (filterNode ch)\<lparr>frequency := setTargetAtTime 20000 t 0.5 (frequency (filterNode ch)),
             ftype := lowpass\<rparr>
      else filterNode ch)"
    unfolding r s5 s4 s3 by (simp add: c2_def m s1)
  show "reverbGain (resetUnmappedEffects t ch) =
     (if REVERB \<notin> mapped ch then setTargetAtTime 0 t 0.5 (reverbGain ch) else reverbGain ch)"
    unfolding r s5 s4 by (simp add: c3_def m s2 s1)
  show "delayFeedback (resetUnmappedEffects t ch) =
     (if DELAY \<notin> mapped ch then setTargetAtTime 0 t 0.5 (delayFeedback ch) else delayFeedback ch)"
    unfolding r s5 by (simp add: c4_def m s3 s2 s1)
  show "flangerWet (resetUnmappedEffects t ch) =
     (if FLANGER \<notin> mapped ch then setTargetAtTime 0 t 0.5 (flangerWet ch) else flangerWet ch)"
    unfolding r by (simp add: c5_def m s4 s3 s2 s1)
  show "mapped (resetUnmappedEffects t ch) = mapped ch"
    unfolding r s5 s4 s3 s2 s1 ..
  show "xEffect (resetUnmappedEffects t ch) = xEffect ch"
    unfolding r s5 s4 s3 s2 s1 ..
  show "yEffect (resetUnmappedEffects t ch) = yEffect ch"
    unfolding r s5 s4 s3 s2 s1 ..
  show "zEffect (resetUnmappedEffects t ch) = zEffect ch"
    unfolding r s5 s4 s3 s2 s1 ..
  show "spreadEffect (resetUnmappedEffects t ch) = spreadEffect ch"
    unfolding r s5 s4 s3 s2 s1 ..
qed

lemma setMapping_eq:
  "setMapping ax e t ch = resetUnmappedEffects t
     (case ax of X \<Rightarrow> ch\<lparr>xEffect := e\<rparr> | Y \<Rightarrow> ch\<lparr>yEffect := e\<rparr>
        | Z \<Rightarrow> ch\<lparr>zEffect := e\<rparr> | Spread \<Rightarrow> ch\<lparr>spreadEffect := e\<rparr>)"
  by (cases ax; simp add: setMapping_def Let_def)

lemma setMapping_axes:
  "xEffect (setMapping ax e t ch) = (if ax = X then e else xEffect ch)"
  "yEffect (setMapping ax e t ch) = (if ax = Y then e else yEffect ch)"
  "zEffect (setMapping ax e t ch) = (if ax = Z then e else zEffect ch)"
  "spreadEffect (setMapping ax e t ch) = (if ax = Spread then e else spreadEffect ch)"
  unfolding setMapping_eq resetUnmappedEffects_fields by (cases ax; simp)+

lemma setMapping_mapped:
  "mapped (setMapping ax e t ch) =
     {if ax = X then e else xEffect ch, if ax = Y then e else yEffect ch,
      if ax = Z then e else zEffect ch, if ax = Spread then e else spreadEffect ch}"
  unfolding setMapping_eq resetUnmappedEffects_fields
  by (cases ax; simp add: mapped_def)

lemma setMapping_nodes:
  "gainNode (setMapping ax e t ch) =
     (if VOLUME \<notin> mapped (setMapping ax e t ch) then setTargetAtTime 0.8 t 0.5 (gainNode ch)
      else gainNode ch)"
  "filterNode (setMapping ax e t ch) =
     (if LPF \<notin> mapped (setMapping ax e t ch) \<and> HPF \<notin> mapped (setMapping ax e t ch)
      then (filterNode ch)\<lparr>frequency := setTargetAtTime 20000 t 0.5 (frequency (filterNode ch)),
             ftype := lowpass\<rparr>
      else filterNode ch)"
  "reverbGain (setMapping ax e t ch) =
     (if REVERB \<notin> mapped (setMapping ax e t ch) then setTargetAtTime 0 t 0.5 (reverbGain ch)
      else reverbGain ch)"
  "delayFeedback (setMapping ax e t ch) =
     (if DELAY \<notin> mapped (setMapping ax e t ch) then setTargetAtTime 0 t 0.5 (delayFeedback ch)
      else delayFeedback ch)"
  "flangerWet (setMapping ax e t ch) =
     (if FLANGER \<notin> mapped (setMapping ax e t ch) then setTargetAtTime 0 t 0.5 (flangerWet ch)
      else flangerWet ch)"
  unfolding setMapping_eq resetUnmappedEffects_fields
  by (cases ax; simp)+

lemma applyEffect_filterNode:
  "filterNode (applyEffect e v m t ch) =
     (if e = LPF then (filterNode ch)\<lparr>ftype := lowpass,
         frequency := setTargetAtTime (100 + Math_pow (clamp v 0 1) 2 * 19900) t 0.1
                        (frequency (filterNode ch)),
         Q := (Q (filterNode ch))\<lparr>pvalue := 1\<rparr>\<rparr>
      else if e = HPF then (filterNode ch)\<lparr>ftype := highpass,
         frequency := setTargetAtTime (clamp v 0 1 * 10000) t 0.1 (frequency (filterNode ch)),
         Q := (Q (filterNode ch))\<lparr>pvalue := 1\<rparr>\<rparr>
      else filterNode ch)"
  by (cases e; simp add: applyEffect_cases)

lemma update_mapping [simp]:
  "xEffect (update x y spread z rotation isRotActive t ch) = xEffect ch"
  "yEffect (update x y spread z rotation isRotActive t ch) = yEffect ch"
  "zEffect (update x y spread z rotation isRotActive t ch) = zEffect ch"
  "spreadEffect (update x y spread z rotation isRotActive t ch) = spreadEffect ch"
  by (simp_all add: update_def Let_def)

lemma update_filterNode:
  "filterNode (update x y spread z rotation isRotActive t ch) =
     filterNode (applyEffect (spreadEffect ch) spread (spread < 0.15) t
       (applyEffect (zEffect ch) z (spread < 0.15) t
         (applyEffect (yEffect ch) y (spread < 0.15) t
           (applyEffect (xEffect ch) x (spread < 0.15) t ch))))"
  by (simp add: update_def Let_def)

text \<open>
  Claim C6, as stated, fails: with X on LPF and Y on HPF, moving X to NONE leaves no axis
  on LPF, and the mappable filter is not driven to a low-pass at 20000; it stays the
  high-pass the Y axis made it.
\<close>

theorem setMapping_filter_counterexample:
  "LPF \<notin> mapped (setMapping X NONE 1
      (update 0.5 0.5 0.5 0.5 0 False 0
        (setMapping Y HPF 0 (setMapping X LPF 0 new_LoopChannel))))
   \<and> ftype (filterNode (setMapping X NONE 1
      (update 0.5 0.5 0.5 0.5 0 False 0
        (setMapping Y HPF 0 (setMapping X LPF 0 new_LoopChannel))))) = highpass
   \<and> automation (frequency (filterNode (setMapping X NONE 1
      (update 0.5 0.5 0.5 0.5 0 False 0
        (setMapping Y HPF 0 (setMapping X LPF 0 new_LoopChannel))))))
      = Some \<lparr>target = 5000, startTime = 0, timeConstant = 0.1\<rparr>"
proof -
  define c where "c = setMapping Y HPF 0 (setMapping X LPF 0 new_LoopChannel)"
  have e: "xEffect c = LPF" "yEffect c = HPF" "zEffect c = NONE" "spreadEffect c = NONE"
    by (simp_all add: c_def setMapping_eq mapped_def resetUnmappedEffects_def Let_def
        new_LoopChannel_def)
  define d where "d = update 0.5 0.5 0.5 0.5 0 False 0 c"
  have m: "mapped (setMapping X NONE 1 d) = {NONE, HPF}"
    by (auto simp add: setMapping_mapped d_def e)
  have v: "clamp 0.5 0 1 * 10000 = (5000 :: jsnum)"
    by (simp add: js clamp_def)
  have f: "ftype (filterNode d) = highpass"
    "automation (frequency (filterNode d)) = Some \<lparr>target = 5000, startTime = 0, timeConstant = 0.1\<rparr>"
    by (simp_all add: d_def update_filterNode e applyEffect_NONE applyEffect_filterNode v)
  have "filterNode (setMapping X NONE 1 d) = filterNode d"
    by (simp add: setMapping_nodes m)
  with m f show ?thesis
    unfolding d_def c_def by simp
qed

text \<open>
  Claim C6, amended. \<^verbatim>\<open>setMapping\<close> assigns the effect to the axis and then, with time
  constant 0.5: drives the gain to 0.8 when no axis is on VOLUME, the reverb send to 0
  when none is on REVERB, the delay feedback to 0 when none is on DELAY, the flanger's
  wet gain to 0 when none is on FLANGER, and makes the mappable filter a low-pass with
  cutoff target 20000 when no axis is on LPF and none is on HPF; while an axis is on LPF
  or on HPF the mappable filter is left as it is.
\<close>

theorem setMapping_resets_unreferenced:
  "mapped (setMapping ax e t ch) =
     {if ax = X then e else xEffect ch, if ax = Y then e else yEffect ch,
      if ax = Z then e else zEffect ch, if ax = Spread then e else spreadEffect ch}
   \<and> (VOLUME \<notin> mapped (setMapping ax e t ch) \<longrightarrow>
        gainNode (setMapping ax e t ch) = setTargetAtTime 0.8 t 0.5 (gainNode ch))
   \<and> (LPF \<notin> mapped (setMapping ax e t ch) \<and> HPF \<notin> mapped (setMapping ax e t ch) \<longrightarrow>
        filterNode (setMapping ax e t ch) =
          (filterNode ch)\<lparr>frequency := setTargetAtTime 20000 t 0.5 (frequency (filterNode ch)),
             ftype := lowpass\<rparr>)
   \<and> (REVERB \<notin> mapped (setMapping ax e t ch) \<longrightarrow>
        reverbGain (setMapping ax e t ch) = setTargetAtTime 0 t 0.5 (reverbGain ch))
   \<and> (DELAY \<notin> mapped (setMapping ax e t ch) \<longrightarrow>
        delayFeedback (setMapping ax e t ch) = setTargetAtTime 0 t 0.5 (delayFeedback ch))
   \<and> (FLANGER \<notin> mapped (setMapping ax e t ch) \<longrightarrow>
        flangerWet (setMapping ax e t ch) = setTargetAtTime 0 t 0.5 (flangerWet ch))
   \<and> (LPF \<in> mapped (setMapping ax e t ch) \<or> HPF \<in> mapped (setMapping ax e t ch) \<longrightarrow>
        filterNode (setMapping ax e t ch) = filterNode ch)"
  using setMapping_mapped [of ax e t ch] setMapping_nodes [of ax e t ch]
  by presburger

theorem setMapping_resets_unreferenced_witness:
  "VOLUME \<notin> mapped (setMapping X NONE 0 (new_LoopChannel\<lparr>xEffect := VOLUME\<rparr>))
   \<and> automation (gainNode (setMapping X NONE 0 (new_LoopChannel\<lparr>xEffect := VOLUME\<rparr>)))
       = Some \<lparr>target = 0.8, startTime = 0, timeConstant = 0.5\<rparr>
   \<and> LPF \<notin> mapped (setMapping X NONE 0 (new_LoopChannel\<lparr>xEffect := VOLUME\<rparr>))
   \<and> HPF \<notin> mapped (setMapping X NONE 0 (new_LoopChannel\<lparr>xEffect := VOLUME\<rparr>))
   \<and> ftype (filterNode (setMapping X NONE 0 (new_LoopChannel\<lparr>xEffect := VOLUME\<rparr>))) = lowpass
   \<and> automation (frequency (filterNode (setMapping X NONE 0 (new_LoopChannel\<lparr>xEffect := VOLUME\<rparr>))))
       = Some \<lparr>target = 20000, startTime = 0, timeConstant = 0.5\<rparr>
   \<and> REVERB \<notin> mapped (setMapping X NONE 0 (new_LoopChannel\<lparr>xEffect := VOLUME\<rparr>))
   \<and> automation (reverbGain (setMapping X NONE 0 (new_LoopChannel\<lparr>xEffect := VOLUME\<rparr>)))
       = Some \<lparr>target = 0, startTime = 0, timeConstant = 0.5\<rparr>
   \<and> DELAY \<notin> mapped (setMapping X NONE 0 (new_LoopChannel\<lparr>xEffect := VOLUME\<rparr>))
   \<and> automation (delayFeedback (setMapping X NONE 0 (new_LoopChannel\<lparr>xEffect := VOLUME\<rparr>)))
       = Some \<lparr>target = 0, startTime = 0, timeConstant = 0.5\<rparr>
   \<and> FLANGER \<notin> mapped (setMapping X NONE 0 (new_LoopChannel\<lparr>xEffect := VOLUME\<rparr>))
   \<and> automation (flangerWet (setMapping X NONE 0 (new_LoopChannel\<lparr>xEffect := VOLUME\<rparr>)))
       = Some \<lparr>target = 0, startTime = 0, timeConstant = 0.5\<rparr>
   \<and> HPF \<in> mapped (setMapping X NONE 0 (new_LoopChannel\<lparr>xEffect := LPF, yEffect := HPF\<rparr>))
   \<and> filterNode (setMapping X NONE 0 (new_LoopChannel\<lparr>xEffect := LPF, yEffect := HPF\<rparr>))
       = filterNode (new_LoopChannel\<lparr>xEffect := LPF, yEffect := HPF\<rparr>)"
proof -
  note w1 = setMapping_resets_unreferenced [of X NONE 0 "new_LoopChannel\<lparr>xEffect := VOLUME\<rparr>"]
  note w2 = setMapping_resets_unreferenced [of X NONE 0
      "new_LoopChannel\<lparr>xEffect := LPF, yEffect := HPF\<rparr>"]
  have e: "xEffect new_LoopChannel = NONE" "yEffect new_LoopChannel = NONE"
    "zEffect new_LoopChannel = NONE" "spreadEffect new_LoopChannel = NONE"
    by (simp_all add: new_LoopChannel_def)
  have m1: "mapped (setMapping X NONE 0 (new_LoopChannel\<lparr>xEffect := VOLUME\<rparr>)) = {NONE}"
    using w1 by (simp add: e)
  have m2: "mapped (setMapping X NONE 0 (new_LoopChannel\<lparr>xEffect := LPF, yEffect := HPF\<rparr>))
      = {NONE, HPF}"
    using w2 by (auto simp add: e)
  show ?thesis
    using w1 w2 unfolding m1 m2 by simp
qed

section \<open>Generator dispatch\<close>

lemmas play_defs = playKick_def playSnare_def playHiHat_def playSynthTone_def
  playAmbientPad_def playPerc_def playDistorted808_def getInputNode_def

lemma loop_ids:
  "(''drum_break'' = ''drum_house'') = False"
  "(''synth_neon'' = ''drum_house'') = False" "(''synth_neon'' = ''drum_break'') = False"
  "(''synth_bass'' = ''drum_house'') = False" "(''synth_bass'' = ''drum_break'') = False"
  "(''synth_bass'' = ''synth_neon'') = False"
  "(''amb_space'' = ''drum_house'') = False" "(''amb_space'' = ''drum_break'') = False"
  "(''amb_space'' = ''synth_neon'') = False" "(''amb_space'' = ''synth_bass'') = False"
  "(''amb_pads'' = ''drum_house'') = False" "(''amb_pads'' = ''drum_break'') = False"
  "(''amb_pads'' = ''synth_neon'') = False" "(''amb_pads'' = ''synth_bass'') = False"
  "(''amb_pads'' = ''amb_space'') = False"
  "(''perc_glitch'' = ''drum_house'') = False" "(''perc_glitch'' = ''drum_break'') = False"
  "(''perc_glitch'' = ''synth_neon'') = False" "(''perc_glitch'' = ''synth_bass'') = False"
  "(''perc_shaker'' = ''drum_house'') = False" "(''perc_shaker'' = ''drum_break'') = False"
  "(''perc_shaker'' = ''synth_neon'') = False" "(''perc_shaker'' = ''synth_bass'') = False"
  "startsWith ''amb_space'' ''amb'' = True" "startsWith ''amb_pads'' ''amb'' = True"
  "startsWith ''perc_glitch'' ''amb'' = False" "startsWith ''perc_shaker'' ''amb'' = False"
  "startsWith ''perc_glitch'' ''perc'' = True" "startsWith ''perc_shaker'' ''perc'' = True"
  by (simp_all add: startsWith_def)

lemmas select_branch = prod.case if_False if_True option.case Let_def loop_ids refl

lemma drum_voices:
  "(let ch = (if a then playKick time ch else ch);
        ch = (if b then playSnare time ch else ch);
        ch = (if c then playHiHat time ch else ch)
    in (ch, w)) =
   (ch\<lparr>voices := voices ch @ map (\<lambda>g. \<lparr>gen = g, vtime = time, dest = InputGain\<rparr>)
      ((if a then [Kick] else []) @ (if b then [Snare] else []) @ (if c then [HiHat] else []))\<rparr>, w)"
  by (simp add: Let_def play_defs)

lemma bass_voices:
  "(let ch = (if a then playSynthTone time f ch else ch);
        ch = (if b then playSynthTone time g ch else ch)
    in (ch, w)) =
   (ch\<lparr>voices := voices ch @ map (\<lambda>g. \<lparr>gen = g, vtime = time, dest = InputGain\<rparr>)
      ((if a then [SynthTone f] else []) @ (if b then [SynthTone g] else []))\<rparr>, w)"
  by (simp add: Let_def play_defs)

lemma neon_voices:
  "(if a then (playSynthTone time f ch, w) else (ch, w)) =
   (ch\<lparr>voices := voices ch @ map (\<lambda>g. \<lparr>gen = g, vtime = time, dest = InputGain\<rparr>)
      (if a then [SynthTone f] else [])\<rparr>, w)"
  by (simp add: play_defs)

lemma pad_voices:
  "(if a then (playAmbientPad time f ch, w) else (ch, w)) =
   (ch\<lparr>voices := voices ch @ map (\<lambda>g. \<lparr>gen = g, vtime = time, dest = InputGain\<rparr>)
      (if a then [AmbientPad f] else [])\<rparr>, w)"
  by (simp add: play_defs)

lemma schedule_no_loop:
  "\<not> isDogMode ch \<Longrightarrow> currentLoop ch = None \<Longrightarrow> schedule beat time (ch, w) = (ch, w)"
  unfolding schedule_def by (simp only: select_branch)

lemma schedule_drum_house:
  assumes "\<not> isDogMode ch" "currentLoop ch = Some loop" "loop_id loop = ''drum_house''"
  shows "schedule beat time (ch, w) =
    (ch\<lparr>voices := voices ch @ map (\<lambda>g. \<lparr>gen = g, vtime = time, dest = InputGain\<rparr>)
        (spec_pattern ''drum_house'' (beat mod 16))\<rparr>, w)"
proof -
  define step where "step = beat mod 16"
  have "schedule beat time (ch, w) =
          (let ch = (if step mod 4 = 0 then playKick time ch else ch);
               ch = (if step mod 8 = 4 then playSnare time ch else ch);
               ch = (if step mod 2 \<noteq> 0 then playHiHat time ch else ch)
           in (ch, w))"
    unfolding schedule_def step_def [symmetric] using assms
    by (simp only: select_branch)
  also have "\<dots> = (ch\<lparr>voices := voices ch @ map (\<lambda>g. \<lparr>gen = g, vtime = time, dest = InputGain\<rparr>)
        (spec_pattern ''drum_house'' step)\<rparr>, w)"
    unfolding drum_voices spec_pattern_def
    by (simp only: select_branch even_iff_mod_2_eq_zero)
  finally show ?thesis unfolding step_def .
qed

lemma schedule_drum_break:
  assumes "\<not> isDogMode ch" "currentLoop ch = Some loop" "loop_id loop = ''drum_break''"
  shows "schedule beat time (ch, w) =
    (ch\<lparr>voices := voices ch @ map (\<lambda>g. \<lparr>gen = g, vtime = time, dest = InputGain\<rparr>)
        (spec_pattern ''drum_break'' (beat mod 16))\<rparr>, w)"
proof -
  define step where "step = beat mod 16"
  have "schedule beat time (ch, w) =
          (let ch = (if step = 0 \<or> step = 10 then playKick time ch else ch);
               ch = (if step = 4 \<or> step = 12 then playSnare time ch else ch);
               ch = (if step mod 2 = 0 then playHiHat time ch else ch)
           in (ch, w))"
    unfolding schedule_def step_def [symmetric] using assms
    by (simp only: select_branch)
  also have "\<dots> = (ch\<lparr>voices := voices ch @ map (\<lambda>g. \<lparr>gen = g, vtime = time, dest = InputGain\<rparr>)
        (spec_pattern ''drum_break'' step)\<rparr>, w)"
    unfolding drum_voices spec_pattern_def
    by (simp only: select_branch even_iff_mod_2_eq_zero insert_iff empty_iff simp_thms)
  finally show ?thesis unfolding step_def .
qed

lemma schedule_synth_neon:
  assumes "\<not> isDogMode ch" "currentLoop ch = Some loop" "loop_id loop = ''synth_neon''"
  shows "schedule beat time (ch, w) =
    (ch\<lparr>voices := voices ch @ map (\<lambda>g. \<lparr>gen = g, vtime = time, dest = InputGain\<rparr>)
        (spec_pattern ''synth_neon'' (beat mod 16))\<rparr>, w)"
proof -
  define step where "step = beat mod 16"
  have "schedule beat time (ch, w) =
          (if step mod 2 = 0
           then (playSynthTone time ([220, 330, 440, 660] ! ((step div 2) mod 4)) ch, w)
           else (ch, w))"
    unfolding schedule_def step_def [symmetric] using assms
    by (simp only: select_branch)
  also have "\<dots> = (ch\<lparr>voices := voices ch @ map (\<lambda>g. \<lparr>gen = g, vtime = time, dest = InputGain\<rparr>)
        (spec_pattern ''synth_neon'' step)\<rparr>, w)"
    unfolding neon_voices spec_pattern_def
    by (simp only: select_branch even_iff_mod_2_eq_zero)
  finally show ?thesis unfolding step_def .
qed

lemma schedule_synth_bass:
  assumes "\<not> isDogMode ch" "currentLoop ch = Some loop" "loop_id loop = ''synth_bass''"
  shows "schedule beat time (ch, w) =
    (ch\<lparr>voices := voices ch @ map (\<lambda>g. \<lparr>gen = g, vtime = time, dest = InputGain\<rparr>)
        (spec_pattern ''synth_bass'' (beat mod 16))\<rparr>, w)"
proof -
  define step where "step = beat mod 16"
  have "schedule beat time (ch, w) =
          (let ch = (if step = 0 \<or> step = 8 then playSynthTone time 55 ch else ch);
               ch = (if step = 3 \<or> step = 11 then playSynthTone time 110 ch else ch)
           in (ch, w))"
    unfolding schedule_def step_def [symmetric] using assms
    by (simp only: select_branch)
  also have "\<dots> = (ch\<lparr>voices := voices ch @ map (\<lambda>g. \<lparr>gen = g, vtime = time, dest = InputGain\<rparr>)
        (spec_pattern ''synth_bass'' step)\<rparr>, w)"
    unfolding bass_voices spec_pattern_def
    by (simp only: select_branch insert_iff empty_iff simp_thms)
  finally show ?thesis unfolding step_def .
qed

lemma schedule_amb_space:
  assumes "\<not> isDogMode ch" "currentLoop ch = Some loop" "loop_id loop = ''amb_space''"
  shows "schedule beat time (ch, w) =
    (ch\<lparr>voices := voices ch @ map (\<lambda>g. \<lparr>gen = g, vtime = time, dest = InputGain\<rparr>)
        (spec_pattern ''amb_space'' (beat mod 16))\<rparr>, w)"
proof -
  define step where "step = beat mod 16"
  have "schedule beat time (ch, w) =
          (if step = 0 then (playAmbientPad time 110 ch, w) else (ch, w))"
    unfolding schedule_def step_def [symmetric] using assms
    by (simp only: select_branch)
  also have "\<dots> = (ch\<lparr>voices := voices ch @ map (\<lambda>g. \<lparr>gen = g, vtime = time, dest = InputGain\<rparr>)
        (spec_pattern ''amb_space'' step)\<rparr>, w)"
    unfolding pad_voices spec_pattern_def
    by (simp only: select_branch)
  finally show ?thesis unfolding step_def .
qed

lemma schedule_amb_pads:
  assumes "\<not> isDogMode ch" "currentLoop ch = Some loop" "loop_id loop = ''amb_pads''"
  shows "schedule beat time (ch, w) =
    (ch\<lparr>voices := voices ch @ map (\<lambda>g. \<lparr>gen = g, vtime = time, dest = InputGain\<rparr>)
        (spec_pattern ''amb_pads'' (beat mod 16))\<rparr>, w)"
proof -
  define step where "step = beat mod 16"
  have "schedule beat time (ch, w) =
          (if step = 0 then (playAmbientPad time 164.8 ch, w) else (ch, w))"
    unfolding schedule_def step_def [symmetric] using assms
    by (simp only: select_branch)
  also have "\<dots> = (ch\<lparr>voices := voices ch @ map (\<lambda>g. \<lparr>gen = g, vtime = time, dest = InputGain\<rparr>)
        (spec_pattern ''amb_pads'' step)\<rparr>, w)"
    unfolding pad_voices spec_pattern_def
    by (simp only: select_branch)
  finally show ?thesis unfolding step_def .
qed

lemma schedule_perc:
  assumes "\<not> isDogMode ch" "currentLoop ch = Some loop"
    "loop_id loop = ''perc_glitch'' \<or> loop_id loop = ''perc_shaker''"
  shows "schedule beat time (ch, w) =
    (if 1 / 2 < shd (random w)
     then ch\<lparr>voices := voices ch @ [\<lparr>gen = Perc, vtime = time, dest = InputGain\<rparr>]\<rparr> else ch,
     w\<lparr>random := stl (random w)\<rparr>)"
proof -
  have "schedule beat time (ch, w) =
          (if 0.5 < shd (random w) then (playPerc time ch, w\<lparr>random := stl (random w)\<rparr>)
           else (ch, w\<lparr>random := stl (random w)\<rparr>))"
    using assms(3)
  proof
    assume "loop_id loop = ''perc_glitch''"
    with assms(1,2) show ?thesis
      unfolding schedule_def by (simp only: select_branch)
  next
    assume "loop_id loop = ''perc_shaker''"
    with assms(1,2) show ?thesis
      unfolding schedule_def by (simp only: select_branch)
  qed
  then show ?thesis
    by (simp add: play_defs)
qed

lemma schedule_pattern:
  assumes "\<not> isDogMode ch" "currentLoop ch = Some loop"
    "loop_id loop \<in> {''drum_house'', ''drum_break'', ''synth_neon'', ''synth_bass'',
       ''amb_space'', ''amb_pads''}"
  shows "schedule beat time (ch, w) =
    (ch\<lparr>voices := voices ch @ map (\<lambda>g. \<lparr>gen = g, vtime = time, dest = InputGain\<rparr>)
        (spec_pattern (loop_id loop) (beat mod 16))\<rparr>, w)"
  using assms(3) schedule_drum_house [OF assms(1,2)] schedule_drum_break [OF assms(1,2)]
    schedule_synth_neon [OF assms(1,2)] schedule_synth_bass [OF assms(1,2)]
    schedule_amb_space [OF assms(1,2)] schedule_amb_pads [OF assms(1,2)]
  by (elim insertE emptyE; simp only:)

lemma spec_override_code:
  "(let ch = (if step = 0 then playDistorted808 time 45 ch else ch);
        ch = (if step = 3 then playDistorted808 time 45 ch else ch);
        ch = (if step = 7 then playDistorted808 time 45 ch else ch);
        ch = (if step = 10 then playDistorted808 time 55 ch else ch);
        ch = (if step = 12 then playDistorted808 time 35 ch else ch);
        ch = (if step = 14 then playDistorted808 time 35 ch else ch)
    in (ch, w)) =
   (ch\<lparr>voices := voices ch @ map (\<lambda>f. \<lparr>gen = Distorted808 f, vtime = time, dest = MasterOutput\<rparr>)
        (spec_override step)\<rparr>, w)"
  by (simp add: Let_def play_defs spec_override_def)

lemma schedule_override:
  assumes "isDogMode ch"
  shows "schedule beat time (ch, w) =
    (ch\<lparr>voices := voices ch @ map (\<lambda>f. \<lparr>gen = Distorted808 f, vtime = time, dest = MasterOutput\<rparr>)
        (spec_override (beat mod 16))\<rparr>, w)"
proof -
  define step :: nat where "step = beat mod 16"
  have "schedule beat time (ch, w) =
    (let ch = (if step = 0 then playDistorted808 time 45 ch else ch);
        ch = (if step = 3 then playDistorted808 time 45 ch else ch);
        ch = (if step = 7 then playDistorted808 time 45 ch else ch);
        ch = (if step = 10 then playDistorted808 time 55 ch else ch);
        ch = (if step = 12 then playDistorted808 time 35 ch else ch);
        ch = (if step = 14 then playDistorted808 time 35 ch else ch)
    in (ch, w))"
    unfolding schedule_def step_def [symmetric] using assms
    by (simp only: select_branch)
  then show ?thesis
    unfolding spec_override_code step_def .
qed

lemma catalog_ids:
  "loop_id ` set AVAILABLE_LOOPS =
     {''drum_house'', ''drum_break'', ''synth_neon'', ''synth_bass'', ''amb_space'', ''amb_pads'',
      ''perc_glitch'', ''perc_shaker''}"
  by (simp add: AVAILABLE_LOOPS_def)

lemma perc_hits:
  assumes "\<not> isDogMode ch" "currentLoop ch = Some loop"
    "loop_id loop = ''perc_glitch'' \<or> loop_id loop = ''perc_shaker''"
  shows "{r. 0 \<le> r \<and> r < 1 \<and>
            voices (fst (schedule beat time (ch, w\<lparr>random := r ## rs\<rparr>))) \<noteq> voices ch}
         = {1 / 2 <..< 1}"
  by (auto simp add: schedule_perc [OF assms])

text \<open>
  Claim C4. Outside override mode the step \<open>beat mod 16\<close> fires exactly the generators
  of the active loop's rule, each at the time of the step and into the channel's input:
  for the six loops with a fixed pattern the voices added are those of
  \<open>spec_pattern\<close>; a percussion loop takes one draw of \<^verbatim>\<open>Math.random()\<close> and plays a hit
  exactly when the draw exceeds \<open>1/2\<close>, so that of the draws in \<open>[0, 1)\<close> those of the
  upper half \<open>(1/2, 1)\<close> give a hit; with no active loop nothing is fired. The eight ids
  are those of the catalog.
\<close>

theorem schedule_follows_loop_rule:
  assumes "\<not> isDogMode ch"
  shows "(currentLoop ch = None \<longrightarrow> schedule beat time (ch, w) = (ch, w))
   \<and> (\<forall>loop. currentLoop ch = Some loop
         \<and> loop_id loop \<in> {''drum_house'', ''drum_break'', ''synth_neon'', ''synth_bass'',
              ''amb_space'', ''amb_pads''} \<longrightarrow>
        schedule beat time (ch, w) =
          (ch\<lparr>voices := voices ch @ map (\<lambda>g. \<lparr>gen = g, vtime = time, dest = InputGain\<rparr>)
              (spec_pattern (loop_id loop) (beat mod 16))\<rparr>, w))
   \<and> (\<forall>loop. currentLoop ch = Some loop
         \<and> (loop_id loop = ''perc_glitch'' \<or> loop_id loop = ''perc_shaker'') \<longrightarrow>
        schedule beat time (ch, w) =
          (if 1 / 2 < shd (random w)
           then ch\<lparr>voices := voices ch @ [\<lparr>gen = Perc, vtime = time, dest = InputGain\<rparr>]\<rparr>
           else ch,
           w\<lparr>random := stl (random w)\<rparr>)
        \<and> (\<forall>rs. {r. 0 \<le> r \<and> r < 1 \<and>
               voices (fst (schedule beat time (ch, w\<lparr>random := r ## rs\<rparr>))) \<noteq> voices ch}
             = {1 / 2 <..< 1}))
   \<and> loop_id ` set AVAILABLE_LOOPS =
       {''drum_house'', ''drum_break'', ''synth_neon'', ''synth_bass'', ''amb_space'',
        ''amb_pads'', ''perc_glitch'', ''perc_shaker''}"
  using schedule_no_loop [OF assms] schedule_pattern [OF assms] schedule_perc [OF assms]
    perc_hits [OF assms] catalog_ids
  by blast

theorem schedule_follows_loop_rule_witness:
  "\<not> isDogMode new_LoopChannel \<and> currentLoop new_LoopChannel = None
   \<and> schedule 20 1 (new_LoopChannel, \<lparr>random = sconst (3 / 4), lastHandle = 0, pending = []\<rparr>)
       = (new_LoopChannel, \<lparr>random = sconst (3 / 4), lastHandle = 0, pending = []\<rparr>)
   \<and> \<not> isDogMode (new_LoopChannel\<lparr>currentLoop := Some (AVAILABLE_LOOPS ! 0)\<rparr>)
   \<and> loop_id (AVAILABLE_LOOPS ! 0) = ''drum_house''
   \<and> voices (fst (schedule 20 1 (new_LoopChannel\<lparr>currentLoop := Some (AVAILABLE_LOOPS ! 0)\<rparr>,
         \<lparr>random = sconst (3 / 4), lastHandle = 0, pending = []\<rparr>)))
       = [\<lparr>gen = Kick, vtime = 1, dest = InputGain\<rparr>, \<lparr>gen = Snare, vtime = 1, dest = InputGain\<rparr>]
   \<and> \<not> isDogMode (new_LoopChannel\<lparr>currentLoop := Some (AVAILABLE_LOOPS ! 6)\<rparr>)
   \<and> loop_id (AVAILABLE_LOOPS ! 6) = ''perc_glitch''
   \<and> voices (fst (schedule 20 1 (new_LoopChannel\<lparr>currentLoop := Some (AVAILABLE_LOOPS ! 6)\<rparr>,
         \<lparr>random = sconst (3 / 4), lastHandle = 0, pending = []\<rparr>)))
       = [\<lparr>gen = Perc, vtime = 1, dest = InputGain\<rparr>]"
proof -
  let ?w = "\<lparr>random = sconst (3 / 4), lastHandle = 0, pending = []\<rparr>"
  have d: "\<not> isDogMode new_LoopChannel" "currentLoop new_LoopChannel = None"
    "voices new_LoopChannel = []"
    by (simp_all add: new_LoopChannel_def)
  have i: "loop_id (AVAILABLE_LOOPS ! 0) = ''drum_house''"
    "loop_id (AVAILABLE_LOOPS ! 6) = ''perc_glitch''"
    by (simp_all add: AVAILABLE_LOOPS_def)
  have p: "spec_pattern ''drum_house'' 4 = [Kick, Snare]"
    by (simp add: spec_pattern_def)
  note w1 = schedule_follows_loop_rule [where ch = new_LoopChannel and beat = 20 and time = 1
      and w = ?w]
  note w2 = schedule_follows_loop_rule [where
      ch = "new_LoopChannel\<lparr>currentLoop := Some (AVAILABLE_LOOPS ! 0)\<rparr>" and beat = 20
      and time = 1 and w = ?w]
  note w3 = schedule_follows_loop_rule [where
      ch = "new_LoopChannel\<lparr>currentLoop := Some (AVAILABLE_LOOPS ! 6)\<rparr>" and beat = 20
      and time = 1 and w = ?w]
  have "schedule 20 1 (new_LoopChannel, ?w) = (new_LoopChannel, ?w)"
    using w1 d by simp
  moreover have "voices (fst (schedule 20 1
      (new_LoopChannel\<lparr>currentLoop := Some (AVAILABLE_LOOPS ! 0)\<rparr>, ?w)))
       = [\<lparr>gen = Kick, vtime = 1, dest = InputGain\<rparr>, \<lparr>gen = Snare, vtime = 1, dest = InputGain\<rparr>]"
    using w2 d i(1) by (simp add: p)
  moreover have "voices (fst (schedule 20 1
      (new_LoopChannel\<lparr>currentLoop := Some (AVAILABLE_LOOPS ! 6)\<rparr>, ?w)))
       = [\<lparr>gen = Perc, vtime = 1, dest = InputGain\<rparr>]"
    using w3 d i(2) by simp
  ultimately show ?thesis
    using d i by simp
qed

section \<open>Override mode\<close>

lemma masterOutput_feeds:
  "feeds a b \<Longrightarrow> a \<in> {MasterOutput, Destination} \<Longrightarrow> b \<in> {MasterOutput, Destination}"
proof (induction rule: feeds.induct)
  case (feeds_refl a)
  then show ?case .
next
  case (feeds_step a b c)
  from feeds_step.hyps(1) feeds_step.prems have "b = Destination"
    by (auto simp add: connections_def)
  with feeds_step.IH show ?case by simp
qed

lemma masterOutput_reaches: "{n. feeds MasterOutput n} = {MasterOutput, Destination}"
proof
  show "{n. feeds MasterOutput n} \<subseteq> {MasterOutput, Destination}"
    using masterOutput_feeds [of MasterOutput] by blast
  have "feeds MasterOutput MasterOutput"
    by (rule feeds_refl)
  moreover have "feeds MasterOutput Destination"
    by (rule feeds_step [of MasterOutput Destination]) (simp_all add: connections_def feeds_refl)
  ultimately show "{MasterOutput, Destination} \<subseteq> {n. feeds MasterOutput n}"
    by simp
qed

lemma inputGain_reaches:
  "feeds InputGain FilterNode" "feeds InputGain DelayNode" "feeds InputGain ReverbNode"
  "feeds InputGain RotationFilterNode" "feeds InputGain GainNode" "feeds InputGain PresenceGain"
proof -
  have e: "feeds PresenceGain PresenceGain" by (rule feeds_refl)
  have g: "feeds GainNode PresenceGain"
    by (rule feeds_step [OF _ e]) (simp add: connections_def)
  have r: "feeds RotationFilterNode PresenceGain"
    by (rule feeds_step [OF _ g]) (simp add: connections_def)
  have f: "feeds FilterNode PresenceGain"
    by (rule feeds_step [OF _ r]) (simp add: connections_def)
  show "feeds InputGain PresenceGain"
    by (rule feeds_step [OF _ f]) (simp add: connections_def)
  have "feeds FilterNode GainNode"
    by (rule feeds_step [of _ RotationFilterNode], simp add: connections_def,
        rule feeds_step [of _ GainNode], simp add: connections_def, rule feeds_refl)
  then show "feeds InputGain GainNode"
    by (rule feeds_step [of _ FilterNode, rotated]) (simp add: connections_def)
  have "feeds FilterNode RotationFilterNode"
    by (rule feeds_step [of _ RotationFilterNode], simp add: connections_def, rule feeds_refl)
  then show "feeds InputGain RotationFilterNode"
    by (rule feeds_step [of _ FilterNode, rotated]) (simp add: connections_def)
  have "feeds FilterNode ReverbNode"
    by (rule feeds_step [of _ ReverbNode], simp add: connections_def, rule feeds_refl)
  then show "feeds InputGain ReverbNode"
    by (rule feeds_step [of _ FilterNode, rotated]) (simp add: connections_def)
  have "feeds FilterNode DelayNode"
    by (rule feeds_step [of _ DelayNode], simp add: connections_def, rule feeds_refl)
  then show "feeds InputGain DelayNode"
    by (rule feeds_step [of _ FilterNode, rotated]) (simp add: connections_def)
  show "feeds InputGain FilterNode"
    by (rule feeds_step [of _ FilterNode], simp add: connections_def, rule feeds_refl)
qed

lemma setPresence_override:
  "isDogMode ch \<Longrightarrow> setPresence isPresent t ch
     = ch\<lparr>presenceGain := setTargetAtTime 1 t 0.1 (presenceGain ch)\<rparr>"
  by (simp add: setPresence_def)

lemma setDogMode_activate:
  assumes "\<not> engine_isDogMode eng"
  shows "setDogMode True t eng =
     eng\<lparr>engine_isDogMode := True,
         leftChannel := (leftChannel eng)\<lparr>isDogMode := True,
            presenceGain := setTargetAtTime 1 t 0.1 (presenceGain (leftChannel eng))\<rparr>,
         rightChannel := (rightChannel eng)\<lparr>isDogMode := True,
            presenceGain := setTargetAtTime 1 t 0.1 (presenceGain (rightChannel eng))\<rparr>\<rparr>"
  using assms by (simp add: setDogMode_def setPresence_def Let_def)

text \<open>
  Claim C5. A channel in override mode schedules, whatever its active loop, the
  distorted low-tone voices of \<open>spec_override\<close> and nothing else: one at steps 0, 3
  and 7 with 45 Hz, at step 10 with 55 Hz, at steps 12 and 14 with 35 Hz, none at the
  other steps. The voice is connected to \<^verbatim>\<open>masterOutput\<close>, from where the audio reaches
  the engine's master gain only, hence none of the mappable filter, the delay, the
  reverb, the rotation filter, the volume stage and the presence gate, all of which the
  input of the other generators feeds. Activating override mode on the engine sets the
  flag on both channels and drives both presence gates to 1 with time constant 0.1, and
  in override mode \<^verbatim>\<open>setPresence\<close> drives the gate to 1 whether the hand is present or
  not.
\<close>

theorem override_mode:
  "(isDogMode ch \<longrightarrow>
      schedule beat time (ch, w) =
        (ch\<lparr>voices := voices ch @
            map (\<lambda>f. \<lparr>gen = Distorted808 f, vtime = time, dest = MasterOutput\<rparr>)
              (spec_override (beat mod 16))\<rparr>, w))
   \<and> {n. feeds MasterOutput n} = {MasterOutput, Destination}
   \<and> feeds InputGain FilterNode \<and> feeds InputGain DelayNode \<and> feeds InputGain ReverbNode
   \<and> feeds InputGain RotationFilterNode \<and> feeds InputGain GainNode
   \<and> feeds InputGain PresenceGain
   \<and> (\<not> engine_isDogMode eng \<longrightarrow>
        setDogMode True t eng =
          eng\<lparr>engine_isDogMode := True,
              leftChannel := (leftChannel eng)\<lparr>isDogMode := True,
                 presenceGain := setTargetAtTime 1 t 0.1 (presenceGain (leftChannel eng))\<rparr>,
              rightChannel := (rightChannel eng)\<lparr>isDogMode := True,
                 presenceGain := setTargetAtTime 1 t 0.1 (presenceGain (rightChannel eng))\<rparr>\<rparr>)
   \<and> (isDogMode ch \<longrightarrow>
        setPresence isPresent t ch = ch\<lparr>presenceGain := setTargetAtTime 1 t 0.1 (presenceGain ch)\<rparr>)"
  using schedule_override [of ch beat time w] masterOutput_reaches inputGain_reaches
    setDogMode_activate [of eng t] setPresence_override [of ch isPresent t]
  by blast

theorem override_mode_witness:
  "\<not> engine_isDogMode new_SynthEngine
   \<and> isDogMode (leftChannel (setDogMode True 0 new_SynthEngine))
   \<and> isDogMode (rightChannel (setDogMode True 0 new_SynthEngine))
   \<and> automation (presenceGain (leftChannel (setDogMode True 0 new_SynthEngine)))
       = Some \<lparr>target = 1, startTime = 0, timeConstant = 0.1\<rparr>
   \<and> automation (presenceGain (rightChannel (setDogMode True 0 new_SynthEngine)))
       = Some \<lparr>target = 1, startTime = 0, timeConstant = 0.1\<rparr>
   \<and> isDogMode (new_LoopChannel\<lparr>isDogMode := True, currentLoop := Some (AVAILABLE_LOOPS ! 0)\<rparr>)
   \<and> voices (fst (schedule 26 2
        (new_LoopChannel\<lparr>isDogMode := True, currentLoop := Some (AVAILABLE_LOOPS ! 0)\<rparr>,
         \<lparr>random = sconst (3 / 4), lastHandle = 0, pending = []\<rparr>)))
       = [\<lparr>gen = Distorted808 55, vtime = 2, dest = MasterOutput\<rparr>]
   \<and> voices (fst (schedule 20 2
        (new_LoopChannel\<lparr>isDogMode := True, currentLoop := Some (AVAILABLE_LOOPS ! 0)\<rparr>,
         \<lparr>random = sconst (3 / 4), lastHandle = 0, pending = []\<rparr>))) = []
   \<and> automation (presenceGain (setPresence False 3
        (new_LoopChannel\<lparr>isDogMode := True, currentLoop := Some (AVAILABLE_LOOPS ! 0)\<rparr>)))
       = Some \<lparr>target = 1, startTime = 3, timeConstant = 0.1\<rparr>"
proof -
  let ?w = "\<lparr>random = sconst (3 / 4), lastHandle = 0, pending = []\<rparr>"
  let ?c = "new_LoopChannel\<lparr>isDogMode := True, currentLoop := Some (AVAILABLE_LOOPS ! 0)\<rparr>"
  have e: "\<not> engine_isDogMode new_SynthEngine"
    by (simp add: new_SynthEngine_def)
  have v: "voices new_LoopChannel = []"
    by (simp add: new_LoopChannel_def)
  have s: "spec_override 10 = [55]" "spec_override 4 = []"
    by (simp_all add: spec_override_def)
  note w1 = override_mode [where ch = ?c and beat = 26 and time = 2 and w = ?w
      and eng = new_SynthEngine and t = 0 and isPresent = False]
  note w2 = override_mode [where ch = ?c and beat = 20 and time = 2 and w = ?w
      and eng = new_SynthEngine and t = 3 and isPresent = False]
  show ?thesis
    using e w1 w2 by (simp add: v s)
qed

section \<open>Tempo\<close>

lemma Math_clamp_bpm: "Math_max 40 (Math_min 300 v) = clamp v 40 300"
  by (cases v) (simp_all add: js clamp_def)

lemma clamp_bpm_range: "v \<noteq> NaN \<Longrightarrow> 40 \<le> clamp v 40 300 \<and> clamp v 40 300 \<le> 300"
  by (cases v) (simp_all add: js clamp_def)

lemma handleBpmChange_clamp:
  "handleBpmChange newBpm app =
     app\<lparr>synthRef := map_option (setBpm (clamp newBpm 40 300)) (synthRef app),
         appState_bpm := clamp newBpm 40 300\<rparr>"
  by (simp add: handleBpmChange_def Math_clamp_bpm Let_def)

lemma bpm_onChange_range:
  "40 \<le> appState_bpm (bpm_onChange parsed app) \<and> appState_bpm (bpm_onChange parsed app) \<le> 300"
proof (cases "parsed = 0 \<or> parsed = NaN")
  case True
  then show ?thesis
    by (auto simp add: bpm_onChange_def handleBpmChange_clamp clamp_def js)
next
  case False
  then show ?thesis
    using clamp_bpm_range [of parsed] by (simp add: bpm_onChange_def handleBpmChange_clamp)
qed

lemma bpm_onChange_engine:
  "synthRef app = Some eng \<Longrightarrow>
     synthRef (bpm_onChange parsed app) = Some (setBpm (appState_bpm (bpm_onChange parsed app)) eng)"
  by (simp add: bpm_onChange_def handleBpmChange_clamp)

lemma setBpm_channels:
  "bpm (leftChannel (setBpm b eng)) = b" "bpm (rightChannel (setBpm b eng)) = b"
  "leftChannel (setBpm b eng) = (leftChannel eng)\<lparr>bpm := b\<rparr>"
  "rightChannel (setBpm b eng) = (rightChannel eng)\<lparr>bpm := b\<rparr>"
  by (simp_all add: setBpm_def)

lemma nextNote_fields:
  "nextNoteTime (nextNote ch) = add64 (nextNoteTime ch) (mul64 (div64 60 (bpm ch)) 0.25)"
  "currentStep (nextNote ch) = currentStep ch + 1"
  "voices (nextNote ch) = voices ch"
  "bpm (nextNote ch) = bpm ch"
  "isDogMode (nextNote ch) = isDogMode ch"
  "currentLoop (nextNote ch) = currentLoop ch"
  "isPlaying (nextNote ch) = isPlaying ch"
  by (simp_all add: nextNote_def Let_def)

text \<open>
  Claim C9. Whatever \<^verbatim>\<open>parseInt\<close> makes of the tempo field, the deck's handler leaves a
  tempo in \<open>[40, 300]\<close> in the application state and sets the same on both channels of
  the engine: \<^verbatim>\<open>handleBpmChange\<close> clamps its argument to \<open>[40, 300]\<close>, and the one value
  the clamp hands through, \<^verbatim>\<open>NaN\<close>, the handler has replaced by 128. \<^verbatim>\<open>setBpm\<close>
  changes the \<open>bpm\<close> field of the two channels and nothing else, so the next note
  time, the step counter and the voices already scheduled stay; the next step after it
  is \<open>60 / bpm \<sqdot> 0.25\<close> of the new tempo later, in the arithmetic of doubles.
\<close>

theorem tempo_is_clamped:
  "40 \<le> appState_bpm (bpm_onChange parsed app) \<and> appState_bpm (bpm_onChange parsed app) \<le> 300
   \<and> (synthRef app = Some eng \<longrightarrow>
        synthRef (bpm_onChange parsed app)
          = Some (setBpm (appState_bpm (bpm_onChange parsed app)) eng))
   \<and> handleBpmChange newBpm app =
        app\<lparr>synthRef := map_option (setBpm (clamp newBpm 40 300)) (synthRef app),
            appState_bpm := clamp newBpm 40 300\<rparr>
   \<and> (newBpm \<noteq> NaN \<longrightarrow> 40 \<le> clamp newBpm 40 300 \<and> clamp newBpm 40 300 \<le> 300)
   \<and> leftChannel (setBpm b eng) = (leftChannel eng)\<lparr>bpm := b\<rparr>
   \<and> rightChannel (setBpm b eng) = (rightChannel eng)\<lparr>bpm := b\<rparr>
   \<and> engine_isDogMode (setBpm b eng) = engine_isDogMode eng
   \<and> nextNoteTime (leftChannel (setBpm b eng)) = nextNoteTime (leftChannel eng)
   \<and> nextNoteTime (rightChannel (setBpm b eng)) = nextNoteTime (rightChannel eng)
   \<and> nextNoteTime (nextNote (leftChannel (setBpm b eng)))
        = add64 (nextNoteTime (leftChannel eng)) (mul64 (div64 60 b) 0.25)
   \<and> nextNoteTime (nextNote (rightChannel (setBpm b eng)))
        = add64 (nextNoteTime (rightChannel eng)) (mul64 (div64 60 b) 0.25)"
  using bpm_onChange_range [of parsed app] bpm_onChange_engine [of app eng parsed]
    handleBpmChange_clamp [of newBpm app] clamp_bpm_range [of newBpm]
  by (simp add: setBpm_channels nextNote_fields) (simp add: setBpm_def)

theorem tempo_is_clamped_witness:
  "synthRef \<lparr>synthRef = Some new_SynthEngine, appState_bpm = 128,
       leftHand_isRotationActive = False, rightHand_isRotationActive = False\<rparr>
     = Some new_SynthEngine
   \<and> appState_bpm (bpm_onChange 1000 \<lparr>synthRef = Some new_SynthEngine, appState_bpm = 128,
       leftHand_isRotationActive = False, rightHand_isRotationActive = False\<rparr>) = 300
   \<and> synthRef (bpm_onChange 1000 \<lparr>synthRef = Some new_SynthEngine, appState_bpm = 128,
       leftHand_isRotationActive = False, rightHand_isRotationActive = False\<rparr>)
       = Some (setBpm 300 new_SynthEngine)
   \<and> (20 :: jsnum) \<noteq> NaN \<and> clamp 20 40 300 = 40
   \<and> nextNoteTime (nextNote (leftChannel (setBpm 120 new_SynthEngine))) = 0.125"
proof -
  let ?a = "\<lparr>synthRef = Some new_SynthEngine, appState_bpm = 128,
       leftHand_isRotationActive = False, rightHand_isRotationActive = False\<rparr>"
  note w = tempo_is_clamped [where parsed = 1000 and app = ?a and eng = new_SynthEngine
      and newBpm = 20 and b = 120]
  have b: "appState_bpm (bpm_onChange 1000 ?a) = 300"
    by (simp add: bpm_onChange_def handleBpmChange_clamp clamp_def js)
  have n: "nextNoteTime (leftChannel new_SynthEngine) = 0"
    by (simp add: new_SynthEngine_def new_LoopChannel_def)
  have c: "clamp 20 40 300 = 40" "(20 :: jsnum) \<noteq> NaN"
    by (simp_all add: clamp_def js)
  have h: "binary64 (1 / 2) = Fin (1 / 2)"
    by (subst binary64_eval [where j = 53]) (simp_all add: round_half_even_def)
  have e: "binary64 (1 / 8) = Fin (1 / 8)"
    by (subst binary64_eval [where j = 55]) (simp_all add: round_half_even_def)
  have k: "add64 0 (mul64 (div64 60 120) 0.25) = 0.125"
    by (simp add: add64_def mul64_def div64_def js h e)
  from w have "synthRef ?a = Some new_SynthEngine \<longrightarrow>
        synthRef (bpm_onChange 1000 ?a)
          = Some (setBpm (appState_bpm (bpm_onChange 1000 ?a)) new_SynthEngine)"
    by (elim conjE)
  then have r1: "synthRef (bpm_onChange 1000 ?a) = Some (setBpm 300 new_SynthEngine)"
    unfolding b by simp
  from w have "nextNoteTime (nextNote (leftChannel (setBpm 120 new_SynthEngine)))
        = add64 (nextNoteTime (leftChannel new_SynthEngine)) (mul64 (div64 60 120) 0.25)"
    by (elim conjE)
  then have r2: "nextNoteTime (nextNote (leftChannel (setBpm 120 new_SynthEngine))) = 0.125"
    unfolding n k .
  show ?thesis
    using b c r1 r2 by simp
qed

section \<open>Sequencer\<close>

lemma schedule_flat:
  "schedule beat time (ch, w) =
    (if isDogMode ch then
       (ch\<lparr>voices := voices ch @
            map (\<lambda>f. \<lparr>gen = Distorted808 f, vtime = time, dest = MasterOutput\<rparr>)
              (spec_override (beat mod 16))\<rparr>, w)
     else case currentLoop ch of
       None \<Rightarrow> (ch, w)
     | Some loop \<Rightarrow>
        if loop_id loop = ''drum_house'' then
          (ch\<lparr>voices := voices ch @ map (\<lambda>g. \<lparr>gen = g, vtime = time, dest = InputGain\<rparr>)
            ((if beat mod 16 mod 4 = 0 then [Kick] else [])
             @ (if beat mod 16 mod 8 = 4 then [Snare] else [])
             @ (if beat mod 16 mod 2 \<noteq> 0 then [HiHat] else []))\<rparr>, w)
        else if loop_id loop = ''drum_break'' then
          (ch\<lparr>voices := voices ch @ map (\<lambda>g. \<lparr>gen = g, vtime = time, dest = InputGain\<rparr>)
            ((if beat mod 16 = 0 \<or> beat mod 16 = 10 then [Kick] else [])
             @ (if beat mod 16 = 4 \<or> beat mod 16 = 12 then [Snare] else [])
             @ (if beat mod 16 mod 2 = 0 then [HiHat] else []))\<rparr>, w)
        else if loop_id loop = ''synth_neon'' then
          (ch\<lparr>voices := voices ch @ map (\<lambda>g. \<lparr>gen = g, vtime = time, dest = InputGain\<rparr>)
            (if beat mod 16 mod 2 = 0
             then [SynthTone ([220, 330, 440, 660] ! ((beat mod 16 div 2) mod 4))] else [])\<rparr>, w)
        else if loop_id loop = ''synth_bass'' then
          (ch\<lparr>voices := voices ch @ map (\<lambda>g. \<lparr>gen = g, vtime = time, dest = InputGain\<rparr>)
            ((if beat mod 16 = 0 \<or> beat mod 16 = 8 then [SynthTone 55] else [])
             @ (if beat mod 16 = 3 \<or> beat mod 16 = 11 then [SynthTone 110] else []))\<rparr>, w)
        else if startsWith (loop_id loop) ''amb'' then
          (ch\<lparr>voices := voices ch @ map (\<lambda>g. \<lparr>gen = g, vtime = time, dest = InputGain\<rparr>)
            (if beat mod 16 = 0
             then [AmbientPad (if loop_id loop = ''amb_space'' then 110 else 164.8)] else [])\<rparr>, w)
        else if startsWith (loop_id loop) ''perc'' then
          (if 0.5 < shd (random w) then (playPerc time ch, w\<lparr>random := stl (random w)\<rparr>)
           else (ch, w\<lparr>random := stl (random w)\<rparr>))
        else (ch, w))"
  unfolding schedule_def drum_voices bass_voices neon_voices pad_voices spec_override_code
  by (simp only: Let_def prod.case)

lemma schedule_frame:
  "\<exists>vs r. schedule beat time (ch, w) = (ch\<lparr>voices := voices ch @ vs\<rparr>, w\<lparr>random := r\<rparr>)"
proof -
  define Q where "Q p \<longleftrightarrow> (\<exists>vs r. p = (ch\<lparr>voices := voices ch @ vs\<rparr>, w\<lparr>random := r\<rparr>))" for p
  have Q_if: "Q (if c then a else b)" if "Q a" "Q b" for c a b
    using that by simp
  have Q_case: "Q (case l of None \<Rightarrow> n | Some x \<Rightarrow> f x)" if "Q n" "\<And>x. Q (f x)" for l n f
    using that by (cases l) simp_all
  have a: "Q (ch\<lparr>voices := voices ch @ xs\<rparr>, w)" for xs
    unfolding Q_def by (rule exI [of _ xs], rule exI [of _ "random w"]) simp
  have b: "Q (ch, w)"
    unfolding Q_def by (rule exI [of _ "[]"], rule exI [of _ "random w"]) simp
  have c: "Q (playPerc time ch, w\<lparr>random := q\<rparr>)" for q
    unfolding Q_def
    by (rule exI [of _ "[\<lparr>gen = Perc, vtime = time, dest = InputGain\<rparr>]"], rule exI [of _ q])
      (simp add: playPerc_def getInputNode_def)
  have d: "Q (ch, w\<lparr>random := q\<rparr>)" for q
    unfolding Q_def by (rule exI [of _ "[]"], rule exI [of _ q]) simp
  have "Q (schedule beat time (ch, w))"
    unfolding schedule_flat by (intro Q_if Q_case a b c d)
  then show ?thesis
    unfolding Q_def .
qed

lemma scheduler_body_eq:
  "\<exists>vs r. scheduler_body (ch, w) =
     (ch\<lparr>voices := voices ch @ vs,
         nextNoteTime := add64 (nextNoteTime ch) (mul64 (div64 60 (bpm ch)) 0.25),
         currentStep := currentStep ch + 1\<rparr>, w\<lparr>random := r\<rparr>)"
proof -
  obtain vs r where
    "schedule (currentStep ch) (nextNoteTime ch) (ch, w)
       = (ch\<lparr>voices := voices ch @ vs\<rparr>, w\<lparr>random := r\<rparr>)"
    using schedule_frame by blast
  then have "scheduler_body (ch, w) =
     (ch\<lparr>voices := voices ch @ vs,
         nextNoteTime := add64 (nextNoteTime ch) (mul64 (div64 60 (bpm ch)) 0.25),
         currentStep := currentStep ch + 1\<rparr>, w\<lparr>random := r\<rparr>)"
    by (simp add: scheduler_body_def nextNote_def Let_def)
  then show ?thesis by blast
qed

lemma scheduler_body_fields:
  "nextNoteTime (fst (scheduler_body s))
     = add64 (nextNoteTime (fst s)) (mul64 (div64 60 (bpm (fst s))) 0.25)"
  "currentStep (fst (scheduler_body s)) = currentStep (fst s) + 1"
  "bpm (fst (scheduler_body s)) = bpm (fst s)"
  "isPlaying (fst (scheduler_body s)) = isPlaying (fst s)"
  "timerID (fst (scheduler_body s)) = timerID (fst s)"
  "isDogMode (fst (scheduler_body s)) = isDogMode (fst s)"
  "currentLoop (fst (scheduler_body s)) = currentLoop (fst s)"
  "pending (snd (scheduler_body s)) = pending (snd s)"
  "lastHandle (snd (scheduler_body s)) = lastHandle (snd s)"
proof -
  obtain ch w where s: "s = (ch, w)" by (cases s)
  obtain vs r where b: "scheduler_body (ch, w) =
     (ch\<lparr>voices := voices ch @ vs,
         nextNoteTime := add64 (nextNoteTime ch) (mul64 (div64 60 (bpm ch)) 0.25),
         currentStep := currentStep ch + 1\<rparr>, w\<lparr>random := r\<rparr>)"
    using scheduler_body_eq by blast
  show "nextNoteTime (fst (scheduler_body s))
     = add64 (nextNoteTime (fst s)) (mul64 (div64 60 (bpm (fst s))) 0.25)"
    "currentStep (fst (scheduler_body s)) = currentStep (fst s) + 1"
    "bpm (fst (scheduler_body s)) = bpm (fst s)"
    "isPlaying (fst (scheduler_body s)) = isPlaying (fst s)"
    "timerID (fst (scheduler_body s)) = timerID (fst s)"
    "isDogMode (fst (scheduler_body s)) = isDogMode (fst s)"
    "currentLoop (fst (scheduler_body s)) = currentLoop (fst s)"
    "pending (snd (scheduler_body s)) = pending (snd s)"
    "lastHandle (snd (scheduler_body s)) = lastHandle (snd s)"
    unfolding s b by simp_all
qed

lemma scheduler_body_silent:
  assumes "currentLoop ch = None" "\<not> isDogMode ch"
  shows "scheduler_body (ch, w) =
     (ch\<lparr>nextNoteTime := add64 (nextNoteTime ch) (mul64 (div64 60 (bpm ch)) 0.25),
         currentStep := currentStep ch + 1\<rparr>, w)"
  using assms by (simp add: scheduler_body_def schedule_no_loop nextNote_def Let_def)

lemma scheduler_body_override:
  assumes "isDogMode ch"
  shows "scheduler_body (ch, w) =
     (ch\<lparr>voices := voices ch @
           map (\<lambda>f. \<lparr>gen = Distorted808 f, vtime = nextNoteTime ch, dest = MasterOutput\<rparr>)
             (spec_override (currentStep ch mod 16)),
         nextNoteTime := add64 (nextNoteTime ch) (mul64 (div64 60 (bpm ch)) 0.25),
         currentStep := currentStep ch + 1\<rparr>, w)"
  using assms by (simp add: scheduler_body_def schedule_override nextNote_def Let_def)

subsection \<open>The clock in doubles\<close>

lemma round64_normal:
  assumes "1 / 2 ^ 10 \<le> r" "r \<le> 2 ^ 42"
  shows "\<exists>y. round64 (Fin r) = Fin y \<and> \<bar>y - r\<bar> \<le> r / 2 ^ 53"
proof -
  have "(0 :: real) \<le> 1 / 2 ^ 10"
    by simp
  with assms(1) have p: "0 \<le> r"
    by (rule order_trans [rotated])
  have "(1 :: real) / 2 ^ 1022 \<le> 1 / 2 ^ 10"
    by (intro divide_left_mono power_increasing) simp_all
  with assms(1) have "1 / 2 ^ 1022 \<le> r"
    by (rule order_trans [rotated])
  then have a: "1 / 2 ^ 1022 \<le> \<bar>r\<bar>"
    using p by (simp only: abs_of_nonneg)
  have "(2 :: real) ^ 42 \<le> 2 ^ 1023"
    by (intro power_increasing) simp_all
  with assms(2) have "r \<le> 2 ^ 1023"
    by (rule order_trans)
  then have b: "\<bar>r\<bar> \<le> 2 ^ 1023"
    using p by (simp only: abs_of_nonneg)
  from binary64_error [OF a b] p show ?thesis
    by (simp only: abs_of_nonneg round64.simps)
qed

lemma two_roundings:
  fixes d y q A B :: real
  assumes "\<bar>y - q\<bar> \<le> B" "\<bar>d - y / 4\<bar> \<le> A / 4" "A \<le> 2 * B"
  shows "\<bar>d - q / 4\<bar> \<le> B"
  using assms by linarith

lemma step_duration:
  assumes "40 \<le> b" "b \<le> 300"
  shows "\<exists>d. mul64 (div64 60 (Fin b)) 0.25 = Fin d
           \<and> \<bar>d - 60 / (b * 4)\<bar> \<le> 60 / (b * 4) / 2 ^ 51 \<and> 1 / 25 \<le> d \<and> d \<le> 2 / 5"
proof -
  define e :: real where "e = 1 / 2 ^ 53"
  define q where "q = 60 / b"
  have e: "0 \<le> e" "e \<le> 1 / 1000"
    unfolding e_def by simp_all
  have q: "1 / 5 \<le> q" "q \<le> 3 / 2"
    unfolding q_def using assms by (simp_all add: field_simps)
  have qe: "0 \<le> q * e" "q * e \<le> 3 / 2000"
    using q e by (simp, intro order_trans [OF mult_mono [of q "3 / 2" e "1 / 1000"]]) simp_all
  have "1 / 2 ^ 10 \<le> q" "q \<le> 2 ^ 42"
    using q by simp_all
  from round64_normal [OF this] obtain y where
    y: "round64 (Fin q) = Fin y" "\<bar>y - q\<bar> \<le> q * e"
    unfolding e_def by auto
  from y(2) q qe have yb: "1 / 6 \<le> y" "y \<le> 2" "y \<le> 2 * q"
    by linarith+
  have "1 / 2 ^ 10 \<le> y / 4" "y / 4 \<le> 2 ^ 42"
    using yb by simp_all
  from round64_normal [OF this] obtain d where
    d: "round64 (Fin (y / 4)) = Fin d" "\<bar>d - y / 4\<bar> \<le> y * e / 4"
    unfolding e_def by auto
  have "y * e \<le> 2 * q * e"
    using yb(3) e(1) by (rule mult_right_mono)
  then have "y * e \<le> 2 * (q * e)"
    by simp
  with y(2) d(2) have c: "\<bar>d - q / 4\<bar> \<le> q * e"
    by (rule two_roundings)
  have "q * e = 60 / (b * 4) / 2 ^ 51"
    unfolding q_def e_def by simp
  with c have t: "\<bar>d - 60 / (b * 4)\<bar> \<le> 60 / (b * 4) / 2 ^ 51"
    unfolding q_def by simp
  from c q qe have r: "1 / 25 \<le> d" "d \<le> 2 / 5"
    by linarith+
  have b: "b \<noteq> 0"
    using assms by simp
  have "mul64 (div64 60 (Fin b)) 0.25 = Fin d"
    using b y(1) d(1) by (simp add: mul64_def div64_def js q_def)
  with t r show ?thesis
    by blast
qed

lemma add64_progress:
  assumes "0 \<le> t" "t \<le> 2 ^ 41" "1 / 25 \<le> d" "d \<le> 2 / 5"
  shows "\<exists>t'. add64 (Fin t) (Fin d) = Fin t' \<and> t + 1 / 50 \<le> t'
           \<and> \<bar>t' - (t + d)\<bar> \<le> (t + d) / 2 ^ 53"
proof -
  have "1 / 2 ^ 10 \<le> t + d" "t + d \<le> 2 ^ 42"
    using assms by simp_all
  from round64_normal [OF this] obtain t' where
    t': "round64 (Fin (t + d)) = Fin t'" "\<bar>t' - (t + d)\<bar> \<le> (t + d) / 2 ^ 53"
    by auto
  define E where "E = (t + d) / 2 ^ 53"
  have "E \<le> 2 ^ 42 / 2 ^ 53"
    unfolding E_def using \<open>t + d \<le> 2 ^ 42\<close> by (rule divide_right_mono) simp
  also have "\<dots> \<le> 1 / 50"
    by simp
  finally have "E \<le> 1 / 50" .
  moreover have "\<bar>t' - (t + d)\<bar> \<le> E"
    unfolding E_def by (rule t'(2))
  ultimately have "t + 1 / 50 \<le> t'"
    using assms(3) by linarith
  with t' show ?thesis
    by (auto simp add: add64_def)
qed

lemma round64_tenth: "round64 0.1 = Fin (3602879701896397 / 36028797018963968)"
  unfolding numeral_jsnum js
  by (simp add: js, subst binary64_eval [where j = 56]) (simp_all add: round_half_even_def)

lemma lookahead_finite:
  assumes "0 \<le> c" "c \<le> 2 ^ 40"
  shows "\<exists>l. add64 (Fin c) (round64 0.1) = Fin l \<and> l \<le> 2 ^ 41"
proof -
  define z :: real where "z = 3602879701896397 / 36028797018963968"
  have z: "1 / 2 ^ 10 \<le> z" "z \<le> 1"
    unfolding z_def by simp_all
  have "1 / 2 ^ 10 \<le> c + z" "c + z \<le> 2 ^ 42"
    using assms z by simp_all
  from round64_normal [OF this] obtain l where
    l: "round64 (Fin (c + z)) = Fin l" "\<bar>l - (c + z)\<bar> \<le> (c + z) / 2 ^ 53"
    by auto
  define E where "E = (c + z) / 2 ^ 53"
  have "E \<le> 2 ^ 42 / 2 ^ 53"
    unfolding E_def using \<open>c + z \<le> 2 ^ 42\<close> by (rule divide_right_mono) simp
  also have "\<dots> \<le> 1"
    by simp
  finally have "E \<le> 1" .
  moreover have "c + z + 1 \<le> 2 ^ 41"
    using assms(2) z(2) by simp
  moreover have "\<bar>l - (c + z)\<bar> \<le> E"
    unfolding E_def by (rule l(2))
  ultimately have "l \<le> 2 ^ 41"
    by linarith
  with l(1) show ?thesis
    by (auto simp add: add64_def round64_tenth z_def)
qed

subsection \<open>The wake\<close>

lemma scheduler_iterate_fields:
  "currentStep (fst ((scheduler_body ^^ k) s)) = currentStep (fst s) + k
    \<and> bpm (fst ((scheduler_body ^^ k) s)) = bpm (fst s)
    \<and> isPlaying (fst ((scheduler_body ^^ k) s)) = isPlaying (fst s)
    \<and> timerID (fst ((scheduler_body ^^ k) s)) = timerID (fst s)
    \<and> isDogMode (fst ((scheduler_body ^^ k) s)) = isDogMode (fst s)
    \<and> currentLoop (fst ((scheduler_body ^^ k) s)) = currentLoop (fst s)
    \<and> pending (snd ((scheduler_body ^^ k) s)) = pending (snd s)
    \<and> lastHandle (snd ((scheduler_body ^^ k) s)) = lastHandle (snd s)"
  by (induction k) (simp_all add: scheduler_body_fields)

text \<open>
  One step of a channel whose tempo lies in \<open>[40, 300]\<close> and whose clock lies in
  \<open>[0, 2 ^ 41]\<close>: the clock stays finite, moves forward, and is the old one plus
  \<open>60 / (bpm \<sqdot> 4)\<close> up to the rounding of the three operations.
\<close>

lemma scheduler_step:
  assumes "bpm (fst s) = Fin b" "40 \<le> b" "b \<le> 300"
    and "nextNoteTime (fst s) = Fin t" "0 \<le> t" "t \<le> 2 ^ 41"
  shows "\<exists>t'. nextNoteTime (fst (scheduler_body s)) = Fin t' \<and> t + 1 / 50 \<le> t'
           \<and> \<bar>t' - (t + 60 / (b * 4))\<bar> \<le> (t + 60 / (b * 4)) / 2 ^ 50"
proof -
  define e :: real where "e = 1 / 2 ^ 53"
  define D where "D = 60 / (b * 4)"
  have e: "0 \<le> e" "e * 4 \<le> 1"
    unfolding e_def by simp_all
  have D: "0 \<le> D"
    unfolding D_def using assms(2) by simp
  from step_duration [OF assms(2,3)] obtain d where
    d: "mul64 (div64 60 (Fin b)) 0.25 = Fin d" "\<bar>d - D\<bar> \<le> D * (e * 4)"
      "1 / 25 \<le> d" "d \<le> 2 / 5"
    unfolding D_def e_def by auto
  from add64_progress [OF assms(5,6) d(3,4)] obtain t' where
    t': "add64 (Fin t) (Fin d) = Fin t'" "t + 1 / 50 \<le> t'" "\<bar>t' - (t + d)\<bar> \<le> (t + d) * e"
    unfolding e_def by auto
  have "D * (e * 4) \<le> D * 1"
    using e(2) D by (rule mult_left_mono)
  with d(2) have "d \<le> 2 * D"
    by linarith
  then have "d * e \<le> 2 * D * e"
    using e(1) by (rule mult_right_mono)
  moreover have "0 \<le> t * e" "0 \<le> D * e"
    using assms(5) D e(1) by simp_all
  moreover have "\<bar>t' - (t + d)\<bar> \<le> t * e + d * e" "\<bar>d - D\<bar> \<le> 4 * (D * e)"
    using t'(3) d(2) by (simp_all add: algebra_simps)
  ultimately have "\<bar>t' - (t + D)\<bar> \<le> 8 * (t * e) + 8 * (D * e)"
    by linarith
  also have "\<dots> = (t + D) / 2 ^ 50"
    unfolding e_def by (simp add: algebra_simps)
  finally have "\<bar>t' - (t + 60 / (b * 4))\<bar> \<le> (t + 60 / (b * 4)) / 2 ^ 50"
    unfolding D_def .
  moreover have "nextNoteTime (fst (scheduler_body s)) = Fin t'"
    using assms(1,4) d(1) t'(1) by (simp add: scheduler_body_fields)
  ultimately show ?thesis
    using t'(2) by blast
qed

text \<open>
  The loop of a wake ends: while the clock is below the horizon \<open>l\<close>, each step moves it
  forward by at least \<open>1 / 50\<close>. It ends after the first \<open>n\<close> steps whose clock is below
  the horizon.
\<close>

lemma scheduler_loop_returns:
  assumes "bpm (fst s) = Fin b" "40 \<le> b" "b \<le> 300"
    and "nextNoteTime (fst s) = Fin t" "0 \<le> t"
    and "add64 now (round64 0.1) = Fin l" "l \<le> 2 ^ 41"
  shows "\<exists>n. scheduler_loop now s = Some ((scheduler_body ^^ n) s)
    \<and> (\<forall>k<n. nextNoteTime (fst ((scheduler_body ^^ k) s)) < Fin l)
    \<and> \<not> nextNoteTime (fst ((scheduler_body ^^ n) s)) < Fin l
    \<and> (\<forall>k<n. \<exists>u u'. nextNoteTime (fst ((scheduler_body ^^ k) s)) = Fin u
          \<and> nextNoteTime (fst ((scheduler_body ^^ Suc k) s)) = Fin u' \<and> u < u'
          \<and> \<bar>u' - (u + 60 / (b * 4))\<bar> \<le> (u + 60 / (b * 4)) / 2 ^ 50)"
  using assms(1,4,5)
proof (induction "nat \<lceil>(l - t) * 50\<rceil>" arbitrary: s t rule: less_induct)
  case less
  show ?case
  proof (cases "t < l")
    case False
    then have "scheduler_loop now s = Some s"
      using less.prems(2) assms(6) by (subst scheduler_loop.simps) simp
    with False less.prems(2) show ?thesis
      by (intro exI [of _ 0]) simp
  next
    case True
    then have "t \<le> 2 ^ 41"
      using assms(7) by simp
    from scheduler_step [OF less.prems(1) assms(2,3) less.prems(2,3) this] obtain t' where
      t': "nextNoteTime (fst (scheduler_body s)) = Fin t'" "t + 1 / 50 \<le> t'"
        "\<bar>t' - (t + 60 / (b * 4))\<bar> \<le> (t + 60 / (b * 4)) / 2 ^ 50"
      by blast
    have b': "bpm (fst (scheduler_body s)) = Fin b"
      using less.prems(1) by (simp add: scheduler_body_fields)
    have p: "0 \<le> t'"
      using t'(2) less.prems(3) by simp
    have "(l - t') * 50 \<le> (l - t) * 50 - 1"
      using t'(2) by simp
    then have "\<lceil>(l - t') * 50\<rceil> \<le> \<lceil>(l - t) * 50 - 1\<rceil>"
      by (rule ceiling_mono)
    moreover have "0 < \<lceil>(l - t) * 50\<rceil>"
      using True by simp
    ultimately have m: "nat \<lceil>(l - t') * 50\<rceil> < nat \<lceil>(l - t) * 50\<rceil>"
      by simp
    from less.hyps [OF m b' t'(1) p] obtain n where
      n: "scheduler_loop now (scheduler_body s) = Some ((scheduler_body ^^ n) (scheduler_body s))"
        "\<forall>k<n. nextNoteTime (fst ((scheduler_body ^^ k) (scheduler_body s))) < Fin l"
        "\<not> nextNoteTime (fst ((scheduler_body ^^ n) (scheduler_body s))) < Fin l"
        "\<forall>k<n. \<exists>u u'. nextNoteTime (fst ((scheduler_body ^^ k) (scheduler_body s))) = Fin u
          \<and> nextNoteTime (fst ((scheduler_body ^^ Suc k) (scheduler_body s))) = Fin u' \<and> u < u'
          \<and> \<bar>u' - (u + 60 / (b * 4))\<bar> \<le> (u + 60 / (b * 4)) / 2 ^ 50"
      by blast
    have sw: "(scheduler_body ^^ k) (scheduler_body s) = (scheduler_body ^^ Suc k) s" for k
      by (simp add: funpow_swap1)
    have "scheduler_loop now s = scheduler_loop now (scheduler_body s)"
      using True less.prems(2) assms(6) by (subst scheduler_loop.simps) simp
    then have 1: "scheduler_loop now s = Some ((scheduler_body ^^ Suc n) s)"
      unfolding n(1) sw .
    have 2: "\<forall>k<Suc n. nextNoteTime (fst ((scheduler_body ^^ k) s)) < Fin l"
    proof (intro allI impI)
      fix k assume k: "k < Suc n"
      show "nextNoteTime (fst ((scheduler_body ^^ k) s)) < Fin l"
      proof (cases k)
        case 0
        with True less.prems(2) show ?thesis by simp
      next
        case (Suc j)
        with k n(2) have "nextNoteTime (fst ((scheduler_body ^^ j) (scheduler_body s))) < Fin l"
          by simp
        then show ?thesis
          unfolding sw Suc .
      qed
    qed
    have 3: "\<not> nextNoteTime (fst ((scheduler_body ^^ Suc n) s)) < Fin l"
      using n(3) unfolding sw .
    have 4: "\<forall>k<Suc n. \<exists>u u'. nextNoteTime (fst ((scheduler_body ^^ k) s)) = Fin u
          \<and> nextNoteTime (fst ((scheduler_body ^^ Suc k) s)) = Fin u' \<and> u < u'
          \<and> \<bar>u' - (u + 60 / (b * 4))\<bar> \<le> (u + 60 / (b * 4)) / 2 ^ 50"
    proof (intro allI impI)
      fix k assume k: "k < Suc n"
      show "\<exists>u u'. nextNoteTime (fst ((scheduler_body ^^ k) s)) = Fin u
          \<and> nextNoteTime (fst ((scheduler_body ^^ Suc k) s)) = Fin u' \<and> u < u'
          \<and> \<bar>u' - (u + 60 / (b * 4))\<bar> \<le> (u + 60 / (b * 4)) / 2 ^ 50"
      proof (cases k)
        case 0
        have "t < t'"
          using t'(2) by simp
        with less.prems(2) t'(1,3) show ?thesis
          unfolding 0 by (intro exI [of _ t] exI [of _ t']) simp
      next
        case (Suc j)
        with k n(4) have "\<exists>u u'. nextNoteTime (fst ((scheduler_body ^^ j) (scheduler_body s))) = Fin u
          \<and> nextNoteTime (fst ((scheduler_body ^^ Suc j) (scheduler_body s))) = Fin u' \<and> u < u'
          \<and> \<bar>u' - (u + 60 / (b * 4))\<bar> \<le> (u + 60 / (b * 4)) / 2 ^ 50"
          by simp
        then show ?thesis
          unfolding sw Suc .
      qed
    qed
    from 1 2 3 4 show ?thesis
      by blast
  qed
qed

lemma scheduler_loop_frame:
  assumes "scheduler_loop now s = Some s'"
  shows "isPlaying (fst s') = isPlaying (fst s) \<and> timerID (fst s') = timerID (fst s)
    \<and> isDogMode (fst s') = isDogMode (fst s) \<and> currentLoop (fst s') = currentLoop (fst s)
    \<and> bpm (fst s') = bpm (fst s)
    \<and> pending (snd s') = pending (snd s) \<and> lastHandle (snd s') = lastHandle (snd s)"
proof (rule scheduler_loop.raw_induct [where P = "\<lambda>now s s'.
    isPlaying (fst s') = isPlaying (fst s) \<and> timerID (fst s') = timerID (fst s)
    \<and> isDogMode (fst s') = isDogMode (fst s) \<and> currentLoop (fst s') = currentLoop (fst s)
    \<and> bpm (fst s') = bpm (fst s)
    \<and> pending (snd s') = pending (snd s) \<and> lastHandle (snd s') = lastHandle (snd s)",
    OF _ assms])
  fix loop :: "jsnum \<Rightarrow> LoopChannel \<times> window \<Rightarrow> (LoopChannel \<times> window) option"
    and now s s'
  assume IH: "\<And>now s y. loop now s = Some y \<Longrightarrow>
    isPlaying (fst y) = isPlaying (fst s) \<and> timerID (fst y) = timerID (fst s)
    \<and> isDogMode (fst y) = isDogMode (fst s) \<and> currentLoop (fst y) = currentLoop (fst s)
    \<and> bpm (fst y) = bpm (fst s)
    \<and> pending (snd y) = pending (snd s) \<and> lastHandle (snd y) = lastHandle (snd s)"
    and eq: "(if nextNoteTime (fst s) < add64 now (round64 0.1) then loop now (scheduler_body s)
              else Some s) = Some s'"
  show "isPlaying (fst s') = isPlaying (fst s) \<and> timerID (fst s') = timerID (fst s)
    \<and> isDogMode (fst s') = isDogMode (fst s) \<and> currentLoop (fst s') = currentLoop (fst s)
    \<and> bpm (fst s') = bpm (fst s)
    \<and> pending (snd s') = pending (snd s) \<and> lastHandle (snd s') = lastHandle (snd s)"
  proof (cases "nextNoteTime (fst s) < add64 now (round64 0.1)")
    case True
    with eq have "loop now (scheduler_body s) = Some s'"
      by simp
    from IH [OF this] show ?thesis
      by (simp add: scheduler_body_fields)
  next
    case False
    with eq show ?thesis by simp
  qed
qed

lemma scheduler_returns:
  assumes "bpm ch = Fin b" "40 \<le> b" "b \<le> 300" "nextNoteTime ch = Fin t" "0 \<le> t"
    and "0 \<le> c" "c \<le> 2 ^ 40"
  shows "\<exists>n. scheduler (Fin c) (ch, w) =
       Some (let (ch', w') = (scheduler_body ^^ n) (ch, w)
             in if isPlaying ch
                then (ch'\<lparr>timerID := Some (Suc (lastHandle w))\<rparr>,
                      w'\<lparr>lastHandle := Suc (lastHandle w),
                         pending := pending w @ [(Suc (lastHandle w), 25)]\<rparr>)
                else (ch', w'))
    \<and> (\<forall>k<n. nextNoteTime (fst ((scheduler_body ^^ k) (ch, w))) < add64 (Fin c) (round64 0.1))
    \<and> \<not> nextNoteTime (fst ((scheduler_body ^^ n) (ch, w))) < add64 (Fin c) (round64 0.1)
    \<and> (\<forall>k<n. \<exists>u u'. nextNoteTime (fst ((scheduler_body ^^ k) (ch, w))) = Fin u
          \<and> nextNoteTime (fst ((scheduler_body ^^ Suc k) (ch, w))) = Fin u' \<and> u < u'
          \<and> \<bar>u' - (u + 60 / (b * 4))\<bar> \<le> (u + 60 / (b * 4)) / 2 ^ 50)"
proof -
  from lookahead_finite [OF assms(6,7)] obtain l where
    l: "add64 (Fin c) (round64 0.1) = Fin l" "l \<le> 2 ^ 41"
    by blast
  have 1: "bpm (fst (ch, w)) = Fin b" and 4: "nextNoteTime (fst (ch, w)) = Fin t"
    using assms(1,4) by simp_all
  from scheduler_loop_returns [OF 1 assms(2,3) 4 assms(5) l] obtain n where
    n: "scheduler_loop (Fin c) (ch, w) = Some ((scheduler_body ^^ n) (ch, w))"
      "\<forall>k<n. nextNoteTime (fst ((scheduler_body ^^ k) (ch, w))) < Fin l"
      "\<not> nextNoteTime (fst ((scheduler_body ^^ n) (ch, w))) < Fin l"
      "\<forall>k<n. \<exists>u u'. nextNoteTime (fst ((scheduler_body ^^ k) (ch, w))) = Fin u
          \<and> nextNoteTime (fst ((scheduler_body ^^ Suc k) (ch, w))) = Fin u' \<and> u < u'
          \<and> \<bar>u' - (u + 60 / (b * 4))\<bar> \<le> (u + 60 / (b * 4)) / 2 ^ 50"
    by blast
  let ?r = "(scheduler_body ^^ n) (ch, w)"
  from scheduler_loop_frame [OF n(1)]
  have f: "isPlaying (fst ?r) = isPlaying ch" "pending (snd ?r) = pending w"
    "lastHandle (snd ?r) = lastHandle w"
    by simp_all
  have "scheduler (Fin c) (ch, w) =
       Some (let (ch', w') = ?r
             in if isPlaying ch
                then (ch'\<lparr>timerID := Some (Suc (lastHandle w))\<rparr>,
                      w'\<lparr>lastHandle := Suc (lastHandle w),
                         pending := pending w @ [(Suc (lastHandle w), 25)]\<rparr>)
                else (ch', w'))"
    unfolding scheduler_def n(1)
    by (cases ?r) (use f in \<open>simp add: setTimeout_def Let_def\<close>)
  with n(2,3,4) show ?thesis
    unfolding l(1) by blast
qed

lemma jsnum_less_irrefl: "\<not> (a :: jsnum) < a"
  by (cases a) simp_all

lemma start_playing: "isPlaying ch \<Longrightarrow> start now (ch, w) = Some (ch, w)"
  by (simp add: start_def)

lemma start_stopped:
  assumes "\<not> isPlaying ch"
  shows "start now (ch, w) =
     Some (ch\<lparr>isPlaying := True, nextNoteTime := add64 now (round64 0.1), currentStep := 0,
              timerID := Some (Suc (lastHandle w))\<rparr>,
           w\<lparr>lastHandle := Suc (lastHandle w), pending := pending w @ [(Suc (lastHandle w), 25)]\<rparr>)"
proof -
  let ?c = "ch\<lparr>isPlaying := True, nextNoteTime := add64 now (round64 0.1), currentStep := 0\<rparr>"
  have "scheduler_loop now (?c, w) = Some (?c, w)"
    by (subst scheduler_loop.simps) (simp add: jsnum_less_irrefl)
  then have "scheduler now (?c, w) =
     Some (?c\<lparr>timerID := Some (Suc (lastHandle w))\<rparr>,
           w\<lparr>lastHandle := Suc (lastHandle w), pending := pending w @ [(Suc (lastHandle w), 25)]\<rparr>)"
    by (simp add: scheduler_def setTimeout_def Let_def)
  with assms show ?thesis
    by (simp add: start_def)
qed

lemma wake_inv_pair:
  "wake_inv (ch, w) \<longleftrightarrow>
     distinct (map fst (pending w))
     \<and> (\<forall>h \<in> fst ` set (pending w). timerID ch = Some h \<and> h \<noteq> 0 \<and> isPlaying ch)"
  by (simp add: wake_inv_def)

lemma wake_inv_clear:
  assumes "wake_inv (ch, w)" "timerID ch = Some h"
  shows "filter (\<lambda>p. fst p \<noteq> h) (pending w) = []"
  using assms by (auto simp add: wake_inv_pair filter_empty_conv)

lemma wake_inv_none:
  assumes "wake_inv (ch, w)" "timerID ch = None \<or> timerID ch = Some 0 \<or> \<not> isPlaying ch"
  shows "pending w = []"
proof (cases "pending w")
  case Nil
  then show ?thesis .
next
  case (Cons p ps)
  then have "fst p \<in> fst ` set (pending w)"
    by simp
  with assms show ?thesis
    by (auto simp add: wake_inv_pair)
qed

lemma stop_cancels:
  assumes "wake_inv (ch, w)"
  shows "stop (ch, w) = (ch\<lparr>isPlaying := False\<rparr>, w\<lparr>pending := []\<rparr>)"
proof (cases "timerID ch")
  case None
  with assms wake_inv_none [of ch w] show ?thesis
    by (simp add: stop_def)
next
  case (Some h)
  show ?thesis
  proof (cases "h = 0")
    case True
    with Some assms wake_inv_none [of ch w] show ?thesis
      by (simp add: stop_def)
  next
    case False
    with Some wake_inv_clear [OF assms Some] show ?thesis
      by (simp add: stop_def clearTimeout_def)
  qed
qed

lemma timeout_fires_not_pending:
  "h \<notin> fst ` set (pending w) \<Longrightarrow> timeout_fires h now (ch, w) = Some (ch, w)"
  by (simp add: timeout_fires_def)

lemma scheduler_wake_inv:
  assumes "scheduler now (ch, w) = Some s'" "pending w = []"
  shows "wake_inv s'"
proof -
  from assms(1) obtain ch1 w1 where l: "scheduler_loop now (ch, w) = Some (ch1, w1)"
    by (auto simp add: scheduler_def split: option.splits)
  from scheduler_loop_frame [OF l] assms(2) have f: "pending w1 = []"
    by simp
  from assms(1) show ?thesis
    unfolding scheduler_def l
    by (auto simp add: wake_inv_pair setTimeout_def Let_def f split: if_splits)
qed

lemma start_wake_inv:
  assumes "wake_inv s" "start now s = Some s'"
  shows "wake_inv s'"
proof -
  obtain ch w where s: "s = (ch, w)" by (cases s)
  show ?thesis
  proof (cases "isPlaying ch")
    case True
    with assms show ?thesis
      by (simp add: s start_def)
  next
    case False
    with assms(1) have "pending w = []"
      using wake_inv_none [of ch w] by (simp add: s)
    with assms(2) False show ?thesis
      by (auto simp add: s start_def intro: scheduler_wake_inv)
  qed
qed

lemma timeout_fires_wake_inv:
  assumes "wake_inv s" "timeout_fires h now s = Some s'"
  shows "wake_inv s'"
proof -
  obtain ch w where s: "s = (ch, w)" by (cases s)
  show ?thesis
  proof (cases "h \<in> fst ` set (pending w)")
    case False
    with assms show ?thesis
      by (simp add: s timeout_fires_def)
  next
    case True
    with assms(1) have "timerID ch = Some h"
      by (auto simp add: s wake_inv_pair)
    with assms(1) have "pending (clearTimeout h w) = []"
      using wake_inv_clear [of ch w h] by (simp add: s clearTimeout_def)
    moreover from assms(2) True have "scheduler now (ch, clearTimeout h w) = Some s'"
      by (simp add: s timeout_fires_def)
    ultimately show ?thesis
      by (rule scheduler_wake_inv [rotated])
  qed
qed

lemma stop_wake_inv: "wake_inv s \<Longrightarrow> wake_inv (stop s)"
  by (cases s) (simp add: stop_cancels wake_inv_pair)

lemma scheduler_body_dispatch:
  "(scheduler_body ^^ Suc k) (ch, w) =
     (let (ch', w') = schedule (currentStep ch + k)
                        (nextNoteTime (fst ((scheduler_body ^^ k) (ch, w))))
                        ((scheduler_body ^^ k) (ch, w))
      in (nextNote ch', w'))"
    "currentStep (fst ((scheduler_body ^^ k) (ch, w))) = currentStep ch + k"
    "nextNoteTime (fst ((scheduler_body ^^ Suc k) (ch, w)))
      = add64 (nextNoteTime (fst ((scheduler_body ^^ k) (ch, w))))
          (mul64 (div64 60 (bpm ch)) 0.25)"
proof -
  note f = scheduler_iterate_fields [of k "(ch, w)"]
  from f show "currentStep (fst ((scheduler_body ^^ k) (ch, w))) = currentStep ch + k"
    by simp
  then show "(scheduler_body ^^ Suc k) (ch, w) =
     (let (ch', w') = schedule (currentStep ch + k)
                        (nextNoteTime (fst ((scheduler_body ^^ k) (ch, w))))
                        ((scheduler_body ^^ k) (ch, w))
      in (nextNote ch', w'))"
    by (simp add: scheduler_body_def)
  from f show "nextNoteTime (fst ((scheduler_body ^^ Suc k) (ch, w)))
      = add64 (nextNoteTime (fst ((scheduler_body ^^ k) (ch, w))))
          (mul64 (div64 60 (bpm ch)) 0.25)"
    by (simp add: scheduler_body_fields)
qed

text \<open>
  Claim C3. The tempo of a channel is 128 or a value that \<^verbatim>\<open>handleBpmChange\<close> has
  clamped, so it lies in \<open>[40, 300]\<close>; the clock of the audio context and the next note
  time are not negative, and the clock is taken below \<open>2 ^ 40\<close> seconds. The arithmetic
  is that of doubles. A wake at time \<open>c\<close> then returns, after running the loop body
  some \<open>n\<close> times: each of the first \<open>n\<close> steps has its time below the horizon
  \<open>c + 0.1\<close>, and the next one has not; each of them moves the next note time forward,
  by \<open>60 / (bpm \<sqdot> 4)\<close> up to the rounding (a relative \<open>1 / 2 ^ 50\<close>); while playing,
  the wake then sets one timeout of 25 ms and keeps its handle. Whatever the tempo, the
  \<open>k\<close>-th run of the body dispatches step \<open>currentStep + k\<close> at the next note time it
  finds, adds \<open>60 / bpm \<sqdot> 0.25\<close> to the next note time and 1 to the step counter.
  \<^verbatim>\<open>start\<close> on a stopped channel sets the next note time to \<open>now + 0.1\<close>, the step
  counter to 0, dispatches nothing and sets the first timeout; on a playing channel it
  changes nothing. \<^verbatim>\<open>stop\<close> clears the pending timeout, so that none is left and a
  timeout firing afterwards runs nothing; this rests on \<open>wake_inv\<close>, which holds when
  no timeout is pending and which \<^verbatim>\<open>start\<close>, \<^verbatim>\<open>stop\<close> and every wake keep.
\<close>

theorem scheduler_wake:
  "(bpm ch = Fin b \<and> 40 \<le> b \<and> b \<le> 300 \<and> nextNoteTime ch = Fin t \<and> 0 \<le> t
      \<and> 0 \<le> c \<and> c \<le> 2 ^ 40 \<longrightarrow>
      (\<exists>n. scheduler (Fin c) (ch, w) =
             Some (let (ch', w') = (scheduler_body ^^ n) (ch, w)
                   in if isPlaying ch
                      then (ch'\<lparr>timerID := Some (Suc (lastHandle w))\<rparr>,
                            w'\<lparr>lastHandle := Suc (lastHandle w),
                               pending := pending w @ [(Suc (lastHandle w), 25)]\<rparr>)
                      else (ch', w'))
         \<and> (\<forall>k<n. nextNoteTime (fst ((scheduler_body ^^ k) (ch, w)))
                      < add64 (Fin c) (round64 0.1))
         \<and> \<not> nextNoteTime (fst ((scheduler_body ^^ n) (ch, w))) < add64 (Fin c) (round64 0.1)
         \<and> (\<forall>k<n. \<exists>u u'. nextNoteTime (fst ((scheduler_body ^^ k) (ch, w))) = Fin u
               \<and> nextNoteTime (fst ((scheduler_body ^^ Suc k) (ch, w))) = Fin u' \<and> u < u'
               \<and> \<bar>u' - (u + 60 / (b * 4))\<bar> \<le> (u + 60 / (b * 4)) / 2 ^ 50)))
   \<and> (\<forall>k. (scheduler_body ^^ Suc k) (ch, w) =
             (let (ch', w') = schedule (currentStep ch + k)
                                (nextNoteTime (fst ((scheduler_body ^^ k) (ch, w))))
                                ((scheduler_body ^^ k) (ch, w))
              in (nextNote ch', w'))
           \<and> currentStep (fst ((scheduler_body ^^ k) (ch, w))) = currentStep ch + k
           \<and> nextNoteTime (fst ((scheduler_body ^^ Suc k) (ch, w)))
               = add64 (nextNoteTime (fst ((scheduler_body ^^ k) (ch, w))))
                   (mul64 (div64 60 (bpm ch)) 0.25))
   \<and> (\<not> isPlaying ch \<longrightarrow>
        start now (ch, w) =
          Some (ch\<lparr>isPlaying := True, nextNoteTime := add64 now (round64 0.1), currentStep := 0,
                   timerID := Some (Suc (lastHandle w))\<rparr>,
                w\<lparr>lastHandle := Suc (lastHandle w),
                  pending := pending w @ [(Suc (lastHandle w), 25)]\<rparr>))
   \<and> (isPlaying ch \<longrightarrow> start now (ch, w) = Some (ch, w))
   \<and> (wake_inv (ch, w) \<longrightarrow>
        stop (ch, w) = (ch\<lparr>isPlaying := False\<rparr>, w\<lparr>pending := []\<rparr>)
        \<and> timeout_fires h now (stop (ch, w)) = Some (stop (ch, w))
        \<and> wake_inv (stop (ch, w)))
   \<and> (pending w = [] \<longrightarrow> wake_inv (ch, w))
   \<and> (wake_inv s \<and> start now s = Some s' \<longrightarrow> wake_inv s')
   \<and> (wake_inv s \<and> timeout_fires h now s = Some s' \<longrightarrow> wake_inv s')"
proof (intro conjI impI allI)
  assume "bpm ch = Fin b \<and> 40 \<le> b \<and> b \<le> 300 \<and> nextNoteTime ch = Fin t \<and> 0 \<le> t
      \<and> 0 \<le> c \<and> c \<le> 2 ^ 40"
  then have "bpm ch = Fin b" "40 \<le> b" "b \<le> 300" "nextNoteTime ch = Fin t" "0 \<le> t"
    "0 \<le> c" "c \<le> 2 ^ 40"
    by simp_all
  then show "\<exists>n. scheduler (Fin c) (ch, w) =
             Some (let (ch', w') = (scheduler_body ^^ n) (ch, w)
                   in if isPlaying ch
                      then (ch'\<lparr>timerID := Some (Suc (lastHandle w))\<rparr>,
                            w'\<lparr>lastHandle := Suc (lastHandle w),
                               pending := pending w @ [(Suc (lastHandle w), 25)]\<rparr>)
                      else (ch', w'))
         \<and> (\<forall>k<n. nextNoteTime (fst ((scheduler_body ^^ k) (ch, w)))
                      < add64 (Fin c) (round64 0.1))
         \<and> \<not> nextNoteTime (fst ((scheduler_body ^^ n) (ch, w))) < add64 (Fin c) (round64 0.1)
         \<and> (\<forall>k<n. \<exists>u u'. nextNoteTime (fst ((scheduler_body ^^ k) (ch, w))) = Fin u
               \<and> nextNoteTime (fst ((scheduler_body ^^ Suc k) (ch, w))) = Fin u' \<and> u < u'
               \<and> \<bar>u' - (u + 60 / (b * 4))\<bar> \<le> (u + 60 / (b * 4)) / 2 ^ 50)"
    by (rule scheduler_returns)
next
  fix k
  show "(scheduler_body ^^ Suc k) (ch, w) =
             (let (ch', w') = schedule (currentStep ch + k)
                                (nextNoteTime (fst ((scheduler_body ^^ k) (ch, w))))
                                ((scheduler_body ^^ k) (ch, w))
              in (nextNote ch', w'))"
    and "currentStep (fst ((scheduler_body ^^ k) (ch, w))) = currentStep ch + k"
    and "nextNoteTime (fst ((scheduler_body ^^ Suc k) (ch, w)))
               = add64 (nextNoteTime (fst ((scheduler_body ^^ k) (ch, w))))
                   (mul64 (div64 60 (bpm ch)) 0.25)"
    by (rule scheduler_body_dispatch(1), rule scheduler_body_dispatch(2),
        rule scheduler_body_dispatch(3))
next
  assume "\<not> isPlaying ch"
  then show "start now (ch, w) =
          Some (ch\<lparr>isPlaying := True, nextNoteTime := add64 now (round64 0.1), currentStep := 0,
                   timerID := Some (Suc (lastHandle w))\<rparr>,
                w\<lparr>lastHandle := Suc (lastHandle w),
                  pending := pending w @ [(Suc (lastHandle w), 25)]\<rparr>)"
    by (rule start_stopped)
next
  assume "isPlaying ch"
  then show "start now (ch, w) = Some (ch, w)"
    by (rule start_playing)
next
  assume i: "wake_inv (ch, w)"
  then show "stop (ch, w) = (ch\<lparr>isPlaying := False\<rparr>, w\<lparr>pending := []\<rparr>)"
    by (rule stop_cancels)
  from i show "timeout_fires h now (stop (ch, w)) = Some (stop (ch, w))"
    by (simp add: stop_cancels timeout_fires_not_pending)
  from i show "wake_inv (stop (ch, w))"
    by (rule stop_wake_inv)
next
  assume "pending w = []"
  then show "wake_inv (ch, w)"
    by (simp add: wake_inv_pair)
next
  assume "wake_inv s \<and> start now s = Some s'"
  then show "wake_inv s'"
    by (auto intro: start_wake_inv)
next
  assume "wake_inv s \<and> timeout_fires h now s = Some s'"
  then show "wake_inv s'"
    by (auto intro: timeout_fires_wake_inv)
qed

text \<open>
  The theorem at 75 beats per minute, with the next note time at the double of 0.1 and
  a wake at the double of 0.8: the sums of the doubles are 0.30000000000000004, 0.5,
  0.7 and 0.8999999999999999, below the horizon, the double of 0.9, so that five steps
  are dispatched, where the sums of the reals would give four.
\<close>

theorem scheduler_wake_witness:
  "bpm (new_LoopChannel\<lparr>bpm := Fin 75, isPlaying := True, nextNoteTime := Fin (3602879701896397 / 36028797018963968),
          currentStep := 0, timerID := Some 1\<rparr>) = Fin 75
   \<and> (40 :: real) \<le> 75 \<and> (75 :: real) \<le> 300
   \<and> nextNoteTime (new_LoopChannel\<lparr>bpm := Fin 75, isPlaying := True, nextNoteTime := Fin (3602879701896397 / 36028797018963968),
          currentStep := 0, timerID := Some 1\<rparr>) = Fin (3602879701896397 / 36028797018963968)
   \<and> (0 :: real) \<le> 3602879701896397 / 36028797018963968
   \<and> (0 :: real) \<le> 3602879701896397 / 4503599627370496
   \<and> (3602879701896397 / 4503599627370496 :: real) \<le> 2 ^ 40
   \<and> add64 (Fin (3602879701896397 / 4503599627370496)) (round64 0.1) = Fin (8106479329266893 / 9007199254740992)
   \<and> nextNoteTime (fst ((scheduler_body ^^ 4)
        (new_LoopChannel\<lparr>bpm := Fin 75, isPlaying := True, nextNoteTime := Fin (3602879701896397 / 36028797018963968),
          currentStep := 0, timerID := Some 1\<rparr>,
         \<lparr>random = sconst (3 / 4), lastHandle = 1, pending = []\<rparr>))) = Fin (2026619832316723 / 2251799813685248)
   \<and> scheduler (Fin (3602879701896397 / 4503599627370496))
        (new_LoopChannel\<lparr>bpm := Fin 75, isPlaying := True, nextNoteTime := Fin (3602879701896397 / 36028797018963968),
          currentStep := 0, timerID := Some 1\<rparr>,
         \<lparr>random = sconst (3 / 4), lastHandle = 1, pending = []\<rparr>)
       = Some (new_LoopChannel\<lparr>bpm := Fin 75, isPlaying := True, nextNoteTime := Fin (4953959590107545 / 4503599627370496),
          currentStep := 5, timerID := Some 2\<rparr>,
               \<lparr>random = sconst (3 / 4), lastHandle = 2, pending = [(2, 25)]\<rparr>)
   \<and> \<not> isPlaying new_LoopChannel
   \<and> start 0 (new_LoopChannel, \<lparr>random = sconst (3 / 4), lastHandle = 0, pending = []\<rparr>)
       = Some (new_LoopChannel\<lparr>isPlaying := True, nextNoteTime := Fin (3602879701896397 / 36028797018963968), currentStep := 0,
                 timerID := Some 1\<rparr>,
               \<lparr>random = sconst (3 / 4), lastHandle = 1, pending = [(1, 25)]\<rparr>)
   \<and> isPlaying (new_LoopChannel\<lparr>isPlaying := True, timerID := Some 1\<rparr>)
   \<and> start 5 (new_LoopChannel\<lparr>isPlaying := True, timerID := Some 1\<rparr>,
          \<lparr>random = sconst (3 / 4), lastHandle = 1, pending = [(1, 25)]\<rparr>)
       = Some (new_LoopChannel\<lparr>isPlaying := True, timerID := Some 1\<rparr>,
          \<lparr>random = sconst (3 / 4), lastHandle = 1, pending = [(1, 25)]\<rparr>)
   \<and> wake_inv (new_LoopChannel\<lparr>isPlaying := True, timerID := Some 1\<rparr>,
          \<lparr>random = sconst (3 / 4), lastHandle = 1, pending = [(1, 25)]\<rparr>)
   \<and> stop (new_LoopChannel\<lparr>isPlaying := True, timerID := Some 1\<rparr>,
          \<lparr>random = sconst (3 / 4), lastHandle = 1, pending = [(1, 25)]\<rparr>)
       = ((new_LoopChannel\<lparr>isPlaying := True, timerID := Some 1\<rparr>)\<lparr>isPlaying := False\<rparr>,
          \<lparr>random = sconst (3 / 4), lastHandle = 1, pending = []\<rparr>)
   \<and> timeout_fires 1 9 (stop (new_LoopChannel\<lparr>isPlaying := True, timerID := Some 1\<rparr>,
          \<lparr>random = sconst (3 / 4), lastHandle = 1, pending = [(1, 25)]\<rparr>))
       = Some (stop (new_LoopChannel\<lparr>isPlaying := True, timerID := Some 1\<rparr>,
          \<lparr>random = sconst (3 / 4), lastHandle = 1, pending = [(1, 25)]\<rparr>))
   \<and> wake_inv (new_LoopChannel, \<lparr>random = sconst (3 / 4), lastHandle = 0, pending = []\<rparr>)
   \<and> wake_inv (new_LoopChannel\<lparr>isPlaying := True, nextNoteTime := Fin (3602879701896397 / 36028797018963968), currentStep := 0,
                 timerID := Some 1\<rparr>,
               \<lparr>random = sconst (3 / 4), lastHandle = 1, pending = [(1, 25)]\<rparr>)
   \<and> timeout_fires 7 0 (new_LoopChannel\<lparr>isPlaying := True, timerID := Some 1\<rparr>,
          \<lparr>random = sconst (3 / 4), lastHandle = 1, pending = [(1, 25)]\<rparr>)
       = Some (new_LoopChannel\<lparr>isPlaying := True, timerID := Some 1\<rparr>,
          \<lparr>random = sconst (3 / 4), lastHandle = 1, pending = [(1, 25)]\<rparr>)"
proof -
  let ?w0 = "\<lparr>random = sconst (3 / 4), lastHandle = 0, pending = []\<rparr>"
  let ?w1 = "\<lparr>random = sconst (3 / 4), lastHandle = 1, pending = [(1 :: nat, 25 :: nat)]\<rparr>"
  let ?w2 = "\<lparr>random = sconst (3 / 4), lastHandle = 1, pending = []\<rparr>"
  let ?w3 = "\<lparr>random = sconst (3 / 4), lastHandle = 2, pending = [(2 :: nat, 25 :: nat)]\<rparr>"
  let ?p = "new_LoopChannel\<lparr>isPlaying := True, timerID := Some 1\<rparr>"
  let ?s = "new_LoopChannel\<lparr>isPlaying := True, nextNoteTime := Fin (3602879701896397 / 36028797018963968), currentStep := 0,
                 timerID := Some 1\<rparr>"
  let ?c = "3602879701896397 / 4503599627370496 :: real"
  let ?z = "3602879701896397 / 36028797018963968 :: real"
  define A where "A u k = new_LoopChannel\<lparr>bpm := Fin 75, isPlaying := True, nextNoteTime := Fin u,
          currentStep := k, timerID := Some 1\<rparr>" for u k
  have tenth: "round64 0.1 = Fin ?z"
    by (rule round64_tenth)
  have d1: "div64 60 (Fin 75) = Fin (3602879701896397 / 4503599627370496)"
    by (simp add: div64_def js, subst binary64_eval [where j = 53])
      (simp_all add: round_half_even_def)
  have d: "mul64 (div64 60 (Fin 75)) 0.25 = Fin (3602879701896397 / 18014398509481984)"
    unfolding d1
    by (simp add: mul64_def js, subst binary64_eval [where j = 55])
      (simp_all add: round_half_even_def)
  have l: "add64 (Fin ?c) (round64 0.1) = Fin (8106479329266893 / 9007199254740992)"
    unfolding tenth
    by (simp add: add64_def, subst binary64_eval [where j = 53])
      (simp_all add: round_half_even_def)
  have z0: "add64 0 (Fin ?z) = Fin ?z"
    by (simp add: add64_def js, subst binary64_eval [where j = 56])
      (simp_all add: round_half_even_def)
  have a1: "add64 (Fin (3602879701896397 / 36028797018963968)) (Fin (3602879701896397 / 18014398509481984)) = Fin (1351079888211149 / 4503599627370496)"
    by (simp add: add64_def, subst binary64_eval [where j = 54])
      (simp_all add: round_half_even_def)
  have a2: "add64 (Fin (1351079888211149 / 4503599627370496)) (Fin (3602879701896397 / 18014398509481984)) = Fin (1 / 2)"
    by (simp add: add64_def, subst binary64_eval [where j = 53])
      (simp_all add: round_half_even_def)
  have a3: "add64 (Fin (1 / 2)) (Fin (3602879701896397 / 18014398509481984)) = Fin (3152519739159347 / 4503599627370496)"
    by (simp add: add64_def, subst binary64_eval [where j = 53])
      (simp_all add: round_half_even_def)
  have a4: "add64 (Fin (3152519739159347 / 4503599627370496)) (Fin (3602879701896397 / 18014398509481984)) = Fin (2026619832316723 / 2251799813685248)"
    by (simp add: add64_def, subst binary64_eval [where j = 53])
      (simp_all add: round_half_even_def)
  have a5: "add64 (Fin (2026619832316723 / 2251799813685248)) (Fin (3602879701896397 / 18014398509481984)) = Fin (4953959590107545 / 4503599627370496)"
    by (simp add: add64_def, subst binary64_eval [where j = 52])
      (simp_all add: round_half_even_def)
  have body: "scheduler_body (A u k, w)
      = (A u k\<lparr>nextNoteTime := add64 (Fin u) (Fin (3602879701896397 / 18014398509481984)),
                currentStep := Suc k\<rparr>, w)" for u k w
  proof -
    have "currentLoop (A u k) = None" "\<not> isDogMode (A u k)"
      by (simp_all add: A_def new_LoopChannel_def)
    then show ?thesis
      by (simp add: scheduler_body_silent) (simp add: A_def d)
  qed
  have upd: "A u k\<lparr>nextNoteTime := Fin u', currentStep := k'\<rparr> = A u' k'" for u k u' k'
    by (simp add: A_def)
  have it1: "(scheduler_body ^^ 1) (A ?z 0, ?w2) = (A (1351079888211149 / 4503599627370496) (Suc 0), ?w2)"
    by (simp add: body a1 upd)
  have it2: "(scheduler_body ^^ 2) (A ?z 0, ?w2) = (A (1 / 2) (Suc (Suc 0)), ?w2)"
  proof -
    have "(scheduler_body ^^ 2) (A ?z 0, ?w2) = scheduler_body ((scheduler_body ^^ 1) (A ?z 0, ?w2))"
      by (simp add: eval_nat_numeral)
    also have "\<dots> = scheduler_body (A (1351079888211149 / 4503599627370496) (Suc 0), ?w2)"
      by (simp only: it1)
    also have "\<dots> = (A (1 / 2) (Suc (Suc 0)), ?w2)"
      by (simp add: body a2 upd)
    finally show ?thesis .
  qed
  have it3: "(scheduler_body ^^ 3) (A ?z 0, ?w2) = (A (3152519739159347 / 4503599627370496) (Suc (Suc (Suc 0))), ?w2)"
  proof -
    have "(scheduler_body ^^ 3) (A ?z 0, ?w2) = scheduler_body ((scheduler_body ^^ 2) (A ?z 0, ?w2))"
      by (simp add: eval_nat_numeral)
    also have "\<dots> = scheduler_body (A (1 / 2) (Suc (Suc 0)), ?w2)"
      by (simp only: it2)
    also have "\<dots> = (A (3152519739159347 / 4503599627370496) (Suc (Suc (Suc 0))), ?w2)"
      by (simp add: body a3 upd)
    finally show ?thesis .
  qed
  have it4: "(scheduler_body ^^ 4) (A ?z 0, ?w2) = (A (2026619832316723 / 2251799813685248) (Suc (Suc (Suc (Suc 0)))), ?w2)"
  proof -
    have "(scheduler_body ^^ 4) (A ?z 0, ?w2) = scheduler_body ((scheduler_body ^^ 3) (A ?z 0, ?w2))"
      by (simp add: eval_nat_numeral)
    also have "\<dots> = scheduler_body (A (3152519739159347 / 4503599627370496) (Suc (Suc (Suc 0))), ?w2)"
      by (simp only: it3)
    also have "\<dots> = (A (2026619832316723 / 2251799813685248) (Suc (Suc (Suc (Suc 0)))), ?w2)"
      by (simp add: body a4 upd)
    finally show ?thesis .
  qed
  have it5: "(scheduler_body ^^ 5) (A ?z 0, ?w2) = (A (4953959590107545 / 4503599627370496) (Suc (Suc (Suc (Suc (Suc 0))))), ?w2)"
  proof -
    have "(scheduler_body ^^ 5) (A ?z 0, ?w2) = scheduler_body ((scheduler_body ^^ 4) (A ?z 0, ?w2))"
      by (simp add: eval_nat_numeral)
    also have "\<dots> = scheduler_body (A (2026619832316723 / 2251799813685248) (Suc (Suc (Suc (Suc 0)))), ?w2)"
      by (simp only: it4)
    also have "\<dots> = (A (4953959590107545 / 4503599627370496) (Suc (Suc (Suc (Suc (Suc 0))))), ?w2)"
      by (simp add: body a5 upd)
    finally show ?thesis .
  qed
  have b0: "nextNoteTime (fst ((scheduler_body ^^ 0) (A ?z 0, ?w2))) < add64 (Fin ?c) (round64 0.1)"
    unfolding l by (simp add: A_def)
  have b1: "nextNoteTime (fst ((scheduler_body ^^ 1) (A ?z 0, ?w2))) < add64 (Fin ?c) (round64 0.1)"
    unfolding it1 l by (simp add: A_def)
  have b2: "nextNoteTime (fst ((scheduler_body ^^ 2) (A ?z 0, ?w2))) < add64 (Fin ?c) (round64 0.1)"
    unfolding it2 l by (simp add: A_def)
  have b3: "nextNoteTime (fst ((scheduler_body ^^ 3) (A ?z 0, ?w2))) < add64 (Fin ?c) (round64 0.1)"
    unfolding it3 l by (simp add: A_def)
  have b4: "nextNoteTime (fst ((scheduler_body ^^ 4) (A ?z 0, ?w2))) < add64 (Fin ?c) (round64 0.1)"
    unfolding it4 l by (simp add: A_def)
  have g: "bpm (A ?z 0) = Fin 75" "nextNoteTime (A ?z 0) = Fin ?z" "isPlaying (A ?z 0)"
    "lastHandle ?w2 = 1" "pending ?w2 = []"
    by (simp_all add: A_def)
  have num: "(40 :: real) \<le> 75" "(75 :: real) \<le> 300" "(0 :: real) \<le> ?z" "(0 :: real) \<le> ?c"
    "?c \<le> 2 ^ 40"
    by simp_all
  have f: "\<not> isPlaying new_LoopChannel" "currentStep new_LoopChannel = 0"
    by (simp_all add: new_LoopChannel_def)
  have pl: "isPlaying ?p" "pending ?w0 = []"
    by simp_all
  have i: "wake_inv (?p, ?w1)" "wake_inv (new_LoopChannel, ?w0)"
    by (simp_all add: wake_inv_pair)
  note w1 = scheduler_wake [where ch = "A ?z 0" and b = 75 and t = ?z and c = ?c
      and w = ?w2 and now = 0 and h = 1 and s = "(new_LoopChannel, ?w0)" and s' = "(?s, ?w1)"]
  note w2 = scheduler_wake [where ch = new_LoopChannel and b = 75 and t = ?z
      and c = ?c and w = ?w0 and now = 0 and h = 1 and s = "(?p, ?w1)" and s' = "(?p, ?w1)"]
  note w3 = scheduler_wake [where ch = ?p and b = 75 and t = ?z and c = ?c
      and w = ?w1 and now = 5 and h = 7 and s = "(?p, ?w1)" and s' = "(?p, ?w1)"]
  note w4 = scheduler_wake [where ch = ?p and b = 75 and t = ?z and c = ?c
      and w = ?w1 and now = 9 and h = 1 and s = "(?p, ?w1)" and s' = "(?p, ?w1)"]
  note w5 = scheduler_wake [where ch = ?p and b = 75 and t = ?z and c = ?c
      and w = ?w1 and now = 0 and h = 7 and s = "(?p, ?w1)" and s' = "(?p, ?w1)"]
  from w1 g(1,2) num obtain n where
    n: "scheduler (Fin ?c) (A ?z 0, ?w2) =
             Some (let (ch', w') = (scheduler_body ^^ n) (A ?z 0, ?w2)
                   in if isPlaying (A ?z 0)
                      then (ch'\<lparr>timerID := Some (Suc (lastHandle ?w2))\<rparr>,
                            w'\<lparr>lastHandle := Suc (lastHandle ?w2),
                               pending := pending ?w2 @ [(Suc (lastHandle ?w2), 25)]\<rparr>)
                      else (ch', w'))"
      "\<forall>k<n. nextNoteTime (fst ((scheduler_body ^^ k) (A ?z 0, ?w2)))
                      < add64 (Fin ?c) (round64 0.1)"
      "\<not> nextNoteTime (fst ((scheduler_body ^^ n) (A ?z 0, ?w2))) < add64 (Fin ?c) (round64 0.1)"
    by blast
  have below: "nextNoteTime (fst ((scheduler_body ^^ k) (A ?z 0, ?w2))) < add64 (Fin ?c) (round64 0.1)"
    if "k < 5" for k
  proof -
    from that consider "k = 0" | "k = 1" | "k = 2" | "k = 3" | "k = 4"
      by linarith
    then show ?thesis
    proof cases
      case 1 show ?thesis unfolding 1 by (rule b0)
    next
      case 2 show ?thesis unfolding 2 by (rule b1)
    next
      case 3 show ?thesis unfolding 3 by (rule b2)
    next
      case 4 show ?thesis unfolding 4 by (rule b3)
    next
      case 5 show ?thesis unfolding 5 by (rule b4)
    qed
  qed
  have above: "\<not> nextNoteTime (fst ((scheduler_body ^^ 5) (A ?z 0, ?w2)))
      < add64 (Fin ?c) (round64 0.1)"
    unfolding it5 l by (simp add: A_def)
  have n5: "n = 5"
  proof (rule ccontr)
    assume "n \<noteq> 5"
    then consider "n < 5" | "5 < n"
      by linarith
    then show False
    proof cases
      case 1
      from below [OF this] n(3) show False
        by (rule notE [rotated])
    next
      case 2
      with n(2) above show False
        by blast
    qed
  qed
  have r0: "nextNoteTime (fst ((scheduler_body ^^ 4) (A ?z 0, ?w2)))
      = Fin (2026619832316723 / 2251799813685248)"
    unfolding it4 by (simp add: A_def)
  have r1: "scheduler (Fin ?c) (A ?z 0, ?w2)
       = Some (new_LoopChannel\<lparr>bpm := Fin 75, isPlaying := True, nextNoteTime := Fin (4953959590107545 / 4503599627370496),
          currentStep := 5, timerID := Some 2\<rparr>, ?w3)"
    unfolding n(1) n5 it5 by (simp add: A_def)
  have r4: "start 0 (new_LoopChannel, ?w0) = Some (?s, ?w1)"
    using w2 f z0 by (simp add: tenth)
  have r5: "start 5 (?p, ?w1) = Some (?p, ?w1)"
    using w3 by simp
  from w4 i(1) have r6: "stop (?p, ?w1) = (?p\<lparr>isPlaying := False\<rparr>, ?w1\<lparr>pending := []\<rparr>)"
    and r7: "timeout_fires 1 9 (stop (?p, ?w1)) = Some (stop (?p, ?w1))"
    by blast+
  have r6': "stop (?p, ?w1) = (?p\<lparr>isPlaying := False\<rparr>, ?w2)"
    unfolding r6 by simp
  have r8: "wake_inv (?s, ?w1)"
    using w1 i r4 by blast
  have r9: "timeout_fires 7 0 (?p, ?w1) = Some (?p, ?w1)"
    by (simp add: timeout_fires_def)
  have r10: "wake_inv (?p, ?w1)"
    using w5 i r9 by blast
  have e: "new_LoopChannel\<lparr>bpm := Fin 75, isPlaying := True, nextNoteTime := Fin (3602879701896397 / 36028797018963968),
          currentStep := 0, timerID := Some 1\<rparr> = A ?z 0"
    by (simp add: A_def new_LoopChannel_def)
  show ?thesis
    unfolding e
    by (intro conjI) (fact g num l r0 r1 f r4 pl r5 i r6' r7 r8 r9)+
qed

subsection \<open>A tempo out of range\<close>

text \<open>
  The bounds on the tempo are needed. When a step leaves the next note time where it
  is, below the horizon, the loop of the wake does not end. This happens at a tempo of
  \<open>10 ^ 19\<close>, which no call in the program passes: the step of \<open>1.5e-18\<close> seconds is
  absorbed by the next note time 0.1.
\<close>

lemma scheduler_loop_stuck:
  assumes "scheduler_loop now s = Some s'"
  shows "\<not> (nextNoteTime (fst s) < add64 now (round64 0.1)
    \<and> add64 (nextNoteTime (fst s)) (mul64 (div64 60 (bpm (fst s))) 0.25) = nextNoteTime (fst s))"
proof (rule scheduler_loop.raw_induct [where P = "\<lambda>now s s'.
    \<not> (nextNoteTime (fst s) < add64 now (round64 0.1)
    \<and> add64 (nextNoteTime (fst s)) (mul64 (div64 60 (bpm (fst s))) 0.25) = nextNoteTime (fst s))",
    OF _ assms])
  fix loop :: "jsnum \<Rightarrow> LoopChannel \<times> window \<Rightarrow> (LoopChannel \<times> window) option"
    and now s s'
  assume IH: "\<And>now s y. loop now s = Some y \<Longrightarrow>
    \<not> (nextNoteTime (fst s) < add64 now (round64 0.1)
    \<and> add64 (nextNoteTime (fst s)) (mul64 (div64 60 (bpm (fst s))) 0.25) = nextNoteTime (fst s))"
    and eq: "(if nextNoteTime (fst s) < add64 now (round64 0.1) then loop now (scheduler_body s)
              else Some s) = Some s'"
  show "\<not> (nextNoteTime (fst s) < add64 now (round64 0.1)
    \<and> add64 (nextNoteTime (fst s)) (mul64 (div64 60 (bpm (fst s))) 0.25) = nextNoteTime (fst s))"
  proof
    assume a: "nextNoteTime (fst s) < add64 now (round64 0.1)
      \<and> add64 (nextNoteTime (fst s)) (mul64 (div64 60 (bpm (fst s))) 0.25) = nextNoteTime (fst s)"
    with eq have "loop now (scheduler_body s) = Some s'"
      by simp
    from IH [OF this] a show False
      by (simp add: scheduler_body_fields)
  qed
qed

lemma scheduler_absorbed_step:
  "timeout_fires 1 (Fin (3602879701896397 / 144115188075855872))
     (new_LoopChannel\<lparr>bpm := Fin 10000000000000000000, isPlaying := True,
          nextNoteTime := Fin (3602879701896397 / 36028797018963968), timerID := Some 1\<rparr>,
      \<lparr>random = sconst (3 / 4), lastHandle = 1, pending = [(1, 25)]\<rparr>) = None"
proof -
  let ?c = "new_LoopChannel\<lparr>bpm := Fin 10000000000000000000, isPlaying := True,
          nextNoteTime := Fin (3602879701896397 / 36028797018963968), timerID := Some 1\<rparr>"
  let ?w = "\<lparr>random = sconst (3 / 4), lastHandle = 1, pending = []\<rparr>"
  let ?now = "Fin (3602879701896397 / 144115188075855872)"
  have d1: "div64 60 (Fin 10000000000000000000) = Fin (7788445287802241 / 1298074214633706907132624082305024)"
    by (simp add: div64_def js, subst binary64_eval [where j = 110])
      (simp_all add: round_half_even_def)
  have d: "mul64 (div64 60 (Fin 10000000000000000000)) 0.25 = Fin (7788445287802241 / 5192296858534827628530496329220096)"
    unfolding d1
    by (simp add: mul64_def js, subst binary64_eval [where j = 112])
      (simp_all add: round_half_even_def)
  have a: "add64 (Fin (3602879701896397 / 36028797018963968)) (Fin (7788445287802241 / 5192296858534827628530496329220096)) = Fin (3602879701896397 / 36028797018963968)"
    by (simp add: add64_def, subst binary64_eval [where j = 56])
      (simp_all add: round_half_even_def)
  have l: "add64 ?now (round64 0.1) = Fin (1 / 8)"
    unfolding round64_tenth
    by (simp add: add64_def, subst binary64_eval [where j = 55])
      (simp_all add: round_half_even_def)
  have "scheduler_loop ?now (?c, ?w) = None"
  proof (cases "scheduler_loop ?now (?c, ?w)")
    case None
    then show ?thesis .
  next
    case (Some s')
    from scheduler_loop_stuck [OF this] show ?thesis
      by (simp add: l d a)
  qed
  then show ?thesis
    by (simp add: timeout_fires_def scheduler_def clearTimeout_def)
qed

section \<open>Clearing the loop\<close>

lemma setLoop_clears:
  assumes "case loopId of None \<Rightarrow> True | Some lid \<Rightarrow> lid \<notin> loop_id ` set AVAILABLE_LOOPS"
  shows "setLoop loopId now (ch, w) = Some (ch\<lparr>currentLoop := None\<rparr>, w)"
proof (cases loopId)
  case None
  then show ?thesis
    by (simp add: setLoop_def)
next
  case (Some lid)
  with assms have "find (\<lambda>l. loop_id l = lid) AVAILABLE_LOOPS = None"
    by (auto simp add: find_None_iff)
  with Some show ?thesis
    by (simp add: setLoop_def Let_def)
qed

text \<open>
  Claim C10, as stated, fails in override mode: after \<^verbatim>\<open>setLoop(null)\<close> the next step
  of a channel in override mode still dispatches a generator, the low-tone voice. Here
  override mode is activated on a new engine and the left channel's loop is cleared.
\<close>

theorem setLoop_null_counterexample:
  "setLoop None 0 (leftChannel (setDogMode True 0 new_SynthEngine),
       \<lparr>random = sconst (3 / 4), lastHandle = 0, pending = []\<rparr>)
     = Some ((leftChannel (setDogMode True 0 new_SynthEngine))\<lparr>currentLoop := None\<rparr>,
             \<lparr>random = sconst (3 / 4), lastHandle = 0, pending = []\<rparr>)
   \<and> voices (fst (scheduler_body
        ((leftChannel (setDogMode True 0 new_SynthEngine))\<lparr>currentLoop := None\<rparr>,
         \<lparr>random = sconst (3 / 4), lastHandle = 0, pending = []\<rparr>)))
     = [\<lparr>gen = Distorted808 45, vtime = 0, dest = MasterOutput\<rparr>]"
proof -
  let ?c = "leftChannel (setDogMode True 0 new_SynthEngine)"
  let ?w = "\<lparr>random = sconst (3 / 4), lastHandle = 0, pending = []\<rparr>"
  have d: "isDogMode (?c\<lparr>currentLoop := None\<rparr>)" "voices ?c = []" "nextNoteTime ?c = 0"
    "currentStep ?c = 0"
    by (simp_all add: setDogMode_def setPresence_def new_SynthEngine_def new_LoopChannel_def Let_def)
  have "setLoop None 0 (?c, ?w) = Some (?c\<lparr>currentLoop := None\<rparr>, ?w)"
    by (simp add: setLoop_clears)
  moreover have "voices (fst (scheduler_body (?c\<lparr>currentLoop := None\<rparr>, ?w)))
     = [\<lparr>gen = Distorted808 45, vtime = 0, dest = MasterOutput\<rparr>]"
    by (simp add: scheduler_body_override [OF d(1)] d spec_override_def)
  ultimately show ?thesis ..
qed

text \<open>
  Claim C10, amended. \<^verbatim>\<open>setLoop\<close> with \<^verbatim>\<open>null\<close> or with an id that is not in the
  catalog returns, and changes the channel in one field only: the active loop is none.
  So the sequencer keeps running: playing flag, timeout, step counter, mapping and
  effect parameters are as before. Each later step of a channel outside override mode
  dispatches no generator and draws no random number, and advances the next note time
  and the step counter as usual; in override mode the step dispatches the override
  voices.
\<close>

theorem setLoop_null_silences:
  "((case loopId of None \<Rightarrow> True | Some lid \<Rightarrow> lid \<notin> loop_id ` set AVAILABLE_LOOPS) \<longrightarrow>
      setLoop loopId now (ch, w) = Some (ch\<lparr>currentLoop := None\<rparr>, w))
   \<and> (currentLoop ch = None \<and> \<not> isDogMode ch \<longrightarrow>
        scheduler_body (ch, w) =
          (ch\<lparr>nextNoteTime := add64 (nextNoteTime ch) (mul64 (div64 60 (bpm ch)) 0.25),
              currentStep := currentStep ch + 1\<rparr>, w))
   \<and> (isDogMode ch \<longrightarrow>
        scheduler_body (ch, w) =
          (ch\<lparr>voices := voices ch @
                map (\<lambda>f. \<lparr>gen = Distorted808 f, vtime = nextNoteTime ch, dest = MasterOutput\<rparr>)
                  (spec_override (currentStep ch mod 16)),
              nextNoteTime := add64 (nextNoteTime ch) (mul64 (div64 60 (bpm ch)) 0.25),
              currentStep := currentStep ch + 1\<rparr>, w))"
  using setLoop_clears [of loopId now ch w] scheduler_body_silent [of ch w]
    scheduler_body_override [of ch w]
  by blast

theorem setLoop_null_silences_witness:
  "''drum_techno'' \<notin> loop_id ` set AVAILABLE_LOOPS
   \<and> setLoop (Some ''drum_techno'') 2
        (new_LoopChannel\<lparr>isPlaying := True, currentLoop := Some (AVAILABLE_LOOPS ! 0),
           timerID := Some 1\<rparr>,
         \<lparr>random = sconst (3 / 4), lastHandle = 1, pending = [(1, 25)]\<rparr>)
       = Some ((new_LoopChannel\<lparr>isPlaying := True, currentLoop := Some (AVAILABLE_LOOPS ! 0),
                  timerID := Some 1\<rparr>)\<lparr>currentLoop := None\<rparr>,
               \<lparr>random = sconst (3 / 4), lastHandle = 1, pending = [(1, 25)]\<rparr>)
   \<and> currentLoop new_LoopChannel = None \<and> \<not> isDogMode new_LoopChannel
   \<and> voices (fst (scheduler_body (new_LoopChannel,
         \<lparr>random = sconst (3 / 4), lastHandle = 1, pending = [(1, 25)]\<rparr>))) = []
   \<and> currentStep (fst (scheduler_body (new_LoopChannel,
         \<lparr>random = sconst (3 / 4), lastHandle = 1, pending = [(1, 25)]\<rparr>))) = 1
   \<and> isDogMode (new_LoopChannel\<lparr>isDogMode := True\<rparr>)
   \<and> voices (fst (scheduler_body (new_LoopChannel\<lparr>isDogMode := True\<rparr>,
         \<lparr>random = sconst (3 / 4), lastHandle = 1, pending = [(1, 25)]\<rparr>)))
       = [\<lparr>gen = Distorted808 45, vtime = 0, dest = MasterOutput\<rparr>]"
proof -
  let ?w = "\<lparr>random = sconst (3 / 4), lastHandle = 1, pending = [(1 :: nat, 25 :: nat)]\<rparr>"
  let ?p = "new_LoopChannel\<lparr>isPlaying := True, currentLoop := Some (AVAILABLE_LOOPS ! 0),
           timerID := Some 1\<rparr>"
  have a: "''drum_techno'' \<notin> loop_id ` set AVAILABLE_LOOPS"
    by (simp add: AVAILABLE_LOOPS_def)
  have f: "currentLoop new_LoopChannel = None" "\<not> isDogMode new_LoopChannel"
    "voices new_LoopChannel = []" "currentStep new_LoopChannel = 0"
    "nextNoteTime new_LoopChannel = 0"
    by (simp_all add: new_LoopChannel_def)
  have d: "isDogMode (new_LoopChannel\<lparr>isDogMode := True\<rparr>)"
    by simp
  note w1 = setLoop_null_silences [where loopId = "Some ''drum_techno''" and now = 2
      and ch = ?p and w = ?w]
  note w2 = setLoop_null_silences [where loopId = None and now = 2
      and ch = new_LoopChannel and w = ?w]
  note w3 = setLoop_null_silences [where loopId = None and now = 2
      and ch = "new_LoopChannel\<lparr>isDogMode := True\<rparr>" and w = ?w]
  have r1: "setLoop (Some ''drum_techno'') 2 (?p, ?w) = Some (?p\<lparr>currentLoop := None\<rparr>, ?w)"
    using w1 a by simp
  have r2: "voices (fst (scheduler_body (new_LoopChannel, ?w))) = []"
    using w2 f by simp
  have r3: "currentStep (fst (scheduler_body (new_LoopChannel, ?w))) = 1"
    using w2 f by simp
  have r4: "voices (fst (scheduler_body (new_LoopChannel\<lparr>isDogMode := True\<rparr>, ?w)))
       = [\<lparr>gen = Distorted808 45, vtime = 0, dest = MasterOutput\<rparr>]"
    using w3 d by (simp add: f spec_override_def)
  show ?thesis
    by (intro conjI) (fact a r1 f r2 r3 d r4)+
qed

section \<open>Gesture mapping\<close>

lemma clamp_Fin_unit: "clamp (Fin r) (- 1) 1 = Fin (max (- 1) (min 1 r))"
  by (simp add: js clamp_def)

lemma calculateHandMetrics_spec:
  assumes "21 \<le> length lms"
  shows "calculateHandMetrics lms isRightHand =
     Inr \<lparr>m_spread = clamp ((spec_spreadRatio lms - 0.8) / (1.7 - 0.8)) 0 1,
          m_z = clamp (Fin ((spec_handScale lms - 0.05) / (0.3 - 0.05))) 0 1,
          m_rotation = spec_rotation isRightHand (spec_angleDeg lms)\<rparr>"
proof -
  define H where "H = sqrt ((lx (lms ! 0) - lx (lms ! 9)) * (lx (lms ! 0) - lx (lms ! 9))
            + (ly (lms ! 0) - ly (lms ! 9)) * (ly (lms ! 0) - ly (lms ! 9)))"
  define T where "T = foldl (\<lambda>totalDist idx. totalDist
      + sqrt ((lx (lms ! idx) - lx (lms ! 0)) * (lx (lms ! idx) - lx (lms ! 0))
            + (ly (lms ! idx) - ly (lms ! 0)) * (ly (lms ! idx) - ly (lms ! 0))))
      0 [4, 8, 12, 16, 20]"
  define D where "D = Math_atan2 (ly (lms ! 9) - ly (lms ! 0)) (lx (lms ! 9) - lx (lms ! 0))
      * (180 / pi)"
  have l: "(length lms < 21) = False"
    using assms by simp
  have 1: "calculateHandMetrics lms isRightHand =
     Inr \<lparr>m_spread = Math_max 0 (Math_min 1 ((Fin (T / 5) / Fin H - 0.8) / (1.7 - 0.8))),
          m_z = Fin (max 0 (min 1 ((H - 0.05) / (0.3 - 0.05)))),
          m_rotation = Fin (max (- 1) (min 1
            (if isRightHand then - (D + 90) / 90 else (D + 90) / 90)))\<rparr>"
    unfolding H_def T_def D_def calculateHandMetrics_def
    by (simp only: Let_def l if_False)
  have 2: "T / 5 = spec_meanTipDistance lms" "H = spec_handScale lms" "D = spec_angleDeg lms"
    by (simp_all add: T_def H_def D_def spec_meanTipDistance_def spec_handScale_def
        spec_angleDeg_def spec_distance_def power2_eq_square)
  have 3: "Fin (max (- 1) (min 1 (if isRightHand then - (a + 90) / 90 else (a + 90) / 90)))
      = spec_rotation isRightHand a" for a
    by (simp add: spec_rotation_def clamp_Fin_unit)
  show ?thesis
    unfolding 1 3 Math_clamp clamp_Fin [symmetric] 2 spec_spreadRatio_def ..
qed

lemma controlValues_spec:
  assumes "21 \<le> length lms"
  shows "controlValues lms isRightHand = Inr (spec_control lms isRightHand)"
proof -
  have l: "(length lms \<le> 8) = False"
    using assms by simp
  show ?thesis
    unfolding controlValues_def calculateHandMetrics_spec [OF assms] spec_control_def
    by (simp only: Let_def l if_False sum.case clamp_Fin metrics.simps)
qed

lemma spec_rotation_poses:
  "spec_rotation True 0 = - 1" "spec_rotation True (- 180) = 1"
  "spec_rotation False (- 180) = - 1" "spec_rotation False 0 = 1"
  "spec_rotation True (- 90) = 0" "spec_rotation False (- 90) = 0"
  by (simp_all add: spec_rotation_def clamp_def js)

lemma sqrt_values: "sqrt (1 / 25) = 1 / 5" "sqrt (4 / 25) = 2 / 5" "sqrt (9 / 100) = 3 / 10"
  by (rule real_sqrt_unique; simp add: power2_eq_square)+

text \<open>
  Claim C7. The control values the source computes are those of the specification's
  formulas (\<open>controlValues_spec\<close>), and the rotation formulas take the angles the
  source names for the poses, 0 and \<open>-180\<close> degrees, to \<open>-1\<close> and \<open>+1\<close>
  (\<open>spec_rotation_poses\<close>). The poses themselves do not all arrive there. This frame
  is a right hand pointing exactly left, the pose the source calls thumb-down:
  \<^verbatim>\<open>Math.atan2\<close> gives it the angle \<open>+180\<close>, not \<open>-180\<close>, and its rotation is
  \<open>-1\<close>, where the claim and the source's comment have \<open>+1\<close>.
\<close>

theorem thumb_down_right_hand:
  "controlValues ((replicate 21 \<lparr>lx = 0.1, ly = 0.5\<rparr>)
        [0 := \<lparr>lx = 0.5, ly = 0.5\<rparr>, 9 := \<lparr>lx = 0.3, ly = 0.5\<rparr>]) True
     = Inr \<lparr>c_x = 0.1, c_y = 0.5, c_spread = 1, c_z = 0.6, c_rotation = - 1\<rparr>
   \<and> spec_angleDeg ((replicate 21 \<lparr>lx = 0.1, ly = 0.5\<rparr>)
        [0 := \<lparr>lx = 0.5, ly = 0.5\<rparr>, 9 := \<lparr>lx = 0.3, ly = 0.5\<rparr>]) = 180"
proof -
  let ?f = "(replicate 21 \<lparr>lx = 0.1, ly = 0.5\<rparr>)
        [0 := \<lparr>lx = 0.5, ly = 0.5\<rparr>, 9 := \<lparr>lx = 0.3 :: real, ly = 0.5 :: real\<rparr>]"
  have n: "?f ! 0 = \<lparr>lx = 0.5, ly = 0.5\<rparr>" "?f ! 9 = \<lparr>lx = 0.3, ly = 0.5\<rparr>"
    "?f ! 4 = \<lparr>lx = 0.1, ly = 0.5\<rparr>" "?f ! 8 = \<lparr>lx = 0.1, ly = 0.5\<rparr>"
    "?f ! 12 = \<lparr>lx = 0.1, ly = 0.5\<rparr>" "?f ! 16 = \<lparr>lx = 0.1, ly = 0.5\<rparr>"
    "?f ! 20 = \<lparr>lx = 0.1, ly = 0.5\<rparr>"
    by simp_all
  have a: "spec_angleDeg ?f = 180"
    unfolding spec_angleDeg_def n by (simp add: Math_atan2_def)
  have h: "spec_handScale ?f = 1 / 5"
    unfolding spec_handScale_def spec_distance_def n
    by (simp add: power2_eq_square sqrt_values)
  have m: "spec_meanTipDistance ?f = 2 / 5"
    unfolding spec_meanTipDistance_def spec_distance_def
    by (simp add: n power2_eq_square sqrt_values)
  have c: "spec_control ?f True
      = \<lparr>c_x = 0.1, c_y = 0.5, c_spread = 1, c_z = 0.6, c_rotation = - 1\<rparr>"
    unfolding spec_control_def spec_spreadRatio_def a h m n spec_rotation_def
    by (simp add: clamp_def js)
  have "controlValues ?f True = Inr (spec_control ?f True)"
    by (rule controlValues_spec) simp
  with a c show ?thesis
    by simp
qed

section \<open>Degenerate frames\<close>

lemma predictWebcam_hand_updates:
  assumes "21 \<le> length lms" "synthRef app = Some eng"
  shows "predictWebcam_hand lms lab t app =
     Inr (app\<lparr>synthRef := Some (updateHand (if lab = Left then left else right)
            (c_x (spec_control lms (lab = Right))) (c_y (spec_control lms (lab = Right)))
            (c_spread (spec_control lms (lab = Right))) (c_z (spec_control lms (lab = Right)))
            (c_rotation (spec_control lms (lab = Right)))
            (if lab = Right then rightHand_isRotationActive app
             else leftHand_isRotationActive app) t eng)\<rparr>)"
  using assms(2)
  by (simp add: predictWebcam_hand_def controlValues_spec [OF assms(1)] Let_def)

lemma updateHand_channel:
  "leftChannel (updateHand left x y sp z r a t eng) = update x y sp z r a t (leftChannel eng)"
  "rightChannel (updateHand right x y sp z r a t eng) = update x y sp z r a t (rightChannel eng)"
  by (simp_all add: updateHand_def)








lemma update_spread_HPF:
  assumes "xEffect ch \<notin> {LPF, HPF}" "yEffect ch \<notin> {LPF, HPF}" "zEffect ch \<notin> {LPF, HPF}"
    and "spreadEffect ch = HPF"
  shows "automation (frequency (filterNode (update x y sp z r a t ch)))
     = Some \<lparr>target = clamp sp 0 1 * 10000, startTime = t, timeConstant = 0.1\<rparr>"
  using assms by (simp add: update_filterNode applyEffect_filterNode)

text \<open>
  Claim C1. The writes of \<^verbatim>\<open>applyEffect\<close> are those of the claim
  (\<open>applyEffect_sets_targets\<close>), and the value it writes lies in \<open>[0, 1]\<close> for every
  number. But the value need not be a number, and \<^verbatim>\<open>Math.max(0, Math.min(1, value))\<close>
  hands \<^verbatim>\<open>NaN\<close> through. In this frame of a right hand all 21 landmarks coincide: the
  hand scale and the mean fingertip distance are 0, the quotient \<open>0 / 0\<close> is \<^verbatim>\<open>NaN\<close>,
  and so is spread, which is not below 0.15; with the spread axis of the right hand on
  HPF, as the application sets it at first, \<^verbatim>\<open>applyEffect\<close> writes the cutoff target
  \<^verbatim>\<open>NaN\<close>, where the claim and the source's comment have a value in \<open>[0, 1]\<close> and a
  cutoff of at most 10000.
\<close>

theorem applyEffect_NaN_target:
  "controlValues (replicate 21 \<lparr>lx = 0.5, ly = 0.5\<rparr>) True
     = Inr \<lparr>c_x = 0.5, c_y = 0.5, c_spread = NaN, c_z = 0, c_rotation = - 1\<rparr>
   \<and> predictWebcam_hand (replicate 21 \<lparr>lx = 0.5, ly = 0.5\<rparr>) Right 0
        \<lparr>synthRef = Some (updateMapping right Spread HPF 0 new_SynthEngine),
         appState_bpm = 128, leftHand_isRotationActive = False,
         rightHand_isRotationActive = False\<rparr>
     = Inr \<lparr>synthRef = Some (updateHand right 0.5 0.5 NaN 0 (- 1) False 0
                 (updateMapping right Spread HPF 0 new_SynthEngine)),
         appState_bpm = 128, leftHand_isRotationActive = False,
         rightHand_isRotationActive = False\<rparr>
   \<and> Math_max 0 (Math_min 1 NaN) = NaN
   \<and> applyEffect HPF NaN False 0 new_LoopChannel =
       new_LoopChannel\<lparr>filterNode := (filterNode new_LoopChannel)\<lparr>ftype := highpass,
          frequency := setTargetAtTime NaN 0 0.1 (frequency (filterNode new_LoopChannel)),
          Q := (Q (filterNode new_LoopChannel))\<lparr>pvalue := 1\<rparr>\<rparr>\<rparr>
   \<and> automation (frequency (filterNode (rightChannel (updateHand right 0.5 0.5 NaN 0 (- 1) False 0
          (updateMapping right Spread HPF 0 new_SynthEngine)))))
     = Some \<lparr>target = NaN, startTime = 0, timeConstant = 0.1\<rparr>"
proof -
  let ?g = "replicate 21 \<lparr>lx = 0.5 :: real, ly = 0.5 :: real\<rparr>"
  let ?e = "updateMapping right Spread HPF 0 new_SynthEngine"
  let ?a = "\<lparr>synthRef = Some ?e, appState_bpm = 128, leftHand_isRotationActive = False,
         rightHand_isRotationActive = False\<rparr>"
  have n: "?g ! 0 = \<lparr>lx = 0.5, ly = 0.5\<rparr>" "?g ! 9 = \<lparr>lx = 0.5, ly = 0.5\<rparr>"
    "?g ! 4 = \<lparr>lx = 0.5, ly = 0.5\<rparr>" "?g ! 8 = \<lparr>lx = 0.5, ly = 0.5\<rparr>"
    "?g ! 12 = \<lparr>lx = 0.5, ly = 0.5\<rparr>" "?g ! 16 = \<lparr>lx = 0.5, ly = 0.5\<rparr>"
    "?g ! 20 = \<lparr>lx = 0.5, ly = 0.5\<rparr>"
    by simp_all
  have l: "21 \<le> length ?g" and q: "synthRef ?a = Some ?e"
    and e: "(Right = Right) = True"
    by simp_all
  have h: "spec_handScale ?g = 0"
    unfolding spec_handScale_def spec_distance_def n by simp
  have m: "spec_meanTipDistance ?g = 0"
    unfolding spec_meanTipDistance_def spec_distance_def by (simp add: n)
  have a: "spec_angleDeg ?g = 0"
    unfolding spec_angleDeg_def n by (simp add: Math_atan2_def)
  have c: "spec_control ?g True
      = \<lparr>c_x = 0.5, c_y = 0.5, c_spread = NaN, c_z = 0, c_rotation = - 1\<rparr>"
    unfolding spec_control_def spec_spreadRatio_def a h m n spec_rotation_def
    by (simp add: clamp_def js)
  have 1: "controlValues ?g True
      = Inr \<lparr>c_x = 0.5, c_y = 0.5, c_spread = NaN, c_z = 0, c_rotation = - 1\<rparr>"
    unfolding controlValues_spec [OF l] c ..
  have 2: "predictWebcam_hand ?g Right 0 ?a
      = Inr \<lparr>synthRef = Some (updateHand right 0.5 0.5 NaN 0 (- 1) False 0 ?e),
         appState_bpm = 128, leftHand_isRotationActive = False,
         rightHand_isRotationActive = False\<rparr>"
    unfolding predictWebcam_hand_updates [OF l q, of Right 0] e c by simp
  have 3: "Math_max 0 (Math_min 1 NaN) = NaN"
    by (simp add: js)
  have 4: "applyEffect HPF NaN False 0 new_LoopChannel =
       new_LoopChannel\<lparr>filterNode := (filterNode new_LoopChannel)\<lparr>ftype := highpass,
          frequency := setTargetAtTime NaN 0 0.1 (frequency (filterNode new_LoopChannel)),
          Q := (Q (filterNode new_LoopChannel))\<lparr>pvalue := 1\<rparr>\<rparr>\<rparr>"
    by (simp add: applyEffect_HPF clamp_def js)
  have s: "xEffect (rightChannel ?e) \<notin> {LPF, HPF}" "yEffect (rightChannel ?e) \<notin> {LPF, HPF}"
    "zEffect (rightChannel ?e) \<notin> {LPF, HPF}" "spreadEffect (rightChannel ?e) = HPF"
    by (simp_all add: updateMapping_def setMapping_axes new_SynthEngine_def new_LoopChannel_def)
  have 5: "automation (frequency (filterNode (rightChannel
        (updateHand right 0.5 0.5 NaN 0 (- 1) False 0 ?e))))
     = Some \<lparr>target = NaN, startTime = 0, timeConstant = 0.1\<rparr>"
    unfolding updateHand_channel update_spread_HPF [OF s] by (simp add: clamp_def js)
  from 1 2 3 4 5 show ?thesis
    by (intro conjI)
qed

end
